(* ===== verification/Prelude.thy ===== *)
theory Prelude
  imports Main "HOL-Library.Word"
begin

unbundle bit_operations_syntax

section \<open>Prelude: machine types, buffers, C strings, step relations\<close>

text \<open>
  What the component theories share. Fixed-width C integers are words
  (\<open>u8\<close>, \<open>u16\<close>, \<open>u32\<close>, \<open>u64\<close>, with C's wrap-around); a \<open>size_t\<close>
  is a \<open>nat\<close>, since every size in the program is bounded by the size of an
  array and never comes near \<open>2 ^ 64\<close>. A byte buffer is a list; a pointer that
  the code compares with \<open>NULL\<close> is an \<open>option\<close>. A C string is the list of its bytes before the
  terminating zero.

  The collection \<open>byte_simps\<close> holds the equations on byte lists that the
  codec proofs need; \<open>reach\<close> is the reflexive-transitive closure of a step
  relation and \<open>inductive_invariant\<close> the interface through which the state
  machines of the development obtain their reachable-state theorems.
\<close>

named_theorems byte_simps \<open>equations on encoded byte lists\<close>

type_synonym u8 = "8 word"
type_synonym u16 = "16 word"
type_synonym u32 = "32 word"
type_synonym u64 = "64 word"
type_synonym byte = u8
type_synonym bytes = "byte list"
type_synonym 'a ptr = "'a option"

subsection \<open>Buffers\<close>

text \<open>\<open>memcpy\<close> of \<open>src\<close> into the array \<open>dst\<close> at index \<open>pos\<close>.\<close>

definition memcpy_at :: "'a list \<Rightarrow> nat \<Rightarrow> 'a list \<Rightarrow> 'a list" where
  "memcpy_at dst pos src = take pos dst @ src @ drop (pos + length src) dst"

lemma length_memcpy_at [simp]:
  "pos + length src \<le> length dst \<Longrightarrow> length (memcpy_at dst pos src) = length dst"
  by (simp add: memcpy_at_def)

lemma memcpy_at_Nil [simp]: "memcpy_at dst pos [] = dst"
  by (simp add: memcpy_at_def)

lemma nth_memcpy_at:
  assumes "pos + length src \<le> length dst" and "i < length dst"
  shows "memcpy_at dst pos src ! i =
    (if pos \<le> i \<and> i < pos + length src then src ! (i - pos) else dst ! i)"
  using assms by (auto simp: memcpy_at_def nth_append min_def)

lemma take_memcpy_at:
  "pos + length src \<le> length dst \<Longrightarrow> n \<le> pos \<Longrightarrow> take n (memcpy_at dst pos src) = take n dst"
  by (simp add: memcpy_at_def min_def)

lemma take_memcpy_at_end:
  "pos + length src \<le> length dst \<Longrightarrow>
   take (pos + length src) (memcpy_at dst pos src) = take pos dst @ src"
  by (cases src) (auto simp: memcpy_at_def min_def)

text \<open>The bytes \<open>[pos, pos + n)\<close> of a buffer.\<close>

definition region :: "'a list \<Rightarrow> nat \<Rightarrow> nat \<Rightarrow> 'a list" where
  "region xs pos n = take n (drop pos xs)"

lemma length_region [simp]: "length (region xs pos n) = min n (length xs - pos)"
  by (simp add: region_def min.commute)

lemma take_add_region: "take (pos + n) xs = take pos xs @ region xs pos n"
  by (simp add: region_def take_add)

text \<open>
  A call through a pointer to the callee's own object: with \<open>NULL\<close> the function returns
  \<open>err\<close> and there is no object to change.
\<close>

definition call_ptr :: "'r \<Rightarrow> ('s \<Rightarrow> 'r \<times> 's) \<Rightarrow> 's ptr \<Rightarrow> 'r \<times> 's ptr" where
  "call_ptr err f p =
    (case p of None \<Rightarrow> (err, None) | Some s \<Rightarrow> (case f s of (r, s') \<Rightarrow> (r, Some s')))"

lemma call_ptr_simps [simp]:
  "call_ptr err f None = (err, None)"
  "call_ptr err f (Some s) = (fst (f s), Some (snd (f s)))"
  by (simp_all add: call_ptr_def split_beta)

lemma list_eq_take_drop: "take n xs = take n ys \<Longrightarrow> drop n xs = drop n ys \<Longrightarrow> xs = ys"
  by (metis append_take_drop_id)

text \<open>The ranges of the machine integers.\<close>

lemma unat_u8_less: "unat (v :: u8) < 256"
  using unsigned_less [where 'a = nat, of v] by simp

lemma unat_u16_less: "unat (v :: u16) < 65536"
  using unsigned_less [where 'a = nat, of v] by simp

lemma unat_u32_less: "unat (v :: u32) < 4294967296"
  using unsigned_less [where 'a = nat, of v] by simp

lemma unat_u64_less: "unat (v :: u64) < 18446744073709551616"
  using unsigned_less [where 'a = nat, of v] by simp

lemma unat_of_nat_u16: "n < 65536 \<Longrightarrow> unat (of_nat n :: u16) = n"
  by (simp add: unat_of_nat)

lemma unat_of_nat_u32: "n < 4294967296 \<Longrightarrow> unat (of_nat n :: u32) = n"
  by (simp add: unat_of_nat)

subsection \<open>C strings\<close>

text \<open>
  \<open>memchr (p, 0, n)\<close>: the index of the first zero byte of the region, if any. \<open>cstr\<close>
  reads the C string that starts a buffer, as \<open>strcmp\<close> and \<open>strlen\<close> see it.
\<close>

fun memchr0 :: "bytes \<Rightarrow> nat option" where
  "memchr0 [] = None"
| "memchr0 (b # bs) = (if b = 0 then Some 0 else map_option Suc (memchr0 bs))"

definition cstr :: "bytes \<Rightarrow> bytes" where
  "cstr bs = takeWhile (\<lambda>b. b \<noteq> 0) bs"

lemma memchr0_Some:
  "memchr0 bs = Some n \<longleftrightarrow> n < length bs \<and> bs ! n = 0 \<and> (\<forall>i<n. bs ! i \<noteq> 0)"
proof (induction bs arbitrary: n)
  case Nil
  then show ?case by simp
next
  case (Cons b bs)
  show ?case
  proof (cases n)
    case 0
    then show ?thesis by (auto split: if_splits)
  next
    case (Suc m)
    then show ?thesis using Cons.IH [of m] by (auto simp: All_less_Suc2)
  qed
qed

lemma memchr0_cstr: "memchr0 bs = Some n \<Longrightarrow> cstr bs = take n bs \<and> length (cstr bs) = n"
  by (induction bs arbitrary: n) (auto simp: cstr_def split: if_splits)

lemma memchr0_append_zero [simp]:
  "0 \<notin> set s \<Longrightarrow> memchr0 (s @ 0 # rest) = Some (length s)"
  by (induction s) auto

lemma cstr_append_zero [simp]: "0 \<notin> set s \<Longrightarrow> cstr (s @ 0 # rest) = s"
  by (induction s) (auto simp: cstr_def)

lemma zero_notin_cstr [simp]: "0 \<notin> set (cstr bs)"
  using set_takeWhileD by (fastforce simp: cstr_def)

subsection \<open>Step relations and invariants\<close>

inductive reach :: "('s \<Rightarrow> 's \<Rightarrow> bool) \<Rightarrow> 's \<Rightarrow> 's \<Rightarrow> bool" for step where
  reach_refl [intro]: "reach step s s"
| reach_step [intro]: "reach step s t \<Longrightarrow> step t u \<Longrightarrow> reach step s u"

lemma reach_trans: "reach step t u \<Longrightarrow> reach step s t \<Longrightarrow> reach step s u"
  by (induction rule: reach.induct) auto

locale inductive_invariant =
  fixes step :: "'s \<Rightarrow> 's \<Rightarrow> bool" and inv :: "'s \<Rightarrow> bool"
  assumes step_preserves: "inv s \<Longrightarrow> step s t \<Longrightarrow> inv t"
begin

lemma reach_preserves: "reach step s t \<Longrightarrow> inv s \<Longrightarrow> inv t"
  by (induction rule: reach.induct) (auto intro: step_preserves)

end

subsection \<open>Byte codecs\<close>

text \<open>
  The contract of an encoder and a strict decoder: the decoder inverts the encoder on valid
  values and accepts nothing but encodings of them.
\<close>

locale byte_codec =
  fixes valid :: "'a \<Rightarrow> bool" and enc :: "'a \<Rightarrow> bytes" and dec :: "bytes \<Rightarrow> 'e + 'a"
  assumes dec_enc: "valid x \<Longrightarrow> dec (enc x) = Inr x"
    and dec_valid: "dec w = Inr x \<Longrightarrow> valid x"
    and enc_dec: "dec w = Inr x \<Longrightarrow> enc x = w"
begin

lemma dec_iff: "dec w = Inr x \<longleftrightarrow> valid x \<and> enc x = w"
  using dec_enc dec_valid enc_dec by blast

lemma enc_inject: "valid x \<Longrightarrow> valid y \<Longrightarrow> enc x = enc y \<Longrightarrow> x = y"
  using dec_enc by (metis sum.inject(2))

lemma dec_unique: "dec v = Inr x \<Longrightarrow> dec w = Inr x \<Longrightarrow> v = w"
  using enc_dec by blast

end

end
