(* ===== verification/Status.thy ===== *)
theory Status
  imports Prelude
begin

section \<open>Status codes (include/devmgr/error.h, src/common/error.c)\<close>

text \<open>
  The enumeration every host function returns, its integer encoding (the value that
  crosses the IPC socket as a signed 32-bit field) and the message table.
\<close>

datatype devmgr_status =
    DEVMGR_OK
  | DEVMGR_ERROR_INVALID
  | DEVMGR_ERROR_NOMEM
  | DEVMGR_ERROR_OVERFLOW
  | DEVMGR_ERROR_UNDERFLOW
  | DEVMGR_ERROR_CRC
  | DEVMGR_ERROR_PROTOCOL
  | DEVMGR_ERROR_TIMEOUT
  | DEVMGR_ERROR_DISCONNECTED
  | DEVMGR_ERROR_IO
  | DEVMGR_ERROR_STATE
  | DEVMGR_ERROR_BUSY
  | DEVMGR_ERROR_NOT_FOUND
  | DEVMGR_ERROR_LIMIT

fun status_code :: "devmgr_status \<Rightarrow> int" where
  "status_code DEVMGR_OK = 0"
| "status_code DEVMGR_ERROR_INVALID = -1"
| "status_code DEVMGR_ERROR_NOMEM = -2"
| "status_code DEVMGR_ERROR_OVERFLOW = -3"
| "status_code DEVMGR_ERROR_UNDERFLOW = -4"
| "status_code DEVMGR_ERROR_CRC = -5"
| "status_code DEVMGR_ERROR_PROTOCOL = -6"
| "status_code DEVMGR_ERROR_TIMEOUT = -7"
| "status_code DEVMGR_ERROR_DISCONNECTED = -8"
| "status_code DEVMGR_ERROR_IO = -9"
| "status_code DEVMGR_ERROR_STATE = -10"
| "status_code DEVMGR_ERROR_BUSY = -11"
| "status_code DEVMGR_ERROR_NOT_FOUND = -12"
| "status_code DEVMGR_ERROR_LIMIT = -13"

definition devmgr_status_string :: "int \<Rightarrow> string" where
  "devmgr_status_string status =
    (if status = 0 then ''success''
     else if status = -1 then ''invalid argument''
     else if status = -2 then ''out of memory''
     else if status = -3 then ''overflow''
     else if status = -4 then ''underflow''
     else if status = -5 then ''CRC mismatch''
     else if status = -6 then ''protocol error''
     else if status = -7 then ''timeout''
     else if status = -8 then ''disconnected''
     else if status = -9 then ''I/O error''
     else if status = -10 then ''invalid state''
     else if status = -11 then ''busy''
     else if status = -12 then ''not found''
     else if status = -13 then ''limit exceeded''
     else ''unknown error'')"

text \<open>The codes are distinct, so a status survives its integer encoding.\<close>

lemma status_code_inject: "status_code a = status_code b \<Longrightarrow> a = b"
  by (cases a; cases b; simp)

lemma status_code_range: "-13 \<le> status_code s \<and> status_code s \<le> 0"
  by (cases s) auto

text \<open>
  The signed field: \<open>(uint32_t)status\<close> on the way out, \<open>(int32_t)\<close> on the way
  in.
\<close>

lemma sint_status_code: "sint (word_of_int (status_code s) :: u32) = status_code s"
  by (cases s) auto

lemma devmgr_status_string_inject:
  "devmgr_status_string (status_code a) = devmgr_status_string (status_code b) \<Longrightarrow> a = b"
  by (cases a; cases b; simp add: devmgr_status_string_def)

lemma devmgr_status_string_known: "devmgr_status_string (status_code s) \<noteq> ''unknown error''"
  by (cases s) (simp_all add: devmgr_status_string_def)

end
