(* ===== verification/Crc32.thy ===== *)
theory Crc32
  imports Status
begin

section \<open>CRC-32 (include/devmgr/crc32.h, src/common/crc32.c)\<close>

text \<open>
  The bitwise CRC-32 the wire protocol and the firmware check use, the bit-serial
  shift register it implements, and what it detects. The inner loop of
  \<open>devmgr_crc32_update\<close> is \<open>crc32_bits\<close>, its body \<open>crc32_bit\<close>, one iteration
  of the outer loop \<open>crc32_byte\<close>.
\<close>

definition DEVMGR_CRC32_INIT :: u32 where
  "DEVMGR_CRC32_INIT = 0xFFFFFFFF"

definition DEVMGR_CRC32_XOR_OUT :: u32 where
  "DEVMGR_CRC32_XOR_OUT = 0xFFFFFFFF"

definition crc32_bit :: "u32 \<Rightarrow> u32" where
  "crc32_bit state =
    (let mask = 0 - (state AND 1)
     in drop_bit 1 state XOR (0xEDB88320 AND mask))"

fun crc32_bits :: "nat \<Rightarrow> u32 \<Rightarrow> u32" where
  "crc32_bits 0 state = state"
| "crc32_bits (Suc n) state = crc32_bits n (crc32_bit state)"

definition crc32_byte :: "u32 \<Rightarrow> byte \<Rightarrow> u32" where
  "crc32_byte state b = crc32_bits 8 (state XOR ucast b)"

definition devmgr_crc32_update :: "u32 \<Rightarrow> bytes ptr \<Rightarrow> u32" where
  "devmgr_crc32_update state data =
    (case data of None \<Rightarrow> state | Some bytes \<Rightarrow> foldl crc32_byte state bytes)"

definition devmgr_crc32_finish :: "u32 \<Rightarrow> u32" where
  "devmgr_crc32_finish state = state XOR DEVMGR_CRC32_XOR_OUT"

definition devmgr_crc32 :: "bytes ptr \<Rightarrow> u32" where
  "devmgr_crc32 data = devmgr_crc32_finish (devmgr_crc32_update DEVMGR_CRC32_INIT data)"

text \<open>The register after a message, the form in which most facts are stated.\<close>

abbreviation crc32_run :: "u32 \<Rightarrow> bytes \<Rightarrow> u32" where
  "crc32_run state bs \<equiv> foldl crc32_byte state bs"

text \<open>
  The reference: a 32-bit shift register fed one message bit at a time, least
  significant bit of each byte first, with the reflected polynomial as its taps.
\<close>

definition lfsr_step :: "u32 \<Rightarrow> bool \<Rightarrow> u32" where
  "lfsr_step r b =
    (if bit r 0 = b then drop_bit 1 r else drop_bit 1 r XOR 0xEDB88320)"

definition byte_bits :: "byte \<Rightarrow> bool list" where
  "byte_bits b = map (bit b) [0..<8]"

definition lfsr_run :: "u32 \<Rightarrow> bytes \<Rightarrow> u32" where
  "lfsr_run r bs = foldl lfsr_step r (concat (map byte_bits bs))"

subsection \<open>The register step\<close>

lemma crc32_bit_alt:
  "crc32_bit s = (if odd s then drop_bit 1 s XOR 0xEDB88320 else drop_bit 1 s)"
  by (auto simp: crc32_bit_def Let_def and_one_eq mod_2_eq_odd)

lemma crc32_bit_xor: "crc32_bit (a XOR b) = crc32_bit a XOR crc32_bit b"
  by (auto simp: crc32_bit_alt drop_bit_xor bit_eq_iff bit_simps even_xor_iff)

lemma crc32_bit_0 [simp]: "crc32_bit 0 = 0"
  by (simp add: crc32_bit_alt)

lemma bit31_crc32_bit: "bit (crc32_bit s) 31 = odd s"
proof -
  have "\<not> bit s 32" using bit_imp_le_length [of s 32] by auto
  then show ?thesis by (simp add: crc32_bit_alt bit_simps)
qed

lemma crc32_bit_eq_0: "crc32_bit s = 0 \<Longrightarrow> s = 0"
proof -
  assume *: "crc32_bit s = 0"
  then have "even s" using bit31_crc32_bit [of s] by simp
  with * have "drop_bit 1 s = 0" by (simp add: crc32_bit_alt)
  then have "\<not> bit s (Suc i)" for i
    using bit_drop_bit_eq [of 1 s] by (auto simp: fun_eq_iff)
  moreover have "\<not> bit s 0" using \<open>even s\<close> by (simp add: bit_0)
  ultimately have "\<not> bit s i" for i by (cases i) auto
  then show "s = 0" by (simp add: bit_eq_iff)
qed

lemma crc32_bit_even: "even s \<Longrightarrow> crc32_bit s = drop_bit 1 s"
  by (simp add: crc32_bit_alt)

lemma crc32_bits_xor: "crc32_bits n (a XOR b) = crc32_bits n a XOR crc32_bits n b"
  by (induction n arbitrary: a b) (simp_all add: crc32_bit_xor)

lemma crc32_bits_0 [simp]: "crc32_bits n 0 = 0"
  by (induction n) simp_all

lemma crc32_bits_eq_0: "crc32_bits n s = 0 \<Longrightarrow> s = 0"
  by (induction n arbitrary: s) (auto dest: crc32_bit_eq_0)

lemma xor_eq_0_imp_eq: "a XOR b = (0::'a::len word) \<Longrightarrow> a = b"
  by (auto simp: bit_eq_iff bit_simps)

lemma xor_right_cancel: "a XOR c = b XOR (c::'a::len word) \<Longrightarrow> a = b"
  by (auto simp: bit_eq_iff bit_simps)

lemma xor_left_cancel: "c XOR a = c XOR (b::'a::len word) \<Longrightarrow> a = b"
  by (auto simp: bit_eq_iff bit_simps)

lemma crc32_bits_inject: "crc32_bits n a = crc32_bits n b \<Longrightarrow> a = b"
  using crc32_bits_eq_0 [of n "a XOR b"] by (simp add: crc32_bits_xor xor_eq_0_imp_eq)

lemma crc32_bits_add: "crc32_bits (m + n) s = crc32_bits n (crc32_bits m s)"
  by (induction m arbitrary: s) simp_all

lemma crc32_bits_zeros: "(\<And>i. i < n \<Longrightarrow> \<not> bit s i) \<Longrightarrow> crc32_bits n s = drop_bit n s"
proof (induction n arbitrary: s)
  case 0
  then show ?case by simp
next
  case (Suc n)
  from Suc.prems [of 0] have "even s" by (simp add: bit_0)
  moreover from Suc.prems have "\<not> bit (drop_bit 1 s) i" if "i < n" for i
    using that by (simp add: bit_simps)
  ultimately show ?case using Suc.IH [of "drop_bit 1 s"] by (simp add: crc32_bit_even)
qed

subsection \<open>Streaming: the register over an append\<close>

lemma devmgr_crc32_update_append:
  "devmgr_crc32_update s (Some (xs @ ys)) = devmgr_crc32_update (devmgr_crc32_update s (Some xs)) (Some ys)"
  by (simp add: devmgr_crc32_update_def)

lemma crc32_byte_inject: "crc32_byte s b = crc32_byte t b \<Longrightarrow> s = t"
  unfolding crc32_byte_def by (drule crc32_bits_inject) (rule xor_right_cancel)

lemma crc32_run_inject: "crc32_run s bs = crc32_run t bs \<Longrightarrow> s = t"
  by (induction bs arbitrary: s t) (auto dest: crc32_byte_inject)

subsection \<open>Equivalence with the bit-serial register\<close>

lemma lfsr_step_crc32_bit: "lfsr_step r b = crc32_bit (r XOR of_bool b)"
  by (cases b) (auto simp: lfsr_step_def crc32_bit_alt bit_0 drop_bit_xor even_xor_iff)

lemma lfsr_bits:
  "n \<le> 32 \<Longrightarrow> foldl lfsr_step s (map (bit v) [0..<n]) = crc32_bits n (s XOR take_bit n v)"
  for v :: u32
proof (induction n arbitrary: s v)
  case 0
  then show ?case by simp
next
  case (Suc n)
  let ?v = "drop_bit 1 v"
  have map: "map (bit v) [0..<Suc n] = bit v 0 # map (bit ?v) [0..<n]"
    by (simp add: upt_conv_Cons map_Suc_upt [symmetric] bit_simps comp_def del: upt_Suc)
  have split: "take_bit (Suc n) v = of_bool (bit v 0) XOR push_bit 1 (take_bit n ?v)"
  proof (rule bit_word_eqI)
    fix i assume "i < LENGTH(32)"
    then show "bit (take_bit (Suc n) v) i =
        bit (of_bool (bit v 0) XOR push_bit 1 (take_bit n ?v)) i"
      by (cases i) (auto simp: bit_simps bit_of_bool_iff simp del: push_bit_Suc)
  qed
  have push: "crc32_bit (push_bit 1 (take_bit n ?v)) = take_bit n ?v"
  proof -
    have "\<not> bit (take_bit n ?v) 31" using bit_imp_le_length [of v 32] by (auto simp: bit_simps)
    then show ?thesis
      by (intro bit_word_eqI)
         (auto simp: crc32_bit_alt bit_simps simp del: push_bit_Suc dest: bit_imp_le_length)
  qed
  have "crc32_bit (s XOR take_bit (Suc n) v) = lfsr_step s (bit v 0) XOR take_bit n ?v"
    unfolding split lfsr_step_crc32_bit
    by (simp only: crc32_bit_xor push xor.assoc)
  then show ?case
    using Suc.IH [of "lfsr_step s (bit v 0)" ?v] Suc.prems
    by (simp only: map foldl.simps crc32_bits.simps)
qed

lemma crc32_byte_lfsr: "foldl lfsr_step s (byte_bits b) = crc32_byte s b"
proof -
  have "map (bit b) [0..<8] = map (bit (ucast b :: u32)) [0..<8]"
    by (auto simp: bit_simps)
  moreover have "take_bit 8 (ucast b :: u32) = ucast b"
    by (intro bit_word_eqI) (auto simp: bit_simps dest: bit_imp_le_length)
  ultimately show ?thesis
    using lfsr_bits [of 8 s "ucast b"] by (simp only: byte_bits_def crc32_byte_def)
qed

lemma lfsr_run_eq: "lfsr_run r bs = crc32_run r bs"
  unfolding lfsr_run_def
  by (induction bs arbitrary: r) (simp_all add: crc32_byte_lfsr)

subsection \<open>Windows of up to four bytes\<close>

text \<open>
  The register sees the first bytes of a message as one little-endian word: \<open>window\<close>
  reads at most four bytes that way.
\<close>

fun window :: "bytes \<Rightarrow> u32" where
  "window [] = 0"
| "window (b # bs) = ucast b XOR push_bit 8 (window bs)"

lemma bit_window: "length bs \<le> 4 \<Longrightarrow> bit (window bs) i \<Longrightarrow> i < 8 * length bs"
proof (induction bs arbitrary: i)
  case (Cons b bs)
  have "\<not> bit b i" if "8 \<le> i" using that bit_imp_le_length [of b i] by auto
  moreover have "bit (window bs) (i - 8) \<Longrightarrow> i - 8 < 8 * length bs"
    using Cons by simp
  ultimately show ?case using Cons.prems by (cases "i < 8") (auto simp: bit_simps)
qed simp

lemma crc32_run_window:
  "length bs \<le> 4 \<Longrightarrow> crc32_run s bs = crc32_bits (8 * length bs) (s XOR window bs)"
proof (induction bs arbitrary: s)
  case Nil
  then show ?case by simp
next
  case (Cons b bs)
  have small: "\<not> bit (window bs) i" if "24 \<le> i" for i
    using Cons.prems bit_window [of bs i] that by auto
  have "crc32_bits 8 (push_bit 8 (window bs)) = drop_bit 8 (push_bit 8 (window bs))"
    by (rule crc32_bits_zeros) (simp add: bit_simps)
  also have "\<dots> = window bs"
    by (intro bit_word_eqI) (use small in \<open>auto simp: bit_simps not_le [symmetric]\<close>)
  finally have "crc32_bits 8 (s XOR window (b # bs)) = crc32_byte s b XOR window bs"
    by (simp add: crc32_byte_def crc32_bits_xor xor.assoc)
  then show ?case
    using Cons.IH [of "crc32_byte s b"] Cons.prems
    by (simp add: crc32_bits_add)
qed

lemma window_inject:
  "length xs = length ys \<Longrightarrow> length xs \<le> 4 \<Longrightarrow> window xs = window ys \<Longrightarrow> xs = ys"
proof (induction xs ys rule: list_induct2)
  case Nil
  then show ?case by simp
next
  case (Cons x xs y ys)
  have eq: "bit (window (x # xs)) i = bit (window (y # ys)) i" for i
    using Cons.prems(2) by (simp only:)
  have "x = y"
  proof (rule bit_word_eqI)
    fix i assume "i < LENGTH(8)"
    then show "bit x i = bit y i" using eq [of i] by (simp add: bit_simps)
  qed
  moreover have "window xs = window ys"
  proof (rule bit_word_eqI)
    fix i assume "i < LENGTH(32)"
    show "bit (window xs) i = bit (window ys) i"
    proof (cases "i < 24")
      case True
      then show ?thesis using eq [of "i + 8"] by (auto simp: bit_simps dest: bit_imp_le_length)
    next
      case False
      then show ?thesis using Cons.prems Cons.hyps bit_window [of xs i] bit_window [of ys i] by auto
    qed
  qed
  ultimately show ?case using Cons by simp
qed

text \<open>Two messages that differ only inside a window of at most four bytes get different registers.\<close>

lemma crc32_run_burst:
  assumes "length u = length v" and "length u \<le> 4" and "u \<noteq> v"
  shows "crc32_run s (pre @ u @ post) \<noteq> crc32_run s (pre @ v @ post)"
proof
  assume "crc32_run s (pre @ u @ post) = crc32_run s (pre @ v @ post)"
  then have "crc32_run (crc32_run s pre) u = crc32_run (crc32_run s pre) v"
    by simp (rule crc32_run_inject)
  then have "window u = window v"
    using assms by (simp add: crc32_run_window) (metis crc32_bits_inject xor_left_cancel)
  then have "u = v" using assms by (intro window_inject) simp_all
  with assms show False by simp
qed

subsection \<open>Properties\<close>

text \<open>The register along the check message \<open>123456789\<close>, byte by byte.\<close>

lemma crc32_check_steps:
  "crc32_byte 0xFFFFFFFF 0x31 = 0x7C231048"
  "crc32_byte 0x7C231048 0x32 = 0xB0ACBB32"
  "crc32_byte 0xB0ACBB32 0x33 = 0x77B79C2D"
  "crc32_byte 0x77B79C2D 0x34 = 0x641C1F5C"
  "crc32_byte 0x641C1F5C 0x35 = 0x340AC5E3"
  "crc32_byte 0x340AC5E3 0x36 = 0xF68D2C9E"
  "crc32_byte 0xF68D2C9E 0x37 = 0xAFFC9660"
  "crc32_byte 0xAFFC9660 0x38 = 0x651F2550"
  "crc32_byte 0x651F2550 0x39 = 0x340BC6D9"
  by code_simp+

text \<open>
  C26. The byte-wise, mask-based CRC of \<open>src/common/crc32.c\<close> is the bit-serial reflected
  CRC-32 register of the standard, run over the message bits least significant first, with all
  ones at the start and complemented at the end; the standard's check message gives the
  standard's check value.
\<close>

theorem crc32_is_standard:
  "devmgr_crc32 (Some bs) = lfsr_run 0xFFFFFFFF bs XOR 0xFFFFFFFF \<and>
   devmgr_crc32 (Some [0x31, 0x32, 0x33, 0x34, 0x35, 0x36, 0x37, 0x38, 0x39]) = 0xCBF43926"
proof -
  have "crc32_run 0xFFFFFFFF [0x31, 0x32, 0x33, 0x34, 0x35, 0x36, 0x37, 0x38, 0x39] = 0x340BC6D9"
    by (simp add: crc32_check_steps)
  then show ?thesis
    by (simp add: devmgr_crc32_def devmgr_crc32_update_def devmgr_crc32_finish_def
        DEVMGR_CRC32_INIT_def DEVMGR_CRC32_XOR_OUT_def lfsr_run_eq)
qed

text \<open>
  Streaming: updating the state with the pieces of a message, sliced in any way, and
  finishing gives the checksum of the whole message.
\<close>

theorem crc32_streaming:
  "devmgr_crc32_finish (foldl (\<lambda>s d. devmgr_crc32_update s (Some d)) DEVMGR_CRC32_INIT ds) =
   devmgr_crc32 (Some (concat ds))"
proof -
  have "foldl (\<lambda>s d. devmgr_crc32_update s (Some d)) s ds = devmgr_crc32_update s (Some (concat ds))" for s
    by (induction ds arbitrary: s) (simp_all add: devmgr_crc32_update_def)
  then show ?thesis by (simp add: devmgr_crc32_def)
qed

end
