(* ===== verification/Frame.thy ===== *)
theory Frame
  imports Crc32
begin

section \<open>Wire frames (include/devmgr/protocol.h, src/protocol/frame.c)\<close>

text \<open>
  Little-endian integers and the framed wire format. A frame's \<open>fr_payload\<close> lists the bytes of
  its payload array that are in use; \<open>frame_wf\<close> says that \<open>fr_payload_length\<close> counts
  them and is within the protocol limit. Encoding returns the bytes written to the output
  buffer (their number is \<open>*encoded_length\<close>) or the error status; decoding
  returns the frame or the error status.
\<close>

abbreviation (input) DEVMGR_PROTOCOL_MAGIC :: u16 where "DEVMGR_PROTOCOL_MAGIC \<equiv> 0x4D44"
abbreviation (input) DEVMGR_PROTOCOL_VERSION :: u8 where "DEVMGR_PROTOCOL_VERSION \<equiv> 1"
abbreviation (input) DEVMGR_PROTOCOL_HEADER_SIZE :: nat where "DEVMGR_PROTOCOL_HEADER_SIZE \<equiv> 12"
abbreviation (input) DEVMGR_PROTOCOL_CRC_SIZE :: nat where "DEVMGR_PROTOCOL_CRC_SIZE \<equiv> 4"
abbreviation (input) DEVMGR_PROTOCOL_MAX_PAYLOAD :: nat where "DEVMGR_PROTOCOL_MAX_PAYLOAD \<equiv> 4096"
abbreviation (input) DEVMGR_PROTOCOL_MAX_FRAME :: nat where "DEVMGR_PROTOCOL_MAX_FRAME \<equiv> 4112"

abbreviation (input) DEVMGR_MSG_PING :: u8 where "DEVMGR_MSG_PING \<equiv> 0x01"
abbreviation (input) DEVMGR_MSG_GET_INFO :: u8 where "DEVMGR_MSG_GET_INFO \<equiv> 0x02"
abbreviation (input) DEVMGR_MSG_GET_HEALTH :: u8 where "DEVMGR_MSG_GET_HEALTH \<equiv> 0x03"
abbreviation (input) DEVMGR_MSG_GET_STATS :: u8 where "DEVMGR_MSG_GET_STATS \<equiv> 0x04"
abbreviation (input) DEVMGR_MSG_START_TELEMETRY :: u8 where "DEVMGR_MSG_START_TELEMETRY \<equiv> 0x05"
abbreviation (input) DEVMGR_MSG_STOP_TELEMETRY :: u8 where "DEVMGR_MSG_STOP_TELEMETRY \<equiv> 0x06"
abbreviation (input) DEVMGR_MSG_ENTER_BOOTLOADER :: u8 where "DEVMGR_MSG_ENTER_BOOTLOADER \<equiv> 0x10"
abbreviation (input) DEVMGR_MSG_FW_BEGIN :: u8 where "DEVMGR_MSG_FW_BEGIN \<equiv> 0x11"
abbreviation (input) DEVMGR_MSG_FW_DATA :: u8 where "DEVMGR_MSG_FW_DATA \<equiv> 0x12"
abbreviation (input) DEVMGR_MSG_FW_STATUS :: u8 where "DEVMGR_MSG_FW_STATUS \<equiv> 0x13"
abbreviation (input) DEVMGR_MSG_FW_END :: u8 where "DEVMGR_MSG_FW_END \<equiv> 0x14"
abbreviation (input) DEVMGR_MSG_FW_VERIFY :: u8 where "DEVMGR_MSG_FW_VERIFY \<equiv> 0x15"
abbreviation (input) DEVMGR_MSG_FW_ACTIVATE :: u8 where "DEVMGR_MSG_FW_ACTIVATE \<equiv> 0x16"
abbreviation (input) DEVMGR_MSG_REBOOT :: u8 where "DEVMGR_MSG_REBOOT \<equiv> 0x17"
abbreviation (input) DEVMGR_MSG_ACK :: u8 where "DEVMGR_MSG_ACK \<equiv> 0x80"
abbreviation (input) DEVMGR_MSG_NACK :: u8 where "DEVMGR_MSG_NACK \<equiv> 0x81"
abbreviation (input) DEVMGR_MSG_ERROR :: u8 where "DEVMGR_MSG_ERROR \<equiv> 0x82"
abbreviation (input) DEVMGR_MSG_TELEMETRY :: u8 where "DEVMGR_MSG_TELEMETRY \<equiv> 0x83"

abbreviation (input) DEVMGR_FRAME_RESPONSE :: u8 where "DEVMGR_FRAME_RESPONSE \<equiv> 1"
abbreviation (input) DEVMGR_FRAME_ACK_REQUIRED :: u8 where "DEVMGR_FRAME_ACK_REQUIRED \<equiv> 2"
abbreviation (input) DEVMGR_FRAME_RETRY :: u8 where "DEVMGR_FRAME_RETRY \<equiv> 4"

record devmgr_frame =
  fr_type :: u8
  fr_flags :: u8
  fr_sequence :: u32
  fr_payload_length :: u16
  fr_payload :: bytes

text \<open>The frame of \<open>memset (frame, 0, sizeof (*frame))\<close>.\<close>

definition zero_frame :: devmgr_frame where
  "zero_frame = \<lparr>fr_type = 0, fr_flags = 0, fr_sequence = 0, fr_payload_length = 0, fr_payload = []\<rparr>"

definition devmgr_put_le16 :: "u16 \<Rightarrow> bytes" where
  "devmgr_put_le16 v = [ucast (v AND 0x00FF), ucast (drop_bit 8 v)]"

definition devmgr_put_le32 :: "u32 \<Rightarrow> bytes" where
  "devmgr_put_le32 v =
    [ucast (v AND 0x000000FF), ucast (drop_bit 8 v AND 0x000000FF),
     ucast (drop_bit 16 v AND 0x000000FF), ucast (drop_bit 24 v)]"

definition devmgr_get_le16 :: "bytes \<Rightarrow> u16" where
  "devmgr_get_le16 p = ucast (p ! 0) OR push_bit 8 (ucast (p ! 1))"

definition devmgr_get_le32 :: "bytes \<Rightarrow> u32" where
  "devmgr_get_le32 p =
    ucast (p ! 0) OR push_bit 8 (ucast (p ! 1)) OR push_bit 16 (ucast (p ! 2)) OR
    push_bit 24 (ucast (p ! 3))"

text \<open>Header and payload, the bytes the checksum covers.\<close>

definition frame_body :: "devmgr_frame \<Rightarrow> bytes" where
  "frame_body frame =
    devmgr_put_le16 DEVMGR_PROTOCOL_MAGIC @
    [DEVMGR_PROTOCOL_VERSION, fr_type frame, fr_flags frame, 0] @
    devmgr_put_le32 (fr_sequence frame) @
    devmgr_put_le16 (fr_payload_length frame) @
    take (unat (fr_payload_length frame)) (fr_payload frame)"

definition devmgr_frame_encode :: "devmgr_frame \<Rightarrow> nat \<Rightarrow> devmgr_status + bytes" where
  "devmgr_frame_encode frame capacity =
    (if unat (fr_payload_length frame) > DEVMGR_PROTOCOL_MAX_PAYLOAD then Inl DEVMGR_ERROR_INVALID
     else
       let frame_length = DEVMGR_PROTOCOL_HEADER_SIZE + unat (fr_payload_length frame) +
                          DEVMGR_PROTOCOL_CRC_SIZE
       in if capacity < frame_length then Inl DEVMGR_ERROR_OVERFLOW
          else Inr (frame_body frame @ devmgr_put_le32 (devmgr_crc32 (Some (frame_body frame)))))"

definition devmgr_frame_decode :: "bytes \<Rightarrow> devmgr_status + devmgr_frame" where
  "devmgr_frame_decode data =
    (if length data < DEVMGR_PROTOCOL_HEADER_SIZE + DEVMGR_PROTOCOL_CRC_SIZE
     then Inl DEVMGR_ERROR_INVALID
     else if devmgr_get_le16 data \<noteq> DEVMGR_PROTOCOL_MAGIC \<or> data ! 2 \<noteq> DEVMGR_PROTOCOL_VERSION \<or>
             data ! 5 \<noteq> 0
     then Inl DEVMGR_ERROR_PROTOCOL
     else
       let payload_length = devmgr_get_le16 (drop 10 data)
       in if unat payload_length > DEVMGR_PROTOCOL_MAX_PAYLOAD then Inl DEVMGR_ERROR_LIMIT
          else
            let expected_length = DEVMGR_PROTOCOL_HEADER_SIZE + unat payload_length +
                                  DEVMGR_PROTOCOL_CRC_SIZE
            in if length data \<noteq> expected_length then Inl DEVMGR_ERROR_INVALID
               else
                 let expected_crc =
                       devmgr_get_le32 (drop (DEVMGR_PROTOCOL_HEADER_SIZE + unat payload_length) data);
                     actual_crc =
                       devmgr_crc32 (Some (take (DEVMGR_PROTOCOL_HEADER_SIZE + unat payload_length) data))
                 in if actual_crc \<noteq> expected_crc then Inl DEVMGR_ERROR_CRC
                    else Inr \<lparr>fr_type = data ! 3, fr_flags = data ! 4,
                              fr_sequence = devmgr_get_le32 (drop 6 data),
                              fr_payload_length = payload_length,
                              fr_payload = region data DEVMGR_PROTOCOL_HEADER_SIZE (unat payload_length)\<rparr>)"

text \<open>The tests of the argument pointers against \<open>NULL\<close> that precede both.\<close>

definition devmgr_frame_encode_ptr ::
  "devmgr_frame ptr \<Rightarrow> bool \<Rightarrow> bool \<Rightarrow> nat \<Rightarrow> devmgr_status + bytes" where
  "devmgr_frame_encode_ptr frame output_null encoded_length_null capacity =
    (case frame of
       None \<Rightarrow> Inl DEVMGR_ERROR_INVALID
     | Some f \<Rightarrow> if output_null \<or> encoded_length_null then Inl DEVMGR_ERROR_INVALID
                 else devmgr_frame_encode f capacity)"

definition devmgr_frame_decode_ptr :: "bytes ptr \<Rightarrow> bool \<Rightarrow> devmgr_status + devmgr_frame" where
  "devmgr_frame_decode_ptr data frame_null =
    (case data of
       None \<Rightarrow> Inl DEVMGR_ERROR_INVALID
     | Some d \<Rightarrow> if frame_null then Inl DEVMGR_ERROR_INVALID else devmgr_frame_decode d)"

definition frame_wf :: "devmgr_frame \<Rightarrow> bool" where
  "frame_wf f \<longleftrightarrow> unat (fr_payload_length f) \<le> DEVMGR_PROTOCOL_MAX_PAYLOAD \<and>
     length (fr_payload f) = unat (fr_payload_length f)"

subsection \<open>Little-endian integers\<close>

lemma length_put_le [simp]: "length (devmgr_put_le16 v) = 2" "length (devmgr_put_le32 w) = 4"
  by (simp_all add: devmgr_put_le16_def devmgr_put_le32_def)

lemma and_255: "v AND 255 = take_bit 8 v" for v :: "'a::len word"
  by (simp add: take_bit_eq_mask mask_eq_exp_minus_1)

lemma get_put_le16 [simp]: "devmgr_get_le16 (devmgr_put_le16 v @ rest) = v"
proof (rule bit_word_eqI)
  fix n assume "n < LENGTH(16)"
  then show "bit (devmgr_get_le16 (devmgr_put_le16 v @ rest)) n = bit v n"
    by (cases "n < 8") (auto simp: devmgr_get_le16_def devmgr_put_le16_def and_255 bit_simps)
qed

lemma get_put_le32 [simp]: "devmgr_get_le32 (devmgr_put_le32 v @ rest) = v"
proof (rule bit_word_eqI)
  fix n assume "n < LENGTH(32)"
  then have n: "n < 32" by simp
  consider "n < 8" | "8 \<le> n" "n < 16" | "16 \<le> n" "n < 24" | "24 \<le> n" by linarith
  then show "bit (devmgr_get_le32 (devmgr_put_le32 v @ rest)) n = bit v n"
    using n by cases
      (auto simp: devmgr_get_le32_def devmgr_put_le32_def and_255 bit_simps nth_Cons_numeral)
qed

lemma get_put_le16' [simp]: "devmgr_get_le16 (devmgr_put_le16 v) = v"
  using get_put_le16 [of v "[]"] by simp

lemma get_put_le32' [simp]: "devmgr_get_le32 (devmgr_put_le32 v) = v"
  using get_put_le32 [of v "[]"] by simp

lemma put_get_le16 [simp]:
  assumes "length xs = 2"
  shows "devmgr_put_le16 (devmgr_get_le16 xs) = xs"
proof -
  obtain a b where xs: "xs = [a, b]" using assms by (auto simp: numeral_2_eq_2 length_Suc_conv)
  have "ucast (devmgr_get_le16 xs AND 255) = a"
    by (rule bit_word_eqI) (auto simp: xs devmgr_get_le16_def and_255 bit_simps)
  moreover have "ucast (drop_bit 8 (devmgr_get_le16 xs)) = b"
    by (rule bit_word_eqI) (auto simp: xs devmgr_get_le16_def bit_simps dest: bit_imp_le_length)
  ultimately show ?thesis by (simp add: xs devmgr_put_le16_def)
qed

lemma put_get_le32 [simp]:
  assumes "length xs = 4"
  shows "devmgr_put_le32 (devmgr_get_le32 xs) = xs"
proof -
  obtain a b c d where xs: "xs = [a, b, c, d]"
    using assms by (auto simp: numeral_eq_Suc length_Suc_conv)
  note defs = xs devmgr_get_le32_def and_255 bit_simps nth_Cons_numeral
  have "ucast (devmgr_get_le32 xs AND 255) = a"
    by (rule bit_word_eqI) (auto simp: defs)
  moreover have "ucast (drop_bit 8 (devmgr_get_le32 xs) AND 255) = b"
    by (rule bit_word_eqI) (auto simp: defs dest: bit_imp_le_length)
  moreover have "ucast (drop_bit 16 (devmgr_get_le32 xs) AND 255) = c"
    by (rule bit_word_eqI) (auto simp: defs dest: bit_imp_le_length)
  moreover have "ucast (drop_bit 24 (devmgr_get_le32 xs)) = d"
    by (rule bit_word_eqI) (auto simp: defs dest: bit_imp_le_length)
  ultimately show ?thesis by (simp add: xs devmgr_put_le32_def)
qed

lemma put_le16_inject: "devmgr_put_le16 a = devmgr_put_le16 b \<Longrightarrow> a = b"
  by (metis get_put_le16')

lemma put_le32_inject: "devmgr_put_le32 a = devmgr_put_le32 b \<Longrightarrow> a = b"
  by (metis get_put_le32')

subsection \<open>Field offsets of an encoded frame\<close>

lemma put_le16_magic: "devmgr_put_le16 DEVMGR_PROTOCOL_MAGIC = [0x44, 0x4D]"
  by (simp add: devmgr_put_le16_def)

lemma frame_body_Cons:
  "frame_body f =
    0x44 # 0x4D # 1 # fr_type f # fr_flags f # 0 # devmgr_put_le32 (fr_sequence f) @
    devmgr_put_le16 (fr_payload_length f) @ take (unat (fr_payload_length f)) (fr_payload f)"
  by (simp add: frame_body_def put_le16_magic)

lemma length_frame_body [simp]:
  "frame_wf f \<Longrightarrow> length (frame_body f) = 12 + unat (fr_payload_length f)"
  by (simp add: frame_body_Cons frame_wf_def)

lemma frame_body_fields:
  "(frame_body f @ x) ! 2 = 1" "(frame_body f @ x) ! 3 = fr_type f"
  "(frame_body f @ x) ! 4 = fr_flags f" "(frame_body f @ x) ! 5 = 0"
  "devmgr_get_le16 (frame_body f @ x) = DEVMGR_PROTOCOL_MAGIC"
  "devmgr_get_le32 (drop 6 (frame_body f @ x)) = fr_sequence f"
  "devmgr_get_le16 (drop 10 (frame_body f @ x)) = fr_payload_length f"
proof -
  show "(frame_body f @ x) ! 2 = 1" "(frame_body f @ x) ! 3 = fr_type f"
    "(frame_body f @ x) ! 4 = fr_flags f" "(frame_body f @ x) ! 5 = 0"
    by (simp_all add: frame_body_Cons)
  show "devmgr_get_le16 (frame_body f @ x) = DEVMGR_PROTOCOL_MAGIC"
    unfolding frame_body_def by (simp only: append_assoc get_put_le16)
  have "drop 6 (frame_body f @ x) = devmgr_put_le32 (fr_sequence f) @
      devmgr_put_le16 (fr_payload_length f) @ take (unat (fr_payload_length f)) (fr_payload f) @ x"
    by (simp add: frame_body_Cons)
  then show "devmgr_get_le32 (drop 6 (frame_body f @ x)) = fr_sequence f" by simp
  have "drop 10 (frame_body f @ x) =
      devmgr_put_le16 (fr_payload_length f) @ take (unat (fr_payload_length f)) (fr_payload f) @ x"
    by (simp add: frame_body_Cons drop_append)
  then show "devmgr_get_le16 (drop 10 (frame_body f @ x)) = fr_payload_length f" by simp
qed

lemma frame_body_payload:
  "frame_wf f \<Longrightarrow> region (frame_body f @ x) 12 (unat (fr_payload_length f)) = fr_payload f"
  by (simp add: region_def frame_body_Cons drop_append frame_wf_def)

definition frame_wire :: "devmgr_frame \<Rightarrow> bytes" where
  "frame_wire f = frame_body f @ devmgr_put_le32 (devmgr_crc32 (Some (frame_body f)))"

lemma length_frame_wire [simp]:
  "frame_wf f \<Longrightarrow> length (frame_wire f) = 16 + unat (fr_payload_length f)"
  by (simp add: frame_wire_def)

lemma frame_encode_wire:
  "frame_wf f \<Longrightarrow> 16 + unat (fr_payload_length f) \<le> capacity \<Longrightarrow>
   devmgr_frame_encode f capacity = Inr (frame_wire f)"
  by (simp add: devmgr_frame_encode_def frame_wire_def frame_wf_def Let_def)

lemma frame_encode_max:
  "frame_wf f \<Longrightarrow> devmgr_frame_encode f DEVMGR_PROTOCOL_MAX_FRAME = Inr (frame_wire f)"
  by (rule frame_encode_wire) (auto simp: frame_wf_def)

subsection \<open>Round trips\<close>

lemma frame_decode_wire:
  assumes "frame_wf f"
  shows "devmgr_frame_decode (frame_wire f) = Inr f"
proof -
  let ?n = "unat (fr_payload_length f)"
  let ?crc = "devmgr_put_le32 (devmgr_crc32 (Some (frame_body f)))"
  have len: "length (frame_wire f) = 16 + ?n" and le: "?n \<le> 4096"
    using assms by (simp_all add: frame_wf_def)
  have crc: "devmgr_get_le32 (drop (12 + ?n) (frame_wire f)) = devmgr_crc32 (Some (frame_body f))"
    using assms by (simp add: frame_wire_def)
  have body: "take (12 + ?n) (frame_wire f) = frame_body f"
    using assms by (simp add: frame_wire_def)
  have pay: "region (frame_wire f) 12 ?n = fr_payload f"
    using assms unfolding frame_wire_def by (rule frame_body_payload)
  note fields = frame_body_fields [where f = f and x = ?crc, folded frame_wire_def]
  show ?thesis
    using le by (simp add: devmgr_frame_decode_def Let_def len fields crc body pay not_less)
qed

lemma frame_decode_Inr:
  assumes "devmgr_frame_decode data = Inr f" and n: "unat (devmgr_get_le16 (drop 10 data)) = n"
  shows "devmgr_get_le16 data = DEVMGR_PROTOCOL_MAGIC" and "data ! 2 = 1" and "data ! 5 = 0"
    and "n \<le> 4096" and "length data = 16 + n"
    and "devmgr_crc32 (Some (take (12 + n) data)) = devmgr_get_le32 (drop (12 + n) data)"
    and "f = \<lparr>fr_type = data ! 3, fr_flags = data ! 4, fr_sequence = devmgr_get_le32 (drop 6 data),
             fr_payload_length = devmgr_get_le16 (drop 10 data), fr_payload = region data 12 n\<rparr>"
  using assms(1) unfolding devmgr_frame_decode_def Let_def n
  by (auto split: if_splits)

lemma take12_split:
  assumes "12 \<le> length data"
  shows "take 12 data = take 2 data @ [data ! 2, data ! 3, data ! 4, data ! 5] @
    take 4 (drop 6 data) @ take 2 (drop 10 data)"
proof -
  have "take (2 + (4 + (4 + 2))) data =
      take 2 data @ take 4 (drop 2 data) @ take 4 (drop (4 + 2) data) @ take 2 (drop (4 + (4 + 2)) data)"
    by (simp only: take_add drop_drop)
  moreover have "take 4 (drop 2 data) = [data ! 2, data ! 3, data ! 4, data ! 5]"
    using assms by (auto simp: numeral_eq_Suc Suc_le_length_iff)
  ultimately show ?thesis by simp
qed

lemma put_get_le_take:
  "2 \<le> length xs \<Longrightarrow> devmgr_put_le16 (devmgr_get_le16 xs) = take 2 xs"
  "4 \<le> length xs \<Longrightarrow> devmgr_put_le32 (devmgr_get_le32 xs) = take 4 xs"
  using put_get_le16 [of "take 2 xs"] put_get_le32 [of "take 4 xs"]
  by (simp_all add: devmgr_get_le16_def devmgr_get_le32_def)

lemma frame_wire_decode:
  assumes "devmgr_frame_decode data = Inr f"
  shows "frame_wf f" and "frame_wire f = data"
proof -
  obtain n where n_def: "unat (devmgr_get_le16 (drop 10 data)) = n" by blast
  have magic: "devmgr_get_le16 data = DEVMGR_PROTOCOL_MAGIC"
    and fixed: "data ! 2 = 1" "data ! 5 = 0" and n: "n \<le> 4096" and len: "length data = 16 + n"
    and crc: "devmgr_crc32 (Some (take (12 + n) data)) = devmgr_get_le32 (drop (12 + n) data)"
    and f: "f = \<lparr>fr_type = data ! 3, fr_flags = data ! 4, fr_sequence = devmgr_get_le32 (drop 6 data),
             fr_payload_length = devmgr_get_le16 (drop 10 data), fr_payload = region data 12 n\<rparr>"
    using frame_decode_Inr [OF assms n_def] by blast+
  show "frame_wf f" using n len by (simp add: f frame_wf_def n_def)
  have "devmgr_put_le16 DEVMGR_PROTOCOL_MAGIC = take 2 data"
    using len put_get_le_take(1) [of data] magic by simp
  then have "frame_body f = take 12 data @ region data 12 n"
    using len fixed
    by (subst take12_split)
       (simp_all add: frame_body_def f put_get_le_take n_def region_def)
  then have body: "frame_body f = take (12 + n) data" by (simp add: take_add_region)
  have "devmgr_put_le32 (devmgr_crc32 (Some (take (12 + n) data))) = drop (12 + n) data"
    using len put_get_le_take(2) [of "drop (12 + n) data"] unfolding crc by simp
  then show "frame_wire f = data" by (simp add: frame_wire_def body)
qed

interpretation frame: byte_codec frame_wf frame_wire devmgr_frame_decode
  by unfold_locales (auto intro: frame_decode_wire frame_wire_decode)

subsection \<open>What a frame's checksum detects\<close>

lemma window_put_le32: "window (devmgr_put_le32 v) = v"
proof (rule bit_word_eqI)
  fix n assume "n < LENGTH(32)"
  then have n: "n < 32" by simp
  consider "n < 8" | "8 \<le> n" "n < 16" | "16 \<le> n" "n < 24" | "24 \<le> n" by linarith
  then show "bit (window (devmgr_put_le32 v)) n = bit v n"
    using n by cases (auto simp: devmgr_put_le32_def and_255 bit_simps)
qed

text \<open>
  The register over a whole valid frame, checksum included, always ends in the same value.
\<close>

lemma frame_residue:
  assumes "frame_wf f"
  shows "crc32_run DEVMGR_CRC32_INIT (frame_wire f) = crc32_bits 32 0xFFFFFFFF"
proof -
  let ?s = "crc32_run DEVMGR_CRC32_INIT (frame_body f)"
  have "crc32_run ?s (devmgr_put_le32 (?s XOR 0xFFFFFFFF)) = crc32_bits 32 (?s XOR (?s XOR 0xFFFFFFFF))"
    by (subst crc32_run_window) (simp_all add: window_put_le32)
  then show ?thesis
    by (simp add: frame_wire_def devmgr_crc32_def devmgr_crc32_update_def devmgr_crc32_finish_def
        DEVMGR_CRC32_XOR_OUT_def flip: xor.assoc)
qed

lemma frame_burst_rejected:
  assumes "devmgr_frame_decode (pre @ u @ post) = Inr f"
    and "length v = length u" and "length u \<le> 4" and "v \<noteq> u"
  shows "\<exists>e. devmgr_frame_decode (pre @ v @ post) = Inl e"
proof (cases "devmgr_frame_decode (pre @ v @ post)")
  case (Inl e)
  then show ?thesis by blast
next
  case (Inr g)
  have "crc32_run DEVMGR_CRC32_INIT (pre @ u @ post) = crc32_run DEVMGR_CRC32_INIT (pre @ v @ post)"
    using frame_residue frame.dec_iff assms(1) Inr by metis
  then show ?thesis using crc32_run_burst [of u v] assms(2-4) by metis
qed

text \<open>
  Every check before the checksum looks at the length and the first twelve bytes only, so
  damage behind the header of a valid frame is reported as a checksum error.
\<close>

lemma frame_decode_same_header:
  assumes ok: "devmgr_frame_decode w = Inr f" and len: "length w' = length w"
    and hdr: "take 12 w' = take 12 w"
  shows "devmgr_frame_decode w' = Inl DEVMGR_ERROR_CRC \<or> (\<exists>g. devmgr_frame_decode w' = Inr g)"
proof -
  obtain n where n: "unat (devmgr_get_le16 (drop 10 w)) = n" by blast
  note d = frame_decode_Inr [OF ok n]
  have nth: "w' ! i = w ! i" if "i < 12" for i
    using hdr that by (metis nth_take)
  have l16: "16 \<le> length w" using d(5) by simp
  then have "devmgr_get_le16 w' = devmgr_get_le16 w"
    and "devmgr_get_le16 (drop 10 w') = devmgr_get_le16 (drop 10 w)"
    using nth len by (simp_all add: devmgr_get_le16_def)
  then show ?thesis
    using d(1-5) nth [of 2] nth [of 5] len n
    by (auto simp: devmgr_frame_decode_def Let_def not_less)
qed

subsection \<open>Properties\<close>

text \<open>
  Frame round trip: encoding a well-formed frame into a buffer that can hold it succeeds,
  and decoding the bytes gives the frame back.
\<close>

theorem frame_encode_decode:
  assumes "frame_wf f" and "16 + unat (fr_payload_length f) \<le> capacity"
  shows "\<exists>w. devmgr_frame_encode f capacity = Inr w \<and> length w \<le> capacity \<and>
    devmgr_frame_decode w = Inr f"
  using assms frame_encode_wire [OF assms] frame_decode_wire [OF assms(1)] by simp

theorem frame_encode_decode_witness:
  "\<exists>w. devmgr_frame_encode \<lparr>fr_type = 2, fr_flags = 1, fr_sequence = 7, fr_payload_length = 2,
      fr_payload = [1, 2]\<rparr> 18 = Inr w \<and> length w \<le> 18 \<and>
    devmgr_frame_decode w = Inr \<lparr>fr_type = 2, fr_flags = 1, fr_sequence = 7, fr_payload_length = 2,
      fr_payload = [1, 2]\<rparr>"
  by (rule frame_encode_decode) (simp_all add: frame_wf_def)

text \<open>
  C32. The decoder is strict: whatever bytes it accepts are the one encoding of the frame it
  returns, which is well formed; no two byte strings decode to the same frame.
\<close>

theorem frame_decode_canonical:
  assumes "devmgr_frame_decode w = Inr f"
  shows "frame_wf f \<and> devmgr_frame_encode f (length w) = Inr w"
proof -
  have "frame_wf f" "frame_wire f = w" using frame_wire_decode [OF assms] by simp_all
  then show ?thesis using frame_encode_wire [of f "length w"] length_frame_wire [of f] by simp
qed

theorem frame_decode_canonical_witness:
  "devmgr_frame_encode zero_frame 16 = Inr (frame_wire zero_frame)"
proof -
  have "frame_wf zero_frame" "length (frame_wire zero_frame) = 16"
    using length_frame_wire [of zero_frame] by (simp_all add: frame_wf_def zero_frame_def)
  then show ?thesis
    using frame_decode_canonical [of "frame_wire zero_frame" zero_frame] frame_decode_wire by simp
qed

text \<open>
  C12. Error detection: if up to four consecutive bytes of a valid encoded frame are replaced,
  wherever they lie and whatever they become, the decoder rejects the result; behind the
  header it reports the damage as a checksum error.
\<close>

theorem frame_burst_detected:
  assumes "devmgr_frame_decode (pre @ u @ post) = Inr f"
    and "length v = length u" and "length u \<le> 4" and "v \<noteq> u"
  shows "(\<exists>e. devmgr_frame_decode (pre @ v @ post) = Inl e) \<and>
    (12 \<le> length pre \<longrightarrow> devmgr_frame_decode (pre @ v @ post) = Inl DEVMGR_ERROR_CRC)"
  using frame_burst_rejected [OF assms] frame_decode_same_header [OF assms(1), of "pre @ v @ post"]
    assms(2) by auto

theorem frame_burst_detected_witness:
  "devmgr_frame_decode (frame_body zero_frame @
     devmgr_put_le32 (devmgr_crc32 (Some (frame_body zero_frame)) + 1)) = Inl DEVMGR_ERROR_CRC"
proof -
  let ?c = "devmgr_crc32 (Some (frame_body zero_frame))"
  have wf: "frame_wf zero_frame" by (simp add: frame_wf_def zero_frame_def)
  have "devmgr_frame_decode (frame_body zero_frame @ devmgr_put_le32 ?c @ []) = Inr zero_frame"
    using frame_decode_wire [OF wf] by (simp add: frame_wire_def)
  moreover have "devmgr_put_le32 (?c + 1) \<noteq> devmgr_put_le32 ?c"
    using put_le32_inject [of "?c + 1" ?c] by auto
  moreover have "12 \<le> length (frame_body zero_frame)" using wf by simp
  ultimately show ?thesis
    using frame_burst_detected [of "frame_body zero_frame" "devmgr_put_le32 ?c" "[]" zero_frame
        "devmgr_put_le32 (?c + 1)"] by simp
qed

end
