(* ===== verification/Ring_Buffer.thy ===== *)
theory Ring_Buffer
  imports Status
begin

section \<open>Ring buffer (include/devmgr/ring_buffer.h, src/common/ring_buffer.c)\<close>

text \<open>
  The byte queue under the stream parser: a caller-provided array, a read position and a
  fill count. \<open>ring_contents\<close> is the queue it stands for, \<open>ring_inv\<close> its
  representation invariant, and the locale \<open>byte_fifo\<close> the contract through which the
  parser uses it. A \<open>(pointer, length)\<close> pair is one argument, \<open>None\<close> for a
  \<open>NULL\<close> pointer; the functions ending in \<open>_ptr\<close> add the tests of the object
  pointer against \<open>NULL\<close>.
\<close>

record devmgr_ring_buffer =
  rb_storage :: bytes
  rb_capacity :: nat
  rb_read_pos :: nat
  rb_size :: nat

definition minimum :: "nat \<Rightarrow> nat \<Rightarrow> nat" where
  "minimum left right = (if left < right then left else right)"

definition devmgr_ring_init ::
  "devmgr_ring_buffer ptr \<Rightarrow> bytes ptr \<Rightarrow> nat \<Rightarrow> devmgr_status \<times> devmgr_ring_buffer ptr" where
  "devmgr_ring_init ring storage capacity =
    (case (ring, storage) of
       (Some r, Some st) \<Rightarrow>
         if capacity = 0 then (DEVMGR_ERROR_INVALID, Some r)
         else (DEVMGR_OK, Some (r\<lparr>rb_storage := st, rb_capacity := capacity,
                                  rb_read_pos := 0, rb_size := 0\<rparr>))
     | _ \<Rightarrow> (DEVMGR_ERROR_INVALID, ring))"

definition devmgr_ring_reset :: "devmgr_ring_buffer \<Rightarrow> devmgr_ring_buffer" where
  "devmgr_ring_reset ring = ring\<lparr>rb_read_pos := 0, rb_size := 0\<rparr>"

definition devmgr_ring_size :: "devmgr_ring_buffer \<Rightarrow> nat" where
  "devmgr_ring_size ring = rb_size ring"

definition devmgr_ring_space :: "devmgr_ring_buffer \<Rightarrow> nat" where
  "devmgr_ring_space ring = rb_capacity ring - rb_size ring"

definition devmgr_ring_empty :: "devmgr_ring_buffer \<Rightarrow> bool" where
  "devmgr_ring_empty ring \<longleftrightarrow> devmgr_ring_size ring = 0"

definition devmgr_ring_full :: "devmgr_ring_buffer \<Rightarrow> bool" where
  "devmgr_ring_full ring \<longleftrightarrow> rb_size ring = rb_capacity ring"

definition devmgr_ring_write ::
  "devmgr_ring_buffer \<Rightarrow> bytes ptr \<Rightarrow> nat \<times> devmgr_ring_buffer" where
  "devmgr_ring_write ring data =
    (case data of
       None \<Rightarrow> (0, ring)
     | Some d \<Rightarrow>
         if length d = 0 then (0, ring)
         else
           let count = minimum (length d) (devmgr_ring_space ring);
               write_pos = (rb_read_pos ring + rb_size ring) mod rb_capacity ring;
               first = minimum count (rb_capacity ring - write_pos);
               storage1 = memcpy_at (rb_storage ring) write_pos (region d 0 first);
               storage2 = memcpy_at storage1 0 (region d first (count - first))
           in (count, ring\<lparr>rb_storage := storage2, rb_size := rb_size ring + count\<rparr>))"

text \<open>The bytes copied out; the count the C function returns is their number.\<close>

definition devmgr_ring_peek :: "devmgr_ring_buffer \<Rightarrow> nat \<Rightarrow> nat \<Rightarrow> bytes" where
  "devmgr_ring_peek ring offset n =
    (if offset \<ge> rb_size ring \<or> n = 0 then []
     else
       let count = minimum n (rb_size ring - offset);
           position = (rb_read_pos ring + offset) mod rb_capacity ring;
           first = minimum count (rb_capacity ring - position)
       in region (rb_storage ring) position first @ region (rb_storage ring) 0 (count - first))"

definition devmgr_ring_discard :: "devmgr_ring_buffer \<Rightarrow> nat \<Rightarrow> nat \<times> devmgr_ring_buffer" where
  "devmgr_ring_discard ring n =
    (if n = 0 then (0, ring)
     else
       let count = minimum n (rb_size ring);
           pos = (rb_read_pos ring + count) mod rb_capacity ring;
           left = rb_size ring - count
       in (count, ring\<lparr>rb_read_pos := (if left = 0 then 0 else pos), rb_size := left\<rparr>))"

definition devmgr_ring_read :: "devmgr_ring_buffer \<Rightarrow> nat \<Rightarrow> bytes \<times> devmgr_ring_buffer" where
  "devmgr_ring_read ring n =
    (let data = devmgr_ring_peek ring 0 n
     in (data, snd (devmgr_ring_discard ring (length data))))"

text \<open>The same operations through a pointer that may be \<open>NULL\<close>.\<close>

definition devmgr_ring_reset_ptr :: "devmgr_ring_buffer ptr \<Rightarrow> devmgr_ring_buffer ptr" where
  "devmgr_ring_reset_ptr ring = map_option devmgr_ring_reset ring"

definition devmgr_ring_size_ptr :: "devmgr_ring_buffer ptr \<Rightarrow> nat" where
  "devmgr_ring_size_ptr ring = (case ring of None \<Rightarrow> 0 | Some r \<Rightarrow> devmgr_ring_size r)"

definition devmgr_ring_space_ptr :: "devmgr_ring_buffer ptr \<Rightarrow> nat" where
  "devmgr_ring_space_ptr ring = (case ring of None \<Rightarrow> 0 | Some r \<Rightarrow> devmgr_ring_space r)"

definition devmgr_ring_write_ptr ::
  "devmgr_ring_buffer ptr \<Rightarrow> bytes ptr \<Rightarrow> nat \<times> devmgr_ring_buffer ptr" where
  "devmgr_ring_write_ptr ring data = call_ptr 0 (\<lambda>r. devmgr_ring_write r data) ring"

definition devmgr_ring_discard_ptr ::
  "devmgr_ring_buffer ptr \<Rightarrow> nat \<Rightarrow> nat \<times> devmgr_ring_buffer ptr" where
  "devmgr_ring_discard_ptr ring n = call_ptr 0 (\<lambda>r. devmgr_ring_discard r n) ring"

definition devmgr_ring_peek_ptr :: "devmgr_ring_buffer ptr \<Rightarrow> nat \<Rightarrow> bool \<Rightarrow> nat \<Rightarrow> bytes" where
  "devmgr_ring_peek_ptr ring offset data_null n =
    (case ring of None \<Rightarrow> [] | Some r \<Rightarrow> if data_null then [] else devmgr_ring_peek r offset n)"

subsection \<open>Invariant and abstraction\<close>

definition ring_inv :: "devmgr_ring_buffer \<Rightarrow> bool" where
  "ring_inv r \<longleftrightarrow> 0 < rb_capacity r \<and> length (rb_storage r) = rb_capacity r \<and>
     rb_read_pos r < rb_capacity r \<and> rb_size r \<le> rb_capacity r"

definition ring_contents :: "devmgr_ring_buffer \<Rightarrow> bytes" where
  "ring_contents r =
    map (\<lambda>i. rb_storage r ! ((rb_read_pos r + i) mod rb_capacity r)) [0..<rb_size r]"

lemma length_ring_contents [simp]: "length (ring_contents r) = rb_size r"
  by (simp add: ring_contents_def)

lemma nth_ring_contents:
  "i < rb_size r \<Longrightarrow>
   ring_contents r ! i = rb_storage r ! ((rb_read_pos r + i) mod rb_capacity r)"
  by (simp add: ring_contents_def)

lemma mod_wrap: "a < c \<Longrightarrow> i \<le> c \<Longrightarrow> (a + i) mod c = (if a + i < c then a + i else a + i - c)"
  for a c i :: nat
  by (auto simp: not_less le_mod_geq)

lemma minimum_min [simp]: "minimum a b = min a b"
  by (simp add: minimum_def min_def)

subsection \<open>Circular arrays\<close>

text \<open>Reading or writing in two pieces, up to the end of the array and from its start.\<close>

lemma circular_read:
  assumes "p < length st" and "c \<le> length st"
  shows "region st p (min c (length st - p)) @ region st 0 (c - min c (length st - p)) =
    map (\<lambda>i. st ! ((p + i) mod length st)) [0..<c]"
proof (rule nth_equalityI)
  show "length (region st p (min c (length st - p)) @ region st 0 (c - min c (length st - p))) =
      length (map (\<lambda>i. st ! ((p + i) mod length st)) [0..<c])"
    using assms by (auto simp: min_def)
next
  fix i
  assume "i < length (region st p (min c (length st - p)) @ region st 0 (c - min c (length st - p)))"
  then have i: "i < c" using assms by (auto simp: min_def split: if_splits)
  show "(region st p (min c (length st - p)) @ region st 0 (c - min c (length st - p))) ! i =
      map (\<lambda>i. st ! ((p + i) mod length st)) [0..<c] ! i"
  proof (cases "p + i < length st")
    case True
    then have "i < length st - p" by simp
    then show ?thesis using assms i True by (simp add: nth_append region_def)
  next
    case False
    then have "(p + i) mod length st = i - (length st - p)" and "\<not> i < length st - p"
      using assms i by (simp_all add: mod_wrap)
    then show ?thesis using assms i False by (simp add: nth_append region_def)
  qed
qed

lemma circular_write:
  assumes "p < length st" and "length d \<le> length st" and "i < length st"
  defines "f \<equiv> min (length d) (length st - p)"
  shows "memcpy_at (memcpy_at st p (take f d)) 0 (drop f d) ! ((p + i) mod length st) =
    (if i < length d then d ! i else st ! ((p + i) mod length st))"
proof -
  have pf: "p + f \<le> length st" and f: "f \<le> length d" and df: "length d - f \<le> p"
    using assms by (auto simp: f_def min_def)
  have nth: "memcpy_at (memcpy_at st p (take f d)) 0 (drop f d) ! j =
      (if j < length d - f then d ! (f + j)
       else if p \<le> j \<and> j < p + f then d ! (j - p) else st ! j)" if "j < length st" for j
    using that pf f df assms(1) by (subst nth_memcpy_at; auto simp: nth_memcpy_at)
  show ?thesis
  proof (cases "p + i < length st")
    case True
    then show ?thesis using assms(1,2) df by (subst nth) (auto simp: f_def)
  next
    case False
    then have m: "(p + i) mod length st = i - (length st - p)" using assms(1,3) by (simp add: mod_wrap)
    show ?thesis using assms(1,2,3) False unfolding m by (subst nth) (auto simp: f_def min_def)
  qed
qed

lemma length_circular_write:
  assumes "p < length st" and "length d \<le> length st"
  shows "length (memcpy_at (memcpy_at st p (take (min (length d) (length st - p)) d)) 0
    (drop (min (length d) (length st - p)) d)) = length st"
proof -
  have "p + min (length d) (length st - p) \<le> length st" using assms by auto
  then have "length (memcpy_at st p (take (min (length d) (length st - p)) d)) = length st"
    by (subst length_memcpy_at) auto
  then show ?thesis using assms by (subst length_memcpy_at) auto
qed

subsection \<open>The operations on the queue\<close>

lemma ring_discard_inv: "ring_inv r \<Longrightarrow> ring_inv (snd (devmgr_ring_discard r n))"
  by (auto simp: devmgr_ring_discard_def ring_inv_def Let_def)

lemma ring_discard_count: "fst (devmgr_ring_discard r n) = min n (rb_size r)"
  by (simp add: devmgr_ring_discard_def Let_def)

lemma ring_discard_size [simp]: "rb_size (snd (devmgr_ring_discard r n)) = rb_size r - n"
  by (auto simp: devmgr_ring_discard_def Let_def)

lemma ring_discard_capacity [simp]: "rb_capacity (snd (devmgr_ring_discard r n)) = rb_capacity r"
  by (auto simp: devmgr_ring_discard_def Let_def)

lemma ring_discard_contents:
  assumes "ring_inv r"
  shows "ring_contents (snd (devmgr_ring_discard r n)) = drop n (ring_contents r)"
proof (rule nth_equalityI)
  show "length (ring_contents (snd (devmgr_ring_discard r n))) = length (drop n (ring_contents r))"
    by simp
next
  fix i assume "i < length (ring_contents (snd (devmgr_ring_discard r n)))"
  then have i: "n + i < rb_size r" by simp
  then have "min n (rb_size r) = n" by simp
  with i show "ring_contents (snd (devmgr_ring_discard r n)) ! i = drop n (ring_contents r) ! i"
    by (simp add: nth_ring_contents) (simp add: devmgr_ring_discard_def Let_def mod_add_left_eq add.assoc)
qed

lemma ring_peek_contents:
  assumes "ring_inv r"
  shows "devmgr_ring_peek r off n = take n (drop off (ring_contents r))"
proof (cases "off \<ge> rb_size r \<or> n = 0")
  case True
  then show ?thesis by (auto simp: devmgr_ring_peek_def)
next
  case False
  let ?c = "min n (rb_size r - off)" and ?p = "(rb_read_pos r + off) mod rb_capacity r"
  have "devmgr_ring_peek r off n = map (\<lambda>i. rb_storage r ! ((?p + i) mod rb_capacity r)) [0..<?c]"
    using False assms circular_read [of ?p "rb_storage r" ?c]
    by (auto simp: devmgr_ring_peek_def Let_def ring_inv_def min.coboundedI2)
  also have "\<dots> = take n (drop off (ring_contents r))"
    by (rule nth_equalityI) (auto simp: nth_ring_contents mod_add_left_eq add.assoc)
  finally show ?thesis .
qed

lemma ring_write_count:
  "fst (devmgr_ring_write r (Some d)) = min (length d) (rb_capacity r - rb_size r)"
  by (simp add: devmgr_ring_write_def Let_def devmgr_ring_space_def)

lemma ring_write_size [simp]:
  "rb_size (snd (devmgr_ring_write r (Some d))) =
   rb_size r + min (length d) (rb_capacity r - rb_size r)"
  by (simp add: devmgr_ring_write_def Let_def devmgr_ring_space_def)

lemma ring_write_capacity [simp]: "rb_capacity (snd (devmgr_ring_write r data)) = rb_capacity r"
  by (cases data) (auto simp: devmgr_ring_write_def Let_def)

lemma ring_write_read_pos [simp]: "rb_read_pos (snd (devmgr_ring_write r data)) = rb_read_pos r"
  by (cases data) (auto simp: devmgr_ring_write_def Let_def)

lemma ring_write_storage:
  assumes "d \<noteq> []"
  shows "rb_storage (snd (devmgr_ring_write r (Some d))) =
    (let e = take (rb_capacity r - rb_size r) d;
         p = (rb_read_pos r + rb_size r) mod rb_capacity r;
         f = min (length e) (rb_capacity r - p)
     in memcpy_at (memcpy_at (rb_storage r) p (take f e)) 0 (drop f e))"
proof -
  define n where "n = rb_capacity r - rb_size r"
  define f where "f = min (min (length d) n) (rb_capacity r - (rb_read_pos r + rb_size r) mod rb_capacity r)"
  have "f \<le> min (length d) n" unfolding f_def by (rule min.cobounded1)
  then have "take f (take n d) = take f d"
    and "take (min (length d) n - f) (drop f d) = drop f (take n d)"
    by (auto simp: drop_take min_def split: if_splits)
  then show ?thesis
    using assms
    by (simp add: devmgr_ring_write_def Let_def devmgr_ring_space_def region_def
        flip: n_def f_def)
qed

lemma ring_write_inv:
  assumes "ring_inv r"
  shows "ring_inv (snd (devmgr_ring_write r data))"
proof (cases data)
  case None
  then show ?thesis using assms by (simp add: devmgr_ring_write_def)
next
  case (Some d)
  show ?thesis
  proof (cases "d = []")
    case True
    then show ?thesis using assms Some by (simp add: devmgr_ring_write_def)
  next
    case False
    let ?p = "(rb_read_pos r + rb_size r) mod rb_capacity r"
    have st: "length (rb_storage r) = rb_capacity r" using assms by (simp add: ring_inv_def)
    have p: "?p < length (rb_storage r)" using assms by (simp add: ring_inv_def)
    have e: "length (take (rb_capacity r - rb_size r) d) \<le> length (rb_storage r)"
      using st by (simp add: min.coboundedI2)
    have "length (rb_storage (snd (devmgr_ring_write r (Some d)))) = rb_capacity r"
      using length_circular_write [OF p e] unfolding ring_write_storage [OF False] Let_def st .
    then show ?thesis using assms Some by (auto simp: ring_inv_def)
  qed
qed

lemma ring_write_contents:
  assumes "ring_inv r"
  shows "ring_contents (snd (devmgr_ring_write r (Some d))) =
    ring_contents r @ take (rb_capacity r - rb_size r) d"
proof (cases "d = []")
  case True
  then show ?thesis by (simp add: devmgr_ring_write_def)
next
  case False
  let ?e = "take (rb_capacity r - rb_size r) d"
  let ?p = "(rb_read_pos r + rb_size r) mod rb_capacity r"
  have le: "length ?e \<le> rb_capacity r - rb_size r" by simp
  have new: "rb_storage (snd (devmgr_ring_write r (Some d))) ! ((?p + j) mod rb_capacity r) =
      (if j < length ?e then ?e ! j else rb_storage r ! ((?p + j) mod rb_capacity r))"
    if "j < rb_capacity r" for j
    using circular_write [of ?p "rb_storage r" ?e j] that assms False
    by (simp add: ring_write_storage Let_def ring_inv_def)
  show ?thesis
  proof (rule nth_equalityI)
    show "length (ring_contents (snd (devmgr_ring_write r (Some d)))) = length (ring_contents r @ ?e)"
      by (simp add: min.commute)
  next
    fix i assume "i < length (ring_contents (snd (devmgr_ring_write r (Some d))))"
    then have i: "i < rb_size r + length ?e" by (simp add: min.commute)
    then have nth: "ring_contents (snd (devmgr_ring_write r (Some d))) ! i =
        rb_storage (snd (devmgr_ring_write r (Some d))) ! ((rb_read_pos r + i) mod rb_capacity r)"
      by (simp add: nth_ring_contents min.commute)
    show "ring_contents (snd (devmgr_ring_write r (Some d))) ! i = (ring_contents r @ ?e) ! i"
    proof (cases "i < rb_size r")
      case True
      let ?j = "i + (rb_capacity r - rb_size r)"
      have "(?p + ?j) mod rb_capacity r = (rb_read_pos r + i + rb_capacity r) mod rb_capacity r"
        using assms by (subst mod_add_left_eq) (simp add: ring_inv_def algebra_simps)
      then have idx: "(?p + ?j) mod rb_capacity r = (rb_read_pos r + i) mod rb_capacity r" by simp
      have "?j < rb_capacity r" using True assms by (auto simp: ring_inv_def)
      then show ?thesis
        using new [of ?j] True le unfolding nth idx by (simp add: nth_ring_contents nth_append)
    next
      case False
      let ?j = "i - rb_size r"
      have idx: "(?p + ?j) mod rb_capacity r = (rb_read_pos r + i) mod rb_capacity r"
        using False by (subst mod_add_left_eq) (simp add: algebra_simps)
      have "?j < length ?e" and "?j < rb_capacity r" using i le False by linarith+
      then show ?thesis
        using new [of ?j] False unfolding nth idx by (simp only: nth_append length_ring_contents if_True if_False)
    qed
  qed
qed

lemma ring_init_empty:
  "length st = c \<Longrightarrow> 0 < c \<Longrightarrow> devmgr_ring_init (Some r0) (Some st) c = (DEVMGR_OK, Some r) \<Longrightarrow>
   ring_inv r \<and> ring_contents r = []"
  by (auto simp: devmgr_ring_init_def ring_inv_def ring_contents_def)

lemma ring_reset_empty:
  "ring_inv r \<Longrightarrow> ring_inv (devmgr_ring_reset r) \<and> ring_contents (devmgr_ring_reset r) = []"
  by (auto simp: devmgr_ring_reset_def ring_inv_def ring_contents_def)

subsection \<open>The queue contract\<close>

text \<open>
  What a client of a bounded byte queue relies on. \<open>cont\<close> is the abstract queue; a
  write accepts a prefix that fits, a peek copies without consuming, a discard drops from
  the front.
\<close>

locale byte_fifo =
  fixes cont :: "'q \<Rightarrow> bytes"
    and invar :: "'q \<Rightarrow> bool"
    and cap :: "'q \<Rightarrow> nat"
    and put :: "'q \<Rightarrow> bytes \<Rightarrow> nat \<times> 'q"
    and peek :: "'q \<Rightarrow> nat \<Rightarrow> nat \<Rightarrow> bytes"
    and discard :: "'q \<Rightarrow> nat \<Rightarrow> nat \<times> 'q"
  assumes cap_bound: "invar q \<Longrightarrow> length (cont q) \<le> cap q"
    and write_count: "invar q \<Longrightarrow> fst (put q d) = min (length d) (cap q - length (cont q))"
    and write_cont: "invar q \<Longrightarrow> cont (snd (put q d)) = cont q @ take (fst (put q d)) d"
    and write_invar: "invar q \<Longrightarrow> invar (snd (put q d))"
    and write_cap: "invar q \<Longrightarrow> cap (snd (put q d)) = cap q"
    and peek_cont: "invar q \<Longrightarrow> peek q off n = take n (drop off (cont q))"
    and discard_count: "invar q \<Longrightarrow> fst (discard q n) = min n (length (cont q))"
    and discard_cont: "invar q \<Longrightarrow> cont (snd (discard q n)) = drop n (cont q)"
    and discard_invar: "invar q \<Longrightarrow> invar (snd (discard q n))"
    and discard_cap: "invar q \<Longrightarrow> cap (snd (discard q n)) = cap q"
begin

lemmas fifo_laws = cap_bound write_count write_cont write_invar write_cap peek_cont
  discard_count discard_cont discard_invar discard_cap

lemma write_fits:
  "invar q \<Longrightarrow> length (cont q) + length d \<le> cap q \<Longrightarrow>
   fst (put q d) = length d \<and> cont (snd (put q d)) = cont q @ d"
  by (simp add: write_count write_cont)

lemma write_progress:
  "invar q \<Longrightarrow> length (cont q) < cap q \<Longrightarrow> d \<noteq> [] \<Longrightarrow> 0 < fst (put q d)"
  by (simp add: write_count)

lemma write_twice:
  assumes "invar q"
  shows "cont (snd (put (snd (put q d)) e)) =
    cont q @ take (cap q - length (cont q)) (take (fst (put q d)) d @ e)"
  using assms
  by (simp add: write_count write_cont write_invar write_cap min_def)

lemma peek_discard_split:
  "invar q \<Longrightarrow> peek q 0 n @ cont (snd (discard q n)) = cont q"
  by (simp add: peek_cont discard_cont)

lemma write_then_read:
  assumes "invar q" and "cont q = []" and "length d \<le> cap q"
  shows "peek (snd (put q d)) 0 (length d) = d \<and>
    cont (snd (discard (snd (put q d)) (length d))) = []"
  using assms write_fits [of q d] by (simp add: write_invar peek_cont discard_cont)

end

interpretation ring: byte_fifo ring_contents ring_inv rb_capacity
  "\<lambda>r d. devmgr_ring_write r (Some d)" devmgr_ring_peek devmgr_ring_discard
proof (unfold_locales, goal_cases)
  case (1 q)
  then show ?case by (simp add: ring_inv_def)
next
  case (2 q d)
  then show ?case by (simp add: ring_write_count)
next
  case (3 q d)
  then show ?case by (simp add: ring_write_contents ring_write_count min_def)
qed (simp_all add: ring_write_inv ring_peek_contents ring_discard_count
      ring_discard_contents ring_discard_inv)

lemma ring_read_contents:
  assumes "ring_inv r" and "devmgr_ring_read r n = (out, r')"
  shows "out = take n (ring_contents r) \<and> ring_contents r' = drop n (ring_contents r) \<and> ring_inv r'"
proof -
  have "out = take n (ring_contents r)"
    and "r' = snd (devmgr_ring_discard r (min (rb_size r) n))"
    using assms by (auto simp: devmgr_ring_read_def Let_def ring.peek_cont)
  then show ?thesis
    using assms by (auto simp: ring.discard_cont ring.discard_invar min_def)
qed

subsection \<open>Sequences of operations\<close>

text \<open>
  The calls a client makes, with their results, on the ring and on its specification, a list
  of at most \<open>cap\<close> bytes.
\<close>

datatype ring_op = Op_write bytes | Op_peek nat nat | Op_discard nat | Op_read nat | Op_reset | Op_size

datatype ring_result = Count nat | Data bytes | Done

fun ring_exec :: "ring_op \<Rightarrow> devmgr_ring_buffer \<Rightarrow> ring_result \<times> devmgr_ring_buffer" where
  "ring_exec (Op_write d) r = (let (n, r') = devmgr_ring_write r (Some d) in (Count n, r'))"
| "ring_exec (Op_peek off n) r = (Data (devmgr_ring_peek r off n), r)"
| "ring_exec (Op_discard n) r = (let (k, r') = devmgr_ring_discard r n in (Count k, r'))"
| "ring_exec (Op_read n) r = (let (d, r') = devmgr_ring_read r n in (Data d, r'))"
| "ring_exec Op_reset r = (Done, devmgr_ring_reset r)"
| "ring_exec Op_size r = (Count (devmgr_ring_size r), r)"

fun queue_exec :: "nat \<Rightarrow> ring_op \<Rightarrow> bytes \<Rightarrow> ring_result \<times> bytes" where
  "queue_exec cap (Op_write d) q =
    (Count (min (length d) (cap - length q)), q @ take (cap - length q) d)"
| "queue_exec cap (Op_peek off n) q = (Data (take n (drop off q)), q)"
| "queue_exec cap (Op_discard n) q = (Count (min n (length q)), drop n q)"
| "queue_exec cap (Op_read n) q = (Data (take n q), drop n q)"
| "queue_exec cap Op_reset q = (Done, [])"
| "queue_exec cap Op_size q = (Count (length q), q)"

fun run_ops :: "('op \<Rightarrow> 's \<Rightarrow> 'r \<times> 's) \<Rightarrow> 'op list \<Rightarrow> 's \<Rightarrow> 'r list \<times> 's" where
  "run_ops exec [] s = ([], s)"
| "run_ops exec (x # xs) s =
    (let (r, s') = exec x s; (rs, s'') = run_ops exec xs s' in (r # rs, s''))"

lemma ring_exec_simulates:
  assumes "ring_inv r"
  shows "ring_inv (snd (ring_exec x r))"
    and "rb_capacity (snd (ring_exec x r)) = rb_capacity r"
    and "queue_exec (rb_capacity r) x (ring_contents r) =
      (fst (ring_exec x r), ring_contents (snd (ring_exec x r)))"
proof -
  show "rb_capacity (snd (ring_exec x r)) = rb_capacity r"
    by (cases x) (simp_all add: split_beta devmgr_ring_reset_def devmgr_ring_read_def Let_def)
  show "ring_inv (snd (ring_exec x r))"
    using assms ring_reset_empty [of r]
    by (cases x) (simp_all add: split_beta ring.write_invar ring.discard_invar devmgr_ring_read_def Let_def)
  show "queue_exec (rb_capacity r) x (ring_contents r) =
      (fst (ring_exec x r), ring_contents (snd (ring_exec x r)))"
  proof (cases x)
    case (Op_read n)
    then show ?thesis using ring_read_contents [OF assms, of n] by (cases "devmgr_ring_read r n") simp
  qed (use assms ring_reset_empty [of r] in
      \<open>simp_all add: split_beta ring_write_contents ring_write_count ring.peek_cont
        ring.discard_count ring.discard_cont devmgr_ring_size_def\<close>)
qed

subsection \<open>Properties\<close>

text \<open>
  C15. The ring buffer refines a bounded byte queue: whatever calls are made, in whatever
  order and however often the positions wrap around, every result is the one the queue
  gives, and the invariant of the ring is kept.
\<close>

theorem ring_refines_queue:
  assumes "ring_inv r"
  shows "ring_inv (snd (run_ops ring_exec ops r)) \<and>
    run_ops (queue_exec (rb_capacity r)) ops (ring_contents r) =
      (fst (run_ops ring_exec ops r), ring_contents (snd (run_ops ring_exec ops r)))"
  using assms
proof (induction ops arbitrary: r)
  case Nil
  then show ?case by simp
next
  case (Cons x ops)
  note step = ring_exec_simulates [OF Cons.prems, of x]
  show ?case using Cons.IH [OF step(1)] step(2,3) by (simp add: split_beta)
qed

theorem ring_refines_queue_witness:
  "fst (run_ops ring_exec [Op_write [4, 5], Op_read 9, Op_write [6]]
      \<lparr>rb_storage = [1, 2, 3], rb_capacity = 3, rb_read_pos = 2, rb_size = 2\<rparr>) =
    [Count 1, Data [3, 1, 4], Count 1]"
proof -
  let ?r = "\<lparr>rb_storage = [1, 2, 3], rb_capacity = 3, rb_read_pos = 2, rb_size = 2\<rparr>"
  have "ring_inv ?r" "ring_contents ?r = [3, 1]" by code_simp+
  then show ?thesis
    using ring_refines_queue [of ?r "[Op_write [4, 5], Op_read 9, Op_write [6]]"] by simp
qed

end
