(* ===== verification/Parser.thy ===== *)
theory Parser
  imports Frame Ring_Buffer
begin

section \<open>Stream parser (include/devmgr/parser.h, src/protocol/parser.c)\<close>

text \<open>
  The parser turns an arbitrarily sliced byte stream into frames: \<open>devmgr_parser_feed\<close>
  copies input into the ring as far as it fits, \<open>parser_drain\<close> takes every complete
  frame out of it and skips one byte wherever no frame can start. A frame callback with its
  context pointer is a function that returns a status and the new context.

  The specification is a scanner of the unbounded stream: \<open>frame_scan\<close> decides what
  the front of a byte list is, \<open>scan_all\<close> (for any scanner) splits a list into frames
  and an unfinished rest. The locale \<open>stable_scanner\<close> holds the laws under which
  slicing does not matter; the parser's theorems rest on its interpretation.
\<close>

abbreviation (input) DEVMGR_PARSER_CAPACITY :: nat where "DEVMGR_PARSER_CAPACITY \<equiv> 8224"

record devmgr_parser_stats =
  bytes_received :: u64
  frames_decoded :: u64
  crc_errors :: u64
  length_errors :: u64
  discarded_bytes :: u64
  overflow_bytes :: u64

record devmgr_parser =
  ps_input :: devmgr_ring_buffer
  ps_stats :: devmgr_parser_stats

type_synonym 'c frame_callback = "devmgr_frame \<Rightarrow> 'c \<Rightarrow> devmgr_status \<times> 'c"

definition zero_stats :: devmgr_parser_stats where
  "zero_stats = \<lparr>bytes_received = 0, frames_decoded = 0, crc_errors = 0, length_errors = 0,
     discarded_bytes = 0, overflow_bytes = 0\<rparr>"

definition parser_discard :: "devmgr_parser \<Rightarrow> nat \<Rightarrow> devmgr_parser" where
  "parser_discard p n = p\<lparr>ps_input := snd (devmgr_ring_discard (ps_input p) n)\<rparr>"

definition count_discarded :: "devmgr_parser \<Rightarrow> devmgr_parser" where
  "count_discarded p = p\<lparr>ps_stats := (ps_stats p)\<lparr>discarded_bytes := discarded_bytes (ps_stats p) + 1\<rparr>\<rparr>"

definition count_length_error :: "devmgr_parser \<Rightarrow> devmgr_parser" where
  "count_length_error p = p\<lparr>ps_stats := (ps_stats p)\<lparr>length_errors := length_errors (ps_stats p) + 1\<rparr>\<rparr>"

definition count_crc_error :: "devmgr_parser \<Rightarrow> devmgr_parser" where
  "count_crc_error p = p\<lparr>ps_stats := (ps_stats p)\<lparr>crc_errors := crc_errors (ps_stats p) + 1\<rparr>\<rparr>"

definition count_frame :: "devmgr_parser \<Rightarrow> devmgr_parser" where
  "count_frame p = p\<lparr>ps_stats := (ps_stats p)\<lparr>frames_decoded := frames_decoded (ps_stats p) + 1\<rparr>\<rparr>"

lemma ps_input_counts [simp]:
  "ps_input (count_discarded p) = ps_input p" "ps_input (count_length_error p) = ps_input p"
  "ps_input (count_crc_error p) = ps_input p" "ps_input (count_frame p) = ps_input p"
  "ps_input (parser_discard p n) = snd (devmgr_ring_discard (ps_input p) n)"
  by (simp_all add: count_discarded_def count_length_error_def count_crc_error_def count_frame_def
      parser_discard_def)

function parser_drain ::
  "'c frame_callback \<Rightarrow> devmgr_parser \<Rightarrow> 'c \<Rightarrow> nat \<Rightarrow> devmgr_status \<times> devmgr_parser \<times> 'c \<times> nat" where
  "parser_drain callback p context frames_emitted =
    (if devmgr_ring_size (ps_input p) \<ge> 2 then
       let header = devmgr_ring_peek (ps_input p) 0 2 in
       if devmgr_get_le16 header \<noteq> DEVMGR_PROTOCOL_MAGIC then
         parser_drain callback (count_discarded (parser_discard p 1)) context frames_emitted
       else if devmgr_ring_size (ps_input p) < DEVMGR_PROTOCOL_HEADER_SIZE then
         (DEVMGR_OK, p, context, frames_emitted)
       else
         let header = devmgr_ring_peek (ps_input p) 0 DEVMGR_PROTOCOL_HEADER_SIZE in
         if header ! 2 \<noteq> DEVMGR_PROTOCOL_VERSION \<or> header ! 5 \<noteq> 0 then
           parser_drain callback (count_discarded (parser_discard p 1)) context frames_emitted
         else
           let payload_length = devmgr_get_le16 (drop 10 header) in
           if unat payload_length > DEVMGR_PROTOCOL_MAX_PAYLOAD then
             parser_drain callback (count_discarded (count_length_error (parser_discard p 1)))
               context frames_emitted
           else
             let frame_length = DEVMGR_PROTOCOL_HEADER_SIZE + unat payload_length +
                                DEVMGR_PROTOCOL_CRC_SIZE in
             if devmgr_ring_size (ps_input p) < frame_length then
               (DEVMGR_OK, p, context, frames_emitted)
             else
               let encoded = devmgr_ring_peek (ps_input p) 0 frame_length in
               case devmgr_frame_decode encoded of
                 Inl result \<Rightarrow>
                   if result = DEVMGR_ERROR_CRC then
                     parser_drain callback (count_discarded (count_crc_error (parser_discard p 1)))
                       context frames_emitted
                   else
                     parser_drain callback (count_discarded (parser_discard p 1))
                       context frames_emitted
               | Inr frame \<Rightarrow>
                   let p' = count_frame (parser_discard p frame_length) in
                   case callback frame context of
                     (result, context') \<Rightarrow>
                       if result \<noteq> DEVMGR_OK then (result, p', context', frames_emitted + 1)
                       else parser_drain callback p' context' (frames_emitted + 1)
     else (DEVMGR_OK, p, context, frames_emitted))"
  by pat_completeness auto
termination
  by (relation "measure (\<lambda>(callback, p, context, n). devmgr_ring_size (ps_input p))")
     (auto simp: devmgr_ring_size_def)

declare parser_drain.simps [simp del]

definition devmgr_parser_init :: "devmgr_parser \<Rightarrow> devmgr_status \<times> devmgr_parser" where
  "devmgr_parser_init p =
    (let zeroed = p\<lparr>ps_input := \<lparr>rb_storage = [], rb_capacity = 0, rb_read_pos = 0, rb_size = 0\<rparr>,
                    ps_stats := zero_stats\<rparr>
     in case devmgr_ring_init (Some (ps_input zeroed)) (Some (replicate DEVMGR_PARSER_CAPACITY 0))
               DEVMGR_PARSER_CAPACITY of
          (result, ring) \<Rightarrow> (result, zeroed\<lparr>ps_input := the ring\<rparr>))"

definition devmgr_parser_reset :: "devmgr_parser \<Rightarrow> devmgr_parser" where
  "devmgr_parser_reset p = p\<lparr>ps_input := devmgr_ring_reset (ps_input p), ps_stats := zero_stats\<rparr>"

text \<open>The \<open>while (offset < length)\<close> loop, over the input that is left, and the final drain.\<close>

function parser_feed_loop ::
  "'c frame_callback \<Rightarrow> devmgr_parser \<Rightarrow> 'c \<Rightarrow> nat \<Rightarrow> bytes \<Rightarrow>
   devmgr_status \<times> devmgr_parser \<times> 'c \<times> nat" where
  "parser_feed_loop callback p context frames_emitted rest =
    (if rest \<noteq> [] then
       case devmgr_ring_write (ps_input p) (Some rest) of
         (written, ring) \<Rightarrow>
           let p1 = p\<lparr>ps_input := ring,
                      ps_stats := (ps_stats p)\<lparr>bytes_received :=
                        bytes_received (ps_stats p) + of_nat written\<rparr>\<rparr>;
               rest' = drop written rest
           in case parser_drain callback p1 context frames_emitted of
                (result, p2, context', emitted) \<Rightarrow>
                  if result \<noteq> DEVMGR_OK then (result, p2, context', emitted)
                  else if written = 0 then
                    (DEVMGR_ERROR_OVERFLOW,
                     p2\<lparr>ps_stats := (ps_stats p2)\<lparr>overflow_bytes :=
                       overflow_bytes (ps_stats p2) + of_nat (length rest')\<rparr>\<rparr>,
                     context', emitted)
                  else parser_feed_loop callback p2 context' emitted rest'
     else parser_drain callback p context frames_emitted)"
  by pat_completeness auto
termination
  by (relation "measure (\<lambda>(callback, p, context, n, rest). length rest)") auto

declare parser_feed_loop.simps [simp del]

definition devmgr_parser_feed ::
  "'c frame_callback \<Rightarrow> devmgr_parser \<Rightarrow> bytes \<Rightarrow> 'c \<Rightarrow> devmgr_status \<times> devmgr_parser \<times> 'c \<times> nat" where
  "devmgr_parser_feed callback p data context = parser_feed_loop callback p context 0 data"

definition devmgr_parser_get_stats :: "devmgr_parser ptr \<Rightarrow> devmgr_parser_stats ptr" where
  "devmgr_parser_get_stats p = map_option ps_stats p"

text \<open>
  The guard of \<open>devmgr_parser_feed\<close> on its pointers: data may be \<open>NULL\<close> only with
  length zero.
\<close>

definition devmgr_parser_feed_ptr ::
  "'c frame_callback ptr \<Rightarrow> devmgr_parser ptr \<Rightarrow> bytes ptr \<Rightarrow> nat \<Rightarrow> bool \<Rightarrow> 'c \<Rightarrow>
   devmgr_status \<times> devmgr_parser ptr \<times> 'c \<times> nat" where
  "devmgr_parser_feed_ptr callback p data n frames_emitted_null context =
    (case (callback, p) of
       (Some cb, Some q) \<Rightarrow>
         if (data = None \<and> n \<noteq> 0) \<or> frames_emitted_null then (DEVMGR_ERROR_INVALID, p, context, 0)
         else (case devmgr_parser_feed cb q (case data of None \<Rightarrow> [] | Some d \<Rightarrow> take n d) context of
                 (result, q', context', emitted) \<Rightarrow> (result, Some q', context', emitted))
     | _ \<Rightarrow> (DEVMGR_ERROR_INVALID, p, context, 0))"

subsection \<open>Scanning a stream\<close>

datatype 'f scan_result = Wait | Skip | Emit 'f nat

text \<open>
  \<open>scan_all\<close> runs a scanner to the end of what is decided. A scanner that skips on an
  empty list or emits a frame of length zero makes no progress; there the run stops.
\<close>

function scan_all :: "('b list \<Rightarrow> 'f scan_result) \<Rightarrow> 'b list \<Rightarrow> 'f list \<times> 'b list" where
  "scan_all d xs =
    (case d xs of
       Wait \<Rightarrow> ([], xs)
     | Skip \<Rightarrow> if xs = [] then ([], xs) else scan_all d (tl xs)
     | Emit f n \<Rightarrow> if n = 0 \<or> xs = [] then ([], xs)
                   else (case scan_all d (drop n xs) of (fs, rest) \<Rightarrow> (f # fs, rest)))"
  by pat_completeness auto
termination
  by (relation "measure (\<lambda>(d, xs). length xs)") auto

declare scan_all.simps [simp del]

text \<open>A decision, once made, does not depend on what follows, and it makes progress.\<close>

locale stable_scanner =
  fixes scan :: "'b list \<Rightarrow> 'f scan_result"
  assumes scan_stable: "scan xs \<noteq> Wait \<Longrightarrow> scan (xs @ ys) = scan xs"
    and scan_Nil: "scan [] = Wait"
    and scan_Emit: "scan xs = Emit f n \<Longrightarrow> 0 < n \<and> n \<le> length xs"
begin

lemma scan_all_rest: "scan (snd (scan_all scan xs)) = Wait"
proof (induction "length xs" arbitrary: xs rule: less_induct)
  case less
  show ?case
  proof (cases "scan xs")
    case Wait
    then show ?thesis by (simp add: scan_all.simps)
  next
    case Skip
    then have "xs \<noteq> []" using scan_Nil by auto
    with Skip less [of "tl xs"] show ?thesis by (simp add: scan_all.simps [of scan xs])
  next
    case (Emit f n)
    with scan_Emit have "0 < n" "xs \<noteq> []" by fastforce+
    with Emit less [of "drop n xs"] show ?thesis
      by (simp add: scan_all.simps [of scan xs] split_beta)
  qed
qed

text \<open>Slicing does not matter: scanning in two pieces is scanning the whole.\<close>

lemma scan_all_append:
  "scan_all scan (xs @ ys) =
    (fst (scan_all scan xs) @ fst (scan_all scan (snd (scan_all scan xs) @ ys)),
     snd (scan_all scan (snd (scan_all scan xs) @ ys)))"
proof (induction "length xs" arbitrary: xs rule: less_induct)
  case less
  show ?case
  proof (cases "scan xs")
    case Wait
    then show ?thesis by (simp add: scan_all.simps [of scan xs])
  next
    case Skip
    then have ne: "xs \<noteq> []" and "scan (xs @ ys) = Skip" using scan_Nil scan_stable [of xs ys] by auto
    then have "scan_all scan (xs @ ys) = scan_all scan (tl xs @ ys)"
      by (simp add: scan_all.simps [of scan "xs @ ys"])
    moreover have "scan_all scan xs = scan_all scan (tl xs)"
      using Skip ne by (simp add: scan_all.simps [of scan xs])
    ultimately show ?thesis using less [of "tl xs"] ne by simp
  next
    case (Emit f n)
    then have n: "0 < n" "n \<le> length xs" and "scan (xs @ ys) = Emit f n"
      using scan_Emit scan_stable [of xs ys] by auto
    then have "scan_all scan (xs @ ys) =
        (f # fst (scan_all scan (drop n xs @ ys)), snd (scan_all scan (drop n xs @ ys)))"
      by (subst scan_all.simps) (auto simp: split_beta)
    moreover have "scan_all scan xs = (f # fst (scan_all scan (drop n xs)), snd (scan_all scan (drop n xs)))"
      using Emit n by (subst scan_all.simps) (auto simp: split_beta)
    ultimately show ?thesis using less [of "drop n xs"] n by simp
  qed
qed

lemma scan_all_quiet: "scan xs = Wait \<Longrightarrow> scan_all scan xs = ([], xs)"
  by (simp add: scan_all.simps)

end

text \<open>What the front of a byte stream is, under the framing rules of \<open>docs/protocol.md\<close>.\<close>

definition frame_scan :: "bytes \<Rightarrow> devmgr_frame scan_result" where
  "frame_scan xs =
    (if length xs < 2 then Wait
     else if devmgr_get_le16 xs \<noteq> DEVMGR_PROTOCOL_MAGIC then Skip
     else if length xs < 12 then Wait
     else if xs ! 2 \<noteq> DEVMGR_PROTOCOL_VERSION \<or> xs ! 5 \<noteq> 0 then Skip
     else if unat (devmgr_get_le16 (drop 10 xs)) > DEVMGR_PROTOCOL_MAX_PAYLOAD then Skip
     else if length xs < 16 + unat (devmgr_get_le16 (drop 10 xs)) then Wait
     else (case devmgr_frame_decode (take (16 + unat (devmgr_get_le16 (drop 10 xs))) xs) of
             Inl _ \<Rightarrow> Skip
           | Inr f \<Rightarrow> Emit f (16 + unat (devmgr_get_le16 (drop 10 xs)))))"

lemma get_le_append [simp]:
  "2 \<le> length xs \<Longrightarrow> devmgr_get_le16 (xs @ ys) = devmgr_get_le16 xs"
  "4 \<le> length xs \<Longrightarrow> devmgr_get_le32 (xs @ ys) = devmgr_get_le32 xs"
  by (auto simp: devmgr_get_le16_def devmgr_get_le32_def nth_append)

lemma get_le_take:
  "2 \<le> n \<Longrightarrow> 2 \<le> length xs \<Longrightarrow> devmgr_get_le16 (take n xs) = devmgr_get_le16 xs"
  "4 \<le> n \<Longrightarrow> 4 \<le> length xs \<Longrightarrow> devmgr_get_le32 (take n xs) = devmgr_get_le32 xs"
  by (simp_all add: devmgr_get_le16_def devmgr_get_le32_def)

interpretation fs: stable_scanner frame_scan
proof (unfold_locales, goal_cases)
  case (1 xs ys)
  then have l2: "2 \<le> length xs" by (auto simp: frame_scan_def split: if_splits)
  show ?case
  proof (cases "devmgr_get_le16 xs = DEVMGR_PROTOCOL_MAGIC")
    case False
    then show ?thesis using l2 by (simp add: frame_scan_def)
  next
    case True
    with 1 l2 have l12: "12 \<le> length xs" by (auto simp: frame_scan_def split: if_splits)
    obtain n where n: "unat (devmgr_get_le16 (drop 10 xs)) = n" by blast
    have "devmgr_get_le16 (drop 10 (xs @ ys)) = devmgr_get_le16 (drop 10 xs)" using l12 by simp
    moreover have "n \<le> 4096 \<Longrightarrow> xs ! 2 = 1 \<Longrightarrow> xs ! 5 = 0 \<Longrightarrow> 16 + n \<le> length xs"
      using 1 True l2 l12 n by (auto simp: frame_scan_def split: if_splits)
    ultimately show ?thesis
      using l12 True n by (auto simp: frame_scan_def nth_append split: sum.splits)
  qed
next
  case 2
  show ?case by (simp add: frame_scan_def)
next
  case (3 xs f n)
  then show ?case by (auto simp: frame_scan_def split: if_splits sum.splits)
qed

text \<open>An unfinished rest is shorter than the longest frame.\<close>

lemma frame_scan_Wait_length: "frame_scan xs = Wait \<Longrightarrow> length xs < DEVMGR_PROTOCOL_MAX_FRAME"
  by (auto simp: frame_scan_def split: if_splits sum.splits)

subsection \<open>The parser refines the scanner\<close>

declare length_ring_contents [simp del]

text \<open>
  Handing frames to the callback one by one, up to the first that it does not accept:
  status, context and number of frames handed over.
\<close>

fun deliver :: "'c frame_callback \<Rightarrow> devmgr_frame list \<Rightarrow> 'c \<Rightarrow> devmgr_status \<times> 'c \<times> nat" where
  "deliver cb [] c = (DEVMGR_OK, c, 0)"
| "deliver cb (f # fs) c =
    (case cb f c of
       (r, c') \<Rightarrow> if r \<noteq> DEVMGR_OK then (r, c', 1)
                  else (case deliver cb fs c' of (r', c'', n) \<Rightarrow> (r', c'', Suc n)))"

lemma deliver_append:
  "deliver cb (fs @ gs) c =
    (case deliver cb fs c of
       (r, c', n) \<Rightarrow> if r \<noteq> DEVMGR_OK then (r, c', n)
                     else (case deliver cb gs c' of (r', c'', m) \<Rightarrow> (r', c'', n + m)))"
  by (induction fs arbitrary: c) (auto split: prod.splits if_splits)

lemma deliver_OK_length: "deliver cb fs c = (DEVMGR_OK, c', n) \<Longrightarrow> n = length fs"
  by (induction fs arbitrary: c c' n) (auto split: prod.splits if_splits)

abbreviation parser_contents :: "devmgr_parser \<Rightarrow> bytes" where
  "parser_contents p \<equiv> ring_contents (ps_input p)"

definition parser_inv :: "devmgr_parser \<Rightarrow> bool" where
  "parser_inv p \<longleftrightarrow> ring_inv (ps_input p) \<and> rb_capacity (ps_input p) = DEVMGR_PARSER_CAPACITY"

lemma parser_inv_count [simp]:
  "parser_inv (count_discarded p) = parser_inv p" "parser_inv (count_length_error p) = parser_inv p"
  "parser_inv (count_crc_error p) = parser_inv p" "parser_inv (count_frame p) = parser_inv p"
  by (simp_all add: parser_inv_def)

lemma parser_discard_props [simp]:
  assumes "parser_inv p"
  shows "parser_inv (parser_discard p n)"
    and "ring_contents (snd (devmgr_ring_discard (ps_input p) n)) = drop n (parser_contents p)"
  using assms by (simp_all add: parser_inv_def ring.discard_invar ring.discard_cont)

lemma parser_size: "parser_inv p \<Longrightarrow> devmgr_ring_size (ps_input p) = length (parser_contents p)"
  by (simp add: devmgr_ring_size_def length_ring_contents)

lemma parser_peek: "parser_inv p \<Longrightarrow> devmgr_ring_peek (ps_input p) 0 n = take n (parser_contents p)"
  by (simp add: parser_inv_def ring.peek_cont)

lemma parser_drain_Wait:
  assumes "parser_inv p" and "frame_scan (parser_contents p) = Wait"
  shows "parser_drain cb p c k = (DEVMGR_OK, p, c, k)"
proof -
  let ?xs = "parser_contents p"
  consider "length ?xs < 2"
    | "2 \<le> length ?xs" "devmgr_get_le16 ?xs = DEVMGR_PROTOCOL_MAGIC" "length ?xs < 12"
    | "12 \<le> length ?xs" "devmgr_get_le16 ?xs = DEVMGR_PROTOCOL_MAGIC" "?xs ! 2 = 1" "?xs ! 5 = 0"
      "\<not> unat (devmgr_get_le16 (drop 10 ?xs)) > 4096"
      "length ?xs < 16 + unat (devmgr_get_le16 (drop 10 ?xs))"
    using assms(2) by (auto simp: frame_scan_def split: if_splits sum.splits)
  then show ?thesis
  proof cases
    case 1
    then show ?thesis by (subst parser_drain.simps) (simp add: parser_size [OF assms(1)])
  next
    case 2
    then show ?thesis
      by (subst parser_drain.simps)
         (simp add: parser_size [OF assms(1)] parser_peek [OF assms(1)] get_le_take)
  next
    case 3
    then have "devmgr_get_le16 (drop 10 (take 12 ?xs)) = devmgr_get_le16 (drop 10 ?xs)"
      by (simp add: drop_take get_le_take)
    with 3 show ?thesis
      by (subst parser_drain.simps)
         (simp add: parser_size [OF assms(1)] parser_peek [OF assms(1)] get_le_take Let_def)
  qed
qed

lemma parser_drain_Skip:
  assumes inv: "parser_inv p" and skip: "frame_scan (parser_contents p) = Skip"
  shows "\<exists>q. parser_drain cb p c k = parser_drain cb q c k \<and> parser_inv q \<and>
    parser_contents q = drop 1 (parser_contents p)"
proof -
  let ?xs = "parser_contents p"
  note step = parser_size [OF inv] parser_peek [OF inv] get_le_take
  let ?q = "count_discarded (parser_discard p 1)"
  let ?ql = "count_discarded (count_length_error (parser_discard p 1))"
  let ?qc = "count_discarded (count_crc_error (parser_discard p 1))"
  have l2: "2 \<le> length ?xs" using skip by (auto simp: frame_scan_def split: if_splits)
  have "parser_drain cb p c k = parser_drain cb ?q c k \<or> parser_drain cb p c k = parser_drain cb ?ql c k
      \<or> parser_drain cb p c k = parser_drain cb ?qc c k"
  proof (cases "devmgr_get_le16 ?xs = DEVMGR_PROTOCOL_MAGIC")
    case False
    then show ?thesis using l2 parser_drain.simps [of cb p c k] by (simp add: step)
  next
    case True
    with skip l2 have l12: "12 \<le> length ?xs" by (auto simp: frame_scan_def split: if_splits)
    obtain n where n: "unat (devmgr_get_le16 (drop 10 ?xs)) = n" by blast
    have n': "unat (devmgr_get_le16 (drop 10 (take 12 ?xs))) = n"
      using l12 n by (simp add: drop_take get_le_take)
    have dec: "\<exists>e. devmgr_frame_decode (take (16 + n) ?xs) = Inl e" and len: "16 + n \<le> length ?xs"
      if "?xs ! 2 = 1" "?xs ! 5 = 0" "n \<le> 4096"
      using skip True l12 n that by (auto simp: frame_scan_def split: if_splits sum.splits)
    consider "?xs ! 2 \<noteq> 1 \<or> ?xs ! 5 \<noteq> 0" | "?xs ! 2 = 1" "?xs ! 5 = 0" "n > 4096"
      | "?xs ! 2 = 1" "?xs ! 5 = 0" "n \<le> 4096" by fastforce
    then show ?thesis
    proof cases
      case 1
      then show ?thesis using True l12 parser_drain.simps [of cb p c k]
        by (auto simp: step Let_def)
    next
      case 2
      then show ?thesis using True l12 parser_drain.simps [of cb p c k]
        by (simp add: step Let_def n')
    next
      case 3
      with dec obtain e where "devmgr_frame_decode (take (16 + n) ?xs) = Inl e" by blast
      with 3 len [OF 3] True l12 show ?thesis using parser_drain.simps [of cb p c k]
        by (simp add: step Let_def n' add.commute)
    qed
  qed
  moreover have "parser_inv q \<and> parser_contents q = drop 1 ?xs" if "q \<in> {?q, ?ql, ?qc}" for q
    using that parser_discard_props [OF inv, of 1] by auto
  ultimately show ?thesis by blast
qed

lemma parser_drain_Emit:
  assumes inv: "parser_inv p" and emit: "frame_scan (parser_contents p) = Emit f n"
  shows "parser_drain cb p c k =
    (let q = count_frame (parser_discard p n) in
     case cb f c of (r, c') \<Rightarrow>
       if r \<noteq> DEVMGR_OK then (r, q, c', k + 1) else parser_drain cb q c' (k + 1))"
proof -
  let ?xs = "parser_contents p"
  obtain m where m: "unat (devmgr_get_le16 (drop 10 ?xs)) = m" by blast
  have h: "2 \<le> length ?xs" "devmgr_get_le16 ?xs = DEVMGR_PROTOCOL_MAGIC" "12 \<le> length ?xs"
    "?xs ! 2 = 1" "?xs ! 5 = 0" "m \<le> 4096" "16 + m \<le> length ?xs"
    "devmgr_frame_decode (take (16 + m) ?xs) = Inr f" "n = 16 + m"
    using emit m by (auto simp: frame_scan_def split: if_splits sum.splits)
  have "unat (devmgr_get_le16 (drop 10 (take 12 ?xs))) = m"
    using h m by (simp add: drop_take get_le_take)
  with h show ?thesis
    by (subst parser_drain.simps)
       (simp add: parser_size [OF inv] parser_peek [OF inv] get_le_take Let_def add.commute)
qed

text \<open>
  One drain delivers the frames of the scanned contents, stops at the first one the callback
  refuses, and leaves the frames not delivered and the unfinished rest in the ring.
\<close>

lemma parser_drain_refines:
  assumes "parser_inv p" and "parser_drain cb p c k = (r, p', c', k')"
    and "scan_all frame_scan (parser_contents p) = (fs, rest)"
  shows "parser_inv p' \<and> k \<le> k' \<and> deliver cb fs c = (r, c', k' - k) \<and>
    scan_all frame_scan (parser_contents p') = (drop (k' - k) fs, rest) \<and>
    (r = DEVMGR_OK \<longrightarrow> parser_contents p' = rest)"
  using assms
proof (induction "length (parser_contents p)" arbitrary: p c k fs rule: less_induct)
  case less
  let ?xs = "parser_contents p"
  note inv = less.prems(1)
  show ?case
  proof (cases "frame_scan ?xs")
    case Wait
    with less.prems show ?thesis by (auto simp: parser_drain_Wait fs.scan_all_quiet)
  next
    case Skip
    obtain q where q: "parser_drain cb p c k = parser_drain cb q c k" "parser_inv q"
        "parser_contents q = drop 1 ?xs" using parser_drain_Skip [OF inv Skip, of cb c k] by (elim exE conjE)
    have "?xs \<noteq> []" using Skip fs.scan_Nil by force
    then have "length (parser_contents q) < length ?xs"
      and "scan_all frame_scan (parser_contents q) = (fs, rest)"
      using Skip less.prems(3) q(3) scan_all.simps [of frame_scan ?xs] by (simp_all add: drop_Suc)
    with less.hyps [of q c k fs] q less.prems(2) show ?thesis by simp
  next
    case (Emit f n)
    let ?q = "count_frame (parser_discard p n)"
    have n: "0 < n" "n \<le> length ?xs" using fs.scan_Emit [OF Emit] by simp_all
    then have ne: "?xs \<noteq> []" by force
    obtain gs where gs: "scan_all frame_scan (drop n ?xs) = (gs, rest)" "fs = f # gs"
      using Emit n ne less.prems(3) scan_all.simps [of frame_scan ?xs] by (auto split: prod.splits)
    have q: "parser_inv ?q" "parser_contents ?q = drop n ?xs" using inv by simp_all
    obtain s d where cb: "cb f c = (s, d)" by (cases "cb f c")
    show ?thesis
    proof (cases "s = DEVMGR_OK")
      case False
      then have "r = s" "p' = ?q" "c' = d" "k' = k + 1"
        using less.prems(2) parser_drain_Emit [OF inv Emit, of cb c k] cb by (auto simp: Let_def)
      then show ?thesis using False gs q cb by simp
    next
      case True
      then have "parser_drain cb ?q d (k + 1) = (r, p', c', k')"
        using less.prems(2) parser_drain_Emit [OF inv Emit, of cb c k] cb by (simp add: Let_def)
      with less.hyps [of ?q d "k + 1" gs] q n ne gs(1)
      have "parser_inv p' \<and> k + 1 \<le> k' \<and> deliver cb gs d = (r, c', k' - (k + 1)) \<and>
          scan_all frame_scan (parser_contents p') = (drop (k' - (k + 1)) gs, rest) \<and>
          (r = DEVMGR_OK \<longrightarrow> parser_contents p' = rest)"
        by simp
      then show ?thesis
        using gs(2) cb True by (auto simp: drop_Cons' Suc_diff_Suc)
    qed
  qed
qed

lemma parser_write:
  assumes "parser_inv p" and "devmgr_ring_write (ps_input p) (Some d) = (w, ring)"
  shows "parser_inv (p\<lparr>ps_input := ring, ps_stats := st\<rparr>)"
    and "ring_contents ring = parser_contents p @ take w d"
    and "w = min (length d) (DEVMGR_PARSER_CAPACITY - length (parser_contents p))"
proof -
  have inv: "ring_inv (ps_input p)" and cap: "rb_capacity (ps_input p) = DEVMGR_PARSER_CAPACITY"
    using assms(1) by (simp_all add: parser_inv_def)
  show "parser_inv (p\<lparr>ps_input := ring, ps_stats := st\<rparr>)"
    using ring.write_invar [OF inv, of d] ring.write_cap [OF inv, of d] assms(2) cap
    by (simp add: parser_inv_def)
  show "ring_contents ring = parser_contents p @ take w d"
    using ring.write_cont [OF inv, of d] assms(2) by simp
  show "w = min (length d) (DEVMGR_PARSER_CAPACITY - length (parser_contents p))"
    using ring.write_count [OF inv, of d] assms(2) cap by simp
qed

text \<open>
  Feeding: with room for one byte to start with, the parser never overflows, delivers exactly
  the frames of the scanned stream, and keeps the unfinished rest.
\<close>

lemma parser_feed_loop_refines:
  assumes "parser_inv p" and "length (parser_contents p) < DEVMGR_PARSER_CAPACITY"
    and "parser_feed_loop cb p c k data = (r, p', c', k')"
    and "scan_all frame_scan (parser_contents p @ data) = (fs, rest)"
  shows "parser_inv p' \<and> k \<le> k' \<and> deliver cb fs c = (r, c', k' - k) \<and>
    (r = DEVMGR_OK \<longrightarrow> parser_contents p' = rest)"
  using assms
proof (induction "length data" arbitrary: p c k data fs rule: less_induct)
  case less
  note inv = less.prems(1)
  show ?case
  proof (cases "data = []")
    case True
    with less.prems have "parser_drain cb p c k = (r, p', c', k')"
      and "scan_all frame_scan (parser_contents p) = (fs, rest)"
      by (simp_all add: parser_feed_loop.simps)
    then show ?thesis using parser_drain_refines [OF inv, of cb c k r p' c' k' fs rest] by simp
  next
    case False
    obtain w ring where w: "devmgr_ring_write (ps_input p) (Some data) = (w, ring)"
      by (cases "devmgr_ring_write (ps_input p) (Some data)")
    let ?st = "(ps_stats p)\<lparr>bytes_received := bytes_received (ps_stats p) + of_nat w\<rparr>"
    let ?p = "p\<lparr>ps_input := ring, ps_stats := ?st\<rparr>"
    note pw = parser_write [OF inv w]
    have "0 < w" using pw(3) False less.prems(2) by simp
    obtain r2 p2 c2 k2 where dr: "parser_drain cb ?p c k = (r2, p2, c2, k2)"
      by (cases "parser_drain cb ?p c k" rule: prod_cases4)
    obtain fs1 rest1 where s1: "scan_all frame_scan (parser_contents p @ take w data) = (fs1, rest1)"
      by (cases "scan_all frame_scan (parser_contents p @ take w data)")
    have d2: "parser_inv p2 \<and> k \<le> k2 \<and> deliver cb fs1 c = (r2, c2, k2 - k) \<and>
        (r2 = DEVMGR_OK \<longrightarrow> parser_contents p2 = rest1)"
      using parser_drain_refines [OF pw(1) dr] s1 pw(2) by simp
    obtain fs2 where s2: "scan_all frame_scan (rest1 @ drop w data) = (fs2, rest)" "fs = fs1 @ fs2"
      using fs.scan_all_append [of "parser_contents p @ take w data" "drop w data"] s1 less.prems(4)
      by (cases "scan_all frame_scan (rest1 @ drop w data)") simp
    show ?thesis
    proof (cases "r2 = DEVMGR_OK")
      case False
      then have "r = r2" "p' = p2" "c' = c2" "k' = k2"
        using less.prems(3) \<open>data \<noteq> []\<close> w dr by (auto simp: parser_feed_loop.simps Let_def)
      then show ?thesis using d2 s2(2) False by (simp add: deliver_append)
    next
      case True
      then have "parser_feed_loop cb p2 c2 k2 (drop w data) = (r, p', c', k')"
        using less.prems(3) \<open>data \<noteq> []\<close> \<open>0 < w\<close> w dr
        by (simp add: parser_feed_loop.simps [of cb p] Let_def)
      moreover have "frame_scan rest1 = Wait"
        using fs.scan_all_rest [of "parser_contents p @ take w data"] s1 by simp
      then have "length (parser_contents p2) < DEVMGR_PARSER_CAPACITY"
        using d2 True frame_scan_Wait_length [of rest1] by simp
      ultimately have "parser_inv p' \<and> k2 \<le> k' \<and> deliver cb fs2 c2 = (r, c', k' - k2) \<and>
          (r = DEVMGR_OK \<longrightarrow> parser_contents p' = rest)"
        using less.hyps [of "drop w data" p2 c2 k2 fs2] d2 True s2(1) \<open>0 < w\<close> \<open>data \<noteq> []\<close> by simp
      then show ?thesis using d2 s2(2) True by (simp add: deliver_append)
    qed
  qed
qed

subsection \<open>Streams of encoded frames\<close>

lemma get_le16_magic_iff:
  "devmgr_get_le16 (a # b # xs) = DEVMGR_PROTOCOL_MAGIC \<longleftrightarrow> a = 0x44 \<and> b = 0x4D"
proof -
  have "devmgr_get_le16 (a # b # xs) = devmgr_get_le16 [a, b]"
    by (simp add: devmgr_get_le16_def)
  moreover have "devmgr_get_le16 [a, b] = DEVMGR_PROTOCOL_MAGIC \<longleftrightarrow>
      [a, b] = devmgr_put_le16 DEVMGR_PROTOCOL_MAGIC"
    by (metis get_put_le16' length_Cons list.size(3) numeral_2_eq_2 put_get_le16)
  ultimately show ?thesis by (simp add: put_le16_magic)
qed

lemma frame_scan_wire:
  assumes "frame_wf f"
  shows "frame_scan (frame_wire f @ ys) = Emit f (length (frame_wire f))"
proof -
  let ?w = "frame_wire f"
  obtain n where n: "unat (devmgr_get_le16 (drop 10 ?w)) = n" by blast
  note d = frame_decode_Inr [OF frame_decode_wire [OF assms] n]
  have "frame_scan ?w = Emit f (length ?w)"
    using d(1-5) frame_decode_wire [OF assms] by (simp add: frame_scan_def n)
  then show ?thesis using fs.scan_stable [of ?w ys] by simp
qed

lemma scan_all_wires:
  "(\<forall>f \<in> set fs. frame_wf f) \<Longrightarrow> scan_all frame_scan (concat (map frame_wire fs) @ ys) =
    (fs @ fst (scan_all frame_scan ys), snd (scan_all frame_scan ys))"
proof (induction fs)
  case Nil
  then show ?case by simp
next
  case (Cons f fs)
  let ?r = "concat (map frame_wire fs) @ ys"
  have "frame_scan (frame_wire f @ ?r) = Emit f (length (frame_wire f))"
    using Cons.prems by (intro frame_scan_wire) simp
  moreover have "frame_wire f \<noteq> []" using Cons.prems length_frame_wire [of f] by force
  ultimately have "scan_all frame_scan (frame_wire f @ ?r) =
      (f # fst (scan_all frame_scan ?r), snd (scan_all frame_scan ?r))"
    by (subst scan_all.simps) (simp add: split_beta)
  then show ?case using Cons by simp
qed

text \<open>Bytes that cannot start a frame are skipped, whatever frame follows them.\<close>

lemma scan_all_garbage:
  "0x44 \<notin> set g \<Longrightarrow> ys \<noteq> [] \<Longrightarrow> scan_all frame_scan (g @ ys) = scan_all frame_scan ys"
proof (induction g)
  case Nil
  then show ?case by simp
next
  case (Cons b g)
  obtain c zs where cz: "g @ ys = c # zs" using Cons.prems(2) by (cases "g @ ys") auto
  then have "frame_scan (b # g @ ys) = Skip"
    using Cons.prems(1) by (simp add: frame_scan_def get_le16_magic_iff)
  then show ?case using Cons by (simp add: scan_all.simps [of frame_scan "b # g @ ys"])
qed

text \<open>
  Soundness: the frames found are in the stream, in order, disjoint, each as its exact
  encoding; everything else is skipped or still unfinished.
\<close>

lemma frame_scan_Emit_wire:
  assumes "frame_scan xs = Emit f n"
  shows "frame_wf f \<and> xs = frame_wire f @ drop n xs"
proof -
  obtain m where m: "unat (devmgr_get_le16 (drop 10 xs)) = m" by blast
  have "devmgr_frame_decode (take (16 + m) xs) = Inr f" "n = 16 + m"
    using assms m by (auto simp: frame_scan_def split: if_splits sum.splits)
  then show ?thesis using frame.dec_iff by (metis append_take_drop_id)
qed

lemma scan_all_sound:
  "scan_all frame_scan xs = (fs, rest) \<Longrightarrow>
   (\<forall>f \<in> set fs. frame_wf f) \<and>
   (\<exists>gs g. length gs = length fs \<and>
      xs = concat (map2 (\<lambda>g f. g @ frame_wire f) gs fs) @ g @ rest)"
proof (induction "length xs" arbitrary: xs fs rule: less_induct)
  case less
  show ?case
  proof (cases "frame_scan xs")
    case Wait
    then show ?thesis using less.prems by (simp add: fs.scan_all_quiet)
  next
    case Skip
    then obtain b ys where xs: "xs = b # ys" using fs.scan_Nil by (cases xs) auto
    with Skip less.prems have s: "scan_all frame_scan ys = (fs, rest)"
      by (simp add: scan_all.simps [of frame_scan "b # ys"])
    from less.hyps [OF _ s] xs obtain gs g where wf: "\<forall>f \<in> set fs. frame_wf f"
      and l: "length gs = length fs" and ys: "ys = concat (map2 (\<lambda>g f. g @ frame_wire f) gs fs) @ g @ rest"
      by auto
    have "\<exists>gs' g'. length gs' = length fs \<and>
        b # ys = concat (map2 (\<lambda>g f. g @ frame_wire f) gs' fs) @ g' @ rest"
    proof (cases fs)
      case Nil
      then show ?thesis using ys by (auto intro: exI [of _ "b # g"])
    next
      case (Cons f fs')
      then obtain h gs' where "gs = h # gs'" using l by (cases gs) auto
      then have "length ((b # h) # gs') = length fs \<and>
          b # ys = concat (map2 (\<lambda>g f. g @ frame_wire f) ((b # h) # gs') fs) @ g @ rest"
        using ys l Cons by simp
      then show ?thesis by blast
    qed
    then show ?thesis using wf xs by simp
  next
    case (Emit f n)
    then have n: "0 < n" "n \<le> length xs" using fs.scan_Emit by auto
    then have "xs \<noteq> []" by auto
    with Emit n less.prems obtain fs' where fs: "fs = f # fs'"
      and s: "scan_all frame_scan (drop n xs) = (fs', rest)"
      by (auto simp: scan_all.simps [of frame_scan xs] split: prod.splits)
    have f: "frame_wf f" "xs = frame_wire f @ drop n xs" using frame_scan_Emit_wire [OF Emit] by auto
    from less.hyps [OF _ s] n \<open>xs \<noteq> []\<close> obtain gs g where wf: "\<forall>f \<in> set fs'. frame_wf f"
      and l: "length gs = length fs'"
      and d: "drop n xs = concat (map2 (\<lambda>g f. g @ frame_wire f) gs fs') @ g @ rest"
      by auto
    have "length ([] # gs) = length fs \<and>
        xs = concat (map2 (\<lambda>g f. g @ frame_wire f) ([] # gs) fs) @ g @ rest"
      using l fs f(2) d by simp
    moreover have "\<forall>f \<in> set fs. frame_wf f" using wf f(1) fs by simp
    ultimately show ?thesis by blast
  qed
qed

subsection \<open>Feeding a stream in pieces\<close>

text \<open>A caller that feeds one read after another and stops at the first error.\<close>

fun feed_chunks ::
  "'c frame_callback \<Rightarrow> devmgr_parser \<Rightarrow> 'c \<Rightarrow> bytes list \<Rightarrow> devmgr_status \<times> devmgr_parser \<times> 'c \<times> nat" where
  "feed_chunks cb p c [] = (DEVMGR_OK, p, c, 0)"
| "feed_chunks cb p c (d # ds) =
    (case devmgr_parser_feed cb p d c of
       (r, p', c', n) \<Rightarrow>
         if r \<noteq> DEVMGR_OK then (r, p', c', n)
         else (case feed_chunks cb p' c' ds of (r', p'', c'', m) \<Rightarrow> (r', p'', c'', n + m)))"

definition parser_ready :: "devmgr_parser \<Rightarrow> bool" where
  "parser_ready p \<longleftrightarrow> parser_inv p \<and> frame_scan (parser_contents p) = Wait"

lemma parser_ready_room:
  "parser_ready p \<Longrightarrow> parser_inv p \<and> length (parser_contents p) < DEVMGR_PARSER_CAPACITY"
  using frame_scan_Wait_length [of "parser_contents p"] by (simp add: parser_ready_def)

lemma parser_init_ready:
  "fst (devmgr_parser_init p) = DEVMGR_OK \<and> parser_ready (snd (devmgr_parser_init p)) \<and>
   parser_contents (snd (devmgr_parser_init p)) = []"
  by (simp add: devmgr_parser_init_def devmgr_ring_init_def parser_ready_def parser_inv_def ring_inv_def
      ring_contents_def frame_scan_def Let_def)

lemma parser_feed_step:
  assumes "parser_ready p" and "devmgr_parser_feed cb p data c = (r, p', c', n)"
    and "scan_all frame_scan (parser_contents p @ data) = (fs, rest)"
  shows "parser_inv p' \<and> deliver cb fs c = (r, c', n) \<and>
    (r = DEVMGR_OK \<longrightarrow> parser_ready p' \<and> parser_contents p' = rest)"
proof -
  have "frame_scan rest = Wait" using fs.scan_all_rest [of "parser_contents p @ data"] assms(3) by simp
  then show ?thesis
    using parser_feed_loop_refines [of p cb c 0 data r p' c' n fs rest] parser_ready_room [OF assms(1)] assms
    by (simp add: devmgr_parser_feed_def parser_ready_def)
qed

lemma feed_chunks_refines:
  "parser_ready p \<Longrightarrow> feed_chunks cb p c ds = (r, p', c', n) \<Longrightarrow>
   scan_all frame_scan (parser_contents p @ concat ds) = (fs, rest) \<Longrightarrow>
   parser_inv p' \<and> deliver cb fs c = (r, c', n) \<and>
    (r = DEVMGR_OK \<longrightarrow> parser_ready p' \<and> parser_contents p' = rest)"
proof (induction ds arbitrary: p c fs n)
  case Nil
  then show ?case using fs.scan_all_quiet [of "parser_contents p"] by (auto simp: parser_ready_def)
next
  case (Cons d ds)
  obtain r1 p1 c1 n1 where f: "devmgr_parser_feed cb p d c = (r1, p1, c1, n1)"
    by (cases "devmgr_parser_feed cb p d c" rule: prod_cases4)
  obtain fs1 rest1 where s1: "scan_all frame_scan (parser_contents p @ d) = (fs1, rest1)"
    by (cases "scan_all frame_scan (parser_contents p @ d)")
  obtain fs2 where s2: "scan_all frame_scan (rest1 @ concat ds) = (fs2, rest)" "fs = fs1 @ fs2"
    using fs.scan_all_append [of "parser_contents p @ d" "concat ds"] s1 Cons.prems(3)
    by (cases "scan_all frame_scan (rest1 @ concat ds)") simp
  note step = parser_feed_step [OF Cons.prems(1) f s1]
  show ?case
  proof (cases "r1 = DEVMGR_OK")
    case False
    then show ?thesis using Cons.prems(2) f step s2(2) by (auto simp: deliver_append)
  next
    case True
    obtain r2 p2 c2 n2 where g: "feed_chunks cb p1 c1 ds = (r2, p2, c2, n2)"
      by (cases "feed_chunks cb p1 c1 ds" rule: prod_cases4)
    then have e: "r = r2" "p' = p2" "c' = c2" "n = n1 + n2" using Cons.prems(2) f True by auto
    from True step s2(1) have "scan_all frame_scan (parser_contents p1 @ concat ds) = (fs2, rest)" by simp
    from Cons.IH [OF _ _ this, of c1 n2] True step g e
    show ?thesis by (simp add: s2(2) deliver_append)
  qed
qed

text \<open>Frames with noise before each of them, where the noise has no byte that starts a frame.\<close>

abbreviation noisy_wire :: "(bytes \<times> devmgr_frame) list \<Rightarrow> bytes" where
  "noisy_wire gfs \<equiv> concat (map (\<lambda>(g, f). g @ frame_wire f) gfs)"

lemma scan_all_noisy:
  "(\<forall>(g, f) \<in> set gfs. 0x44 \<notin> set g \<and> frame_wf f) \<Longrightarrow>
   scan_all frame_scan (noisy_wire gfs) = (map snd gfs, [])"
proof (induction gfs)
  case Nil
  then show ?case by (simp add: fs.scan_all_quiet fs.scan_Nil)
next
  case (Cons gf gfs)
  obtain g f where gf: "gf = (g, f)" by (cases gf)
  let ?ys = "frame_wire f @ noisy_wire gfs"
  have wf: "frame_wf f" "0x44 \<notin> set g" using Cons.prems gf by auto
  then have "?ys \<noteq> []" using length_frame_wire [of f] by force
  then have "scan_all frame_scan (g @ ?ys) = scan_all frame_scan ?ys"
    using wf by (intro scan_all_garbage)
  moreover have "scan_all frame_scan ?ys = (f # map snd gfs, [])"
    using scan_all_wires [of "[f]" "noisy_wire gfs"] wf Cons by simp
  ultimately show ?case by (simp add: gf)
qed

text \<open>A callback that keeps every frame.\<close>

definition collect :: "devmgr_frame list frame_callback" where
  "collect f fs = (DEVMGR_OK, fs @ [f])"

lemma deliver_collect: "deliver collect fs gs = (DEVMGR_OK, gs @ fs, length fs)"
  by (induction fs arbitrary: gs) (simp_all add: collect_def)

subsection \<open>Invariants of the callback's context\<close>

text \<open>
  What every call of the callback on a well-formed frame keeps, a whole feed keeps, whatever
  the input is and also when the ring overflows or a frame is refused.
\<close>

definition keeps :: "'c frame_callback \<Rightarrow> ('c \<Rightarrow> bool) \<Rightarrow> bool" where
  "keeps cb P \<longleftrightarrow> (\<forall>f c. frame_wf f \<longrightarrow> P c \<longrightarrow> P (snd (cb f c)))"

lemma deliver_keeps:
  "keeps cb P \<Longrightarrow> \<forall>f \<in> set fs. frame_wf f \<Longrightarrow> P c \<Longrightarrow> deliver cb fs c = (r, c', n) \<Longrightarrow> P c'"
proof (induction fs arbitrary: c n)
  case Nil
  then show ?case by simp
next
  case (Cons f fs)
  obtain s d where cb: "cb f c = (s, d)" by (cases "cb f c")
  have "frame_wf f" using Cons.prems(2) by simp
  with Cons.prems(1,3) have "P (snd (cb f c))" unfolding keeps_def by blast
  then have "P d" using cb by simp
  with Cons cb show ?case by (cases "s = DEVMGR_OK") (auto split: prod.splits)
qed

lemma parser_drain_keeps:
  assumes "parser_inv p" and "keeps cb P" and "P c" and "parser_drain cb p c k = (r, p', c', k')"
  shows "parser_inv p' \<and> P c'"
proof -
  obtain fs rest where s: "scan_all frame_scan (parser_contents p) = (fs, rest)"
    by (cases "scan_all frame_scan (parser_contents p)")
  have d: "parser_inv p'" "deliver cb fs c = (r, c', k' - k)"
    using parser_drain_refines [OF assms(1,4) s] by simp_all
  have "\<forall>f \<in> set fs. frame_wf f" using scan_all_sound [OF s] by simp
  then show ?thesis using deliver_keeps [OF assms(2) _ assms(3) d(2)] d(1) by simp
qed

lemma parser_feed_loop_keeps:
  "parser_inv p \<Longrightarrow> keeps cb P \<Longrightarrow> P c \<Longrightarrow> parser_feed_loop cb p c k data = (r, p', c', k') \<Longrightarrow>
   parser_inv p' \<and> P c'"
proof (induction "length data" arbitrary: p c k data rule: less_induct)
  case less
  show ?case
  proof (cases "data = []")
    case True
    then show ?thesis using less.prems parser_drain_keeps by (simp add: parser_feed_loop.simps)
  next
    case False
    obtain w ring where w: "devmgr_ring_write (ps_input p) (Some data) = (w, ring)"
      by (cases "devmgr_ring_write (ps_input p) (Some data)")
    let ?p = "p\<lparr>ps_input := ring, ps_stats := (ps_stats p)\<lparr>bytes_received :=
        bytes_received (ps_stats p) + of_nat w\<rparr>\<rparr>"
    obtain r2 p2 c2 k2 where dr: "parser_drain cb ?p c k = (r2, p2, c2, k2)"
      by (cases "parser_drain cb ?p c k" rule: prod_cases4)
    have d: "parser_inv p2" "P c2"
      using parser_drain_keeps [OF parser_write(1) [OF less.prems(1) w] less.prems(2,3) dr] by simp_all
    consider "r2 \<noteq> DEVMGR_OK" | "r2 = DEVMGR_OK" "w = 0" | "r2 = DEVMGR_OK" "w \<noteq> 0" by blast
    then show ?thesis
    proof cases
      case 3
      then have "parser_feed_loop cb p2 c2 k2 (drop w data) = (r, p', c', k')"
        using less.prems(4) False w dr by (simp add: parser_feed_loop.simps [of cb p] Let_def)
      then show ?thesis using less.hyps [of "drop w data" p2 c2 k2] d less.prems(2) 3(2) False by simp
    qed (use less.prems(4) False w dr d in \<open>auto simp: parser_feed_loop.simps [of cb p] Let_def parser_inv_def\<close>)
  qed
qed

lemma parser_feed_keeps:
  "parser_inv p \<Longrightarrow> keeps cb P \<Longrightarrow> P c \<Longrightarrow> devmgr_parser_feed cb p data c = (r, p', c', k') \<Longrightarrow>
   parser_inv p' \<and> P c'"
  unfolding devmgr_parser_feed_def by (rule parser_feed_loop_keeps)

text \<open>A parser before its initialisation.\<close>

definition zero_parser :: devmgr_parser where
  "zero_parser = \<lparr>ps_input = \<lparr>rb_storage = [], rb_capacity = 0, rb_read_pos = 0, rb_size = 0\<rparr>,
     ps_stats = zero_stats\<rparr>"

subsection \<open>Properties\<close>

text \<open>
  C5. The parser is insensitive to slicing: fed with any sequence of reads, a ready parser
  calls the callback on exactly the frames that the scan of the whole stream (what was left
  over, then all the reads) finds, in order, up to the first one the callback refuses. It
  never overflows, and when nothing was refused it keeps exactly the unfinished rest and is
  ready again.
\<close>

theorem parser_feed_any_slicing:
  assumes "parser_ready p" and "feed_chunks cb p c ds = (r, p', c', n)"
    and "scan_all frame_scan (parser_contents p @ concat ds) = (fs, rest)"
  shows "parser_inv p' \<and> deliver cb fs c = (r, c', n) \<and>
    (r = DEVMGR_OK \<longrightarrow> parser_ready p' \<and> parser_contents p' = rest)"
  using assms by (rule feed_chunks_refines)

theorem parser_feed_any_slicing_witness:
  "\<exists>p'. parser_ready p' \<and> parser_contents p' = [0x44]"
proof -
  let ?p = "snd (devmgr_parser_init zero_parser)"
  have p: "parser_ready ?p" "parser_contents ?p = []" using parser_init_ready by auto
  obtain r p' c' n where f: "feed_chunks collect ?p [] [[1], [], [0x44]] = (r, p', c', n)"
    by (cases "feed_chunks collect ?p [] [[1], [], [0x44]]" rule: prod_cases4)
  have "scan_all frame_scan [1, 0x44] = ([], [0x44])"
    using scan_all_garbage [of "[1]" "[0x44]"] fs.scan_all_quiet [of "[0x44]"] by (simp add: frame_scan_def)
  with parser_feed_any_slicing [OF p(1) f, of "[]" "[0x44]"] p(2)
  show ?thesis by auto
qed

text \<open>
  C14. Frames survive the stream: well-formed frames sent one after another, with noise before
  each that holds no byte \<open>0x44\<close>, however the stream is sliced into reads, arrive at a
  fresh parser complete, unchanged and in order, and nothing is left in its buffer.
\<close>

theorem parser_roundtrip:
  assumes "\<forall>(g, f) \<in> set gfs. 0x44 \<notin> set g \<and> frame_wf f"
    and "concat ds = noisy_wire gfs"
  shows "\<exists>p'. feed_chunks collect (snd (devmgr_parser_init p)) [] ds =
      (DEVMGR_OK, p', map snd gfs, length gfs) \<and> parser_contents p' = []"
proof -
  obtain r p' c' n where f: "feed_chunks collect (snd (devmgr_parser_init p)) [] ds = (r, p', c', n)"
    by (cases "feed_chunks collect (snd (devmgr_parser_init p)) [] ds" rule: prod_cases4)
  with feed_chunks_refines [OF _ f, of "map snd gfs" "[]"] parser_init_ready [of p]
    scan_all_noisy [OF assms(1)] assms(2)
  show ?thesis by (simp add: deliver_collect)
qed

theorem parser_roundtrip_witness:
  "\<exists>p'. feed_chunks collect (snd (devmgr_parser_init zero_parser)) []
      [[9, 8], take 5 (frame_wire zero_frame), drop 5 (frame_wire zero_frame)] =
      (DEVMGR_OK, p', [zero_frame], 1) \<and> parser_contents p' = []"
  using parser_roundtrip [of "[([9, 8], zero_frame)]"
      "[[9, 8], take 5 (frame_wire zero_frame), drop 5 (frame_wire zero_frame)]" zero_parser]
  by (simp add: frame_wf_def zero_frame_def)

text \<open>
  C13. Nothing is invented: every frame the scan (and so, by the refinement, the parser) finds
  is well formed and stands in the stream as its exact encoding; the encodings are disjoint
  and in the order of delivery, and the only other bytes are skipped ones and the unfinished
  rest.
\<close>

theorem parser_sound:
  assumes "feed_chunks collect (snd (devmgr_parser_init p)) [] ds = (r, p', fs, n)"
  shows "r = DEVMGR_OK \<and> n = length fs \<and> (\<forall>f \<in> set fs. frame_wf f) \<and>
   (\<exists>gs g. length gs = length fs \<and>
      concat ds = concat (map2 (\<lambda>g f. g @ frame_wire f) gs fs) @ g @ parser_contents p')"
proof -
  obtain gs rest where s: "scan_all frame_scan (concat ds) = (gs, rest)"
    by (cases "scan_all frame_scan (concat ds)")
  with feed_chunks_refines [OF _ assms, of gs rest] parser_init_ready [of p]
  have "r = DEVMGR_OK \<and> n = length fs \<and> fs = gs \<and> parser_contents p' = rest"
    by (auto simp: deliver_collect)
  then show ?thesis using scan_all_sound [OF s] by simp
qed

theorem parser_sound_witness:
  "\<exists>p' fs n. feed_chunks collect (snd (devmgr_parser_init zero_parser)) [] [[1, 2], [3]] = (DEVMGR_OK, p', fs, n) \<and>
    (\<exists>gs g. length gs = length fs \<and>
      concat [[1, 2], [3]] = concat (map2 (\<lambda>g f. g @ frame_wire f) gs fs) @ g @ parser_contents p')"
proof -
  obtain r p' fs n where f: "feed_chunks collect (snd (devmgr_parser_init zero_parser)) [] [[1, 2], [3]] = (r, p', fs, n)"
    by (cases "feed_chunks collect (snd (devmgr_parser_init zero_parser)) [] [[1, 2], [3]]" rule: prod_cases4)
  from parser_sound [OF f] f show ?thesis by blast
qed

text \<open>
  After a refused frame the buffer can be full, and then the next feed loses its input:
  the drain that follows the empty write frees the ring, but the whole input is still
  reported as overflow and dropped.
\<close>

theorem parser_full_ring_drops_input:
  assumes "parser_inv p" and "length (parser_contents p) = DEVMGR_PARSER_CAPACITY" and "data \<noteq> []"
    and "scan_all frame_scan (parser_contents p) = (fs, rest)"
    and "deliver cb fs c = (DEVMGR_OK, c', n)"
  shows "\<exists>p'. devmgr_parser_feed cb p data c = (DEVMGR_ERROR_OVERFLOW, p', c', n) \<and>
    parser_contents p' = rest \<and> length (parser_contents p') < DEVMGR_PROTOCOL_MAX_FRAME"
proof -
  obtain w ring where w: "devmgr_ring_write (ps_input p) (Some data) = (w, ring)"
    by (cases "devmgr_ring_write (ps_input p) (Some data)")
  let ?p = "p\<lparr>ps_input := ring, ps_stats := (ps_stats p)\<lparr>bytes_received :=
      bytes_received (ps_stats p) + of_nat w\<rparr>\<rparr>"
  note pw = parser_write [OF assms(1) w]
  have w0: "w = 0" and same: "parser_contents ?p = parser_contents p" using pw(2,3) assms(2) by simp_all
  obtain r2 p2 c2 k2 where dr: "parser_drain cb ?p c 0 = (r2, p2, c2, k2)"
    by (cases "parser_drain cb ?p c 0" rule: prod_cases4)
  have ok: "r2 = DEVMGR_OK" "c2 = c'" "k2 = n" "parser_contents p2 = rest"
    using parser_drain_refines [OF pw(1) dr] same assms(4,5) by auto
  have "length rest < DEVMGR_PROTOCOL_MAX_FRAME"
    using fs.scan_all_rest [of "parser_contents p"] assms(4) by (intro frame_scan_Wait_length) simp
  then show ?thesis
    using assms(3) w w0 dr ok
    by (simp add: devmgr_parser_feed_def parser_feed_loop.simps [of cb p] Let_def)
qed

theorem parser_full_ring_drops_input_witness:
  "\<exists>p p'. devmgr_parser_feed collect p [0x44, 0x4D] [] = (DEVMGR_ERROR_OVERFLOW, p', [], 0) \<and>
    parser_contents p' = [0]"
proof -
  let ?p = "\<lparr>ps_input = \<lparr>rb_storage = replicate 8224 0, rb_capacity = 8224, rb_read_pos = 0, rb_size = 8224\<rparr>,
      ps_stats = zero_stats\<rparr>"
  have c: "parser_contents ?p = replicate 8224 0" by (rule nth_equalityI) (simp_all add: ring_contents_def)
  have "replicate 8224 (0::byte) = replicate 8223 0 @ [0]" using replicate_add [of 8223 1 "0::byte"] by simp
  then have "scan_all frame_scan (parser_contents ?p) = ([], [0])"
    using scan_all_garbage [of "replicate 8223 0" "[0]"] fs.scan_all_quiet [of "[0]"] c
    by (simp add: frame_scan_def)
  moreover have "parser_inv ?p" by (simp add: parser_inv_def ring_inv_def)
  ultimately show ?thesis
    using parser_full_ring_drops_input [of ?p "[0x44, 0x4D]" "[]" "[0]" collect "[]" "[]" 0] c by auto
qed

end
