(* ===== verification/Ipc_Codec.thy ===== *)
theory Ipc_Codec
  imports Frame
begin

section \<open>IPC messages (include/devmgr/ipc.h, src/ipc/codec.c)\<close>

text \<open>
  Requests and responses between \<open>devctl\<close> and the daemon: each
  connection of the stream socket carries one of each. As in \<open>Frame\<close> the payload is the list of bytes in use; the
  signed 32-bit status is a word read with \<open>sint\<close>. The decoders check the whole length
  of the message, so both directions are strict codecs (interpretations of
  \<open>byte_codec\<close>).
\<close>

abbreviation (input) DEVMGR_IPC_MAGIC :: u16 where "DEVMGR_IPC_MAGIC \<equiv> 0x5049"
abbreviation (input) DEVMGR_IPC_VERSION :: u8 where "DEVMGR_IPC_VERSION \<equiv> 1"
abbreviation (input) DEVMGR_IPC_REQUEST_HEADER_SIZE :: nat where "DEVMGR_IPC_REQUEST_HEADER_SIZE \<equiv> 8"
abbreviation (input) DEVMGR_IPC_RESPONSE_HEADER_SIZE :: nat where "DEVMGR_IPC_RESPONSE_HEADER_SIZE \<equiv> 12"
abbreviation (input) DEVMGR_IPC_MAX_PAYLOAD :: nat where "DEVMGR_IPC_MAX_PAYLOAD \<equiv> 4096"
abbreviation (input) DEVMGR_IPC_GET_TELEMETRY :: u8 where "DEVMGR_IPC_GET_TELEMETRY \<equiv> 0xF0"
abbreviation (input) DEVMGR_IPC_UPGRADE :: u8 where "DEVMGR_IPC_UPGRADE \<equiv> 0xF1"
abbreviation (input) DEVMGR_IPC_UPGRADE_STATUS :: u8 where "DEVMGR_IPC_UPGRADE_STATUS \<equiv> 0xF2"

record devmgr_ipc_request =
  rq_command :: u8
  rq_payload_length :: u32
  rq_payload :: bytes

record devmgr_ipc_response =
  rs_command :: u8
  rs_status :: u32
  rs_payload_length :: u32
  rs_payload :: bytes

text \<open>The status of a response, as the \<open>int32_t\<close> field holds it.\<close>

definition status_word :: "devmgr_status \<Rightarrow> u32" where
  "status_word st = of_int (status_code st)"

definition validate_header :: "bytes ptr \<Rightarrow> nat \<Rightarrow> devmgr_status" where
  "validate_header data header_size =
    (case data of
       None \<Rightarrow> DEVMGR_ERROR_INVALID
     | Some d \<Rightarrow>
         if length d < header_size then DEVMGR_ERROR_INVALID
         else if devmgr_get_le16 d \<noteq> DEVMGR_IPC_MAGIC \<or> d ! 2 \<noteq> DEVMGR_IPC_VERSION
         then DEVMGR_ERROR_PROTOCOL
         else DEVMGR_OK)"

definition devmgr_ipc_encode_request ::
  "devmgr_ipc_request ptr \<Rightarrow> bool \<Rightarrow> nat \<Rightarrow> bool \<Rightarrow> devmgr_status + bytes" where
  "devmgr_ipc_encode_request request output_null capacity encoded_length_null =
    (case request of
       None \<Rightarrow> Inl DEVMGR_ERROR_INVALID
     | Some r \<Rightarrow>
         if output_null \<or> encoded_length_null \<or> unat (rq_payload_length r) > DEVMGR_IPC_MAX_PAYLOAD
         then Inl DEVMGR_ERROR_INVALID
         else
           let total = DEVMGR_IPC_REQUEST_HEADER_SIZE + unat (rq_payload_length r) in
           if capacity < total then Inl DEVMGR_ERROR_OVERFLOW
           else Inr (devmgr_put_le16 DEVMGR_IPC_MAGIC @ [DEVMGR_IPC_VERSION, rq_command r] @
                     devmgr_put_le32 (rq_payload_length r) @
                     take (unat (rq_payload_length r)) (rq_payload r)))"

definition devmgr_ipc_decode_request :: "bytes ptr \<Rightarrow> bool \<Rightarrow> devmgr_status + devmgr_ipc_request" where
  "devmgr_ipc_decode_request data request_null =
    (let result = validate_header data DEVMGR_IPC_REQUEST_HEADER_SIZE in
     if result \<noteq> DEVMGR_OK \<or> request_null
     then Inl (if result \<noteq> DEVMGR_OK then result else DEVMGR_ERROR_INVALID)
     else
       let d = the data;
           payload_length = devmgr_get_le32 (drop 4 d)
       in if unat payload_length > DEVMGR_IPC_MAX_PAYLOAD then Inl DEVMGR_ERROR_LIMIT
          else if length d \<noteq> DEVMGR_IPC_REQUEST_HEADER_SIZE + unat payload_length
          then Inl DEVMGR_ERROR_INVALID
          else Inr \<lparr>rq_command = d ! 3, rq_payload_length = payload_length,
                    rq_payload = region d DEVMGR_IPC_REQUEST_HEADER_SIZE (unat payload_length)\<rparr>)"

definition devmgr_ipc_encode_response ::
  "devmgr_ipc_response ptr \<Rightarrow> bool \<Rightarrow> nat \<Rightarrow> bool \<Rightarrow> devmgr_status + bytes" where
  "devmgr_ipc_encode_response response output_null capacity encoded_length_null =
    (case response of
       None \<Rightarrow> Inl DEVMGR_ERROR_INVALID
     | Some r \<Rightarrow>
         if output_null \<or> encoded_length_null \<or> unat (rs_payload_length r) > DEVMGR_IPC_MAX_PAYLOAD
         then Inl DEVMGR_ERROR_INVALID
         else
           let total = DEVMGR_IPC_RESPONSE_HEADER_SIZE + unat (rs_payload_length r) in
           if capacity < total then Inl DEVMGR_ERROR_OVERFLOW
           else Inr (devmgr_put_le16 DEVMGR_IPC_MAGIC @ [DEVMGR_IPC_VERSION, rs_command r] @
                     devmgr_put_le32 (rs_status r) @ devmgr_put_le32 (rs_payload_length r) @
                     take (unat (rs_payload_length r)) (rs_payload r)))"

definition devmgr_ipc_decode_response :: "bytes ptr \<Rightarrow> bool \<Rightarrow> devmgr_status + devmgr_ipc_response" where
  "devmgr_ipc_decode_response data response_null =
    (let result = validate_header data DEVMGR_IPC_RESPONSE_HEADER_SIZE in
     if result \<noteq> DEVMGR_OK \<or> response_null
     then Inl (if result \<noteq> DEVMGR_OK then result else DEVMGR_ERROR_INVALID)
     else
       let d = the data;
           payload_length = devmgr_get_le32 (drop 8 d)
       in if unat payload_length > DEVMGR_IPC_MAX_PAYLOAD then Inl DEVMGR_ERROR_LIMIT
          else if length d \<noteq> DEVMGR_IPC_RESPONSE_HEADER_SIZE + unat payload_length
          then Inl DEVMGR_ERROR_INVALID
          else Inr \<lparr>rs_command = d ! 3, rs_status = devmgr_get_le32 (drop 4 d),
                    rs_payload_length = payload_length,
                    rs_payload = region d DEVMGR_IPC_RESPONSE_HEADER_SIZE (unat payload_length)\<rparr>)"

definition request_wf :: "devmgr_ipc_request \<Rightarrow> bool" where
  "request_wf r \<longleftrightarrow> unat (rq_payload_length r) \<le> DEVMGR_IPC_MAX_PAYLOAD \<and>
     length (rq_payload r) = unat (rq_payload_length r)"

definition response_wf :: "devmgr_ipc_response \<Rightarrow> bool" where
  "response_wf r \<longleftrightarrow> unat (rs_payload_length r) \<le> DEVMGR_IPC_MAX_PAYLOAD \<and>
     length (rs_payload r) = unat (rs_payload_length r)"

definition request_wire :: "devmgr_ipc_request \<Rightarrow> bytes" where
  "request_wire r = 0x49 # 0x50 # 1 # rq_command r # devmgr_put_le32 (rq_payload_length r) @ rq_payload r"

definition response_wire :: "devmgr_ipc_response \<Rightarrow> bytes" where
  "response_wire r = 0x49 # 0x50 # 1 # rs_command r # devmgr_put_le32 (rs_status r) @
     devmgr_put_le32 (rs_payload_length r) @ rs_payload r"

subsection \<open>Both directions are strict codecs\<close>

lemma put_le16_ipc_magic: "devmgr_put_le16 DEVMGR_IPC_MAGIC = [0x49, 0x50]"
  by (simp add: devmgr_put_le16_def)

lemma get_le16_ipc_magic_iff:
  "2 \<le> length d \<Longrightarrow> devmgr_get_le16 d = DEVMGR_IPC_MAGIC \<longleftrightarrow> take 2 d = [0x49, 0x50]"
  using put_get_le_take(1) [of d] put_le16_ipc_magic put_le16_inject by metis

lemma get_put_le32_Cons4 [simp]:
  "devmgr_get_le32 (drop 4 (a # b # c # d # devmgr_put_le32 v @ rest)) = v"
  "devmgr_get_le32 (drop 8 (a # b # c # d # devmgr_put_le32 u @ devmgr_put_le32 v @ rest)) = v"
  using get_put_le32 [of v rest] by (simp_all add: eval_nat_numeral)

lemma encode_request_wire:
  "request_wf r \<Longrightarrow> 8 + unat (rq_payload_length r) \<le> capacity \<Longrightarrow>
   devmgr_ipc_encode_request (Some r) False capacity False = Inr (request_wire r)"
  by (simp add: devmgr_ipc_encode_request_def request_wf_def request_wire_def put_le16_ipc_magic)

lemma encode_response_wire:
  "response_wf r \<Longrightarrow> 12 + unat (rs_payload_length r) \<le> capacity \<Longrightarrow>
   devmgr_ipc_encode_response (Some r) False capacity False = Inr (response_wire r)"
  by (simp add: devmgr_ipc_encode_response_def response_wf_def response_wire_def put_le16_ipc_magic)

lemma decode_request_wire:
  "request_wf r \<Longrightarrow> devmgr_ipc_decode_request (Some (request_wire r)) False = Inr r"
  by (simp add: devmgr_ipc_decode_request_def validate_header_def request_wire_def request_wf_def
      get_le16_ipc_magic_iff region_def)

lemma decode_response_wire:
  "response_wf r \<Longrightarrow> devmgr_ipc_decode_response (Some (response_wire r)) False = Inr r"
  by (simp add: devmgr_ipc_decode_response_def validate_header_def response_wire_def response_wf_def
      get_le16_ipc_magic_iff region_def)

lemma split_header8:
  assumes "8 \<le> length d"
  shows "d = take 2 d @ [d ! 2, d ! 3] @ take 4 (drop 4 d) @ drop 8 d"
proof -
  have "d = take 2 d @ take 2 (drop 2 d) @ take 4 (drop 4 d) @ drop 8 d"
    by (metis append_take_drop_id drop_drop numeral_Bit0 add.commute)
  moreover have "take 2 (drop 2 d) = [d ! 2, d ! 3]"
    using assms by (intro nth_equalityI) (auto simp: less_Suc_eq nth_Cons' numeral_2_eq_2 numeral_3_eq_3)
  ultimately show ?thesis by simp
qed

lemma request_wire_decode:
  assumes "devmgr_ipc_decode_request (Some d) False = Inr r"
  shows "request_wf r \<and> request_wire r = d"
proof -
  obtain n where n: "unat (devmgr_get_le32 (drop 4 d)) = n" by blast
  have h: "8 \<le> length d" "devmgr_get_le16 d = DEVMGR_IPC_MAGIC" "d ! 2 = 1" "n \<le> 4096"
      "length d = 8 + n"
    and r: "r = \<lparr>rq_command = d ! 3, rq_payload_length = devmgr_get_le32 (drop 4 d), rq_payload = region d 8 n\<rparr>"
    using assms n by (auto simp: devmgr_ipc_decode_request_def validate_header_def Let_def split: if_splits)
  have "d = [0x49, 0x50] @ [d ! 2, d ! 3] @ devmgr_put_le32 (devmgr_get_le32 (drop 4 d)) @ drop 8 d"
    using split_header8 [OF h(1)] h(1,2) get_le16_ipc_magic_iff [of d] put_get_le_take(2) [of "drop 4 d"]
    by simp
  moreover have "region d 8 n = drop 8 d" using h(5) by (simp add: region_def)
  ultimately show ?thesis using r n h(3-5) by (simp add: request_wf_def request_wire_def)
qed

lemma response_wire_decode:
  assumes "devmgr_ipc_decode_response (Some d) False = Inr r"
  shows "response_wf r \<and> response_wire r = d"
proof -
  obtain n where n: "unat (devmgr_get_le32 (drop 8 d)) = n" by blast
  have h: "12 \<le> length d" "devmgr_get_le16 d = DEVMGR_IPC_MAGIC" "d ! 2 = 1" "n \<le> 4096"
      "length d = 12 + n"
    and r: "r = \<lparr>rs_command = d ! 3, rs_status = devmgr_get_le32 (drop 4 d),
      rs_payload_length = devmgr_get_le32 (drop 8 d), rs_payload = region d 12 n\<rparr>"
    using assms n by (auto simp: devmgr_ipc_decode_response_def validate_header_def Let_def split: if_splits)
  have d8: "drop 8 d = devmgr_put_le32 (devmgr_get_le32 (drop 8 d)) @ drop 12 d"
    using put_get_le_take(2) [of "drop 8 d"] append_take_drop_id [of 4 "drop 8 d"] h(1) by simp
  have "d = [0x49, 0x50] @ [d ! 2, d ! 3] @ devmgr_put_le32 (devmgr_get_le32 (drop 4 d)) @ drop 8 d"
    using split_header8 [of d] h(1,2) get_le16_ipc_magic_iff [of d] put_get_le_take(2) [of "drop 4 d"]
    by simp
  moreover have "region d 12 n = drop 12 d" using h(5) by (simp add: region_def)
  ultimately show ?thesis using r n h(3-5) d8 by (simp add: response_wf_def response_wire_def)
qed

interpretation ipc_request: byte_codec request_wf request_wire
  "\<lambda>d. devmgr_ipc_decode_request (Some d) False"
  by unfold_locales (simp_all add: decode_request_wire request_wire_decode)

interpretation ipc_response: byte_codec response_wf response_wire
  "\<lambda>d. devmgr_ipc_decode_response (Some d) False"
  by unfold_locales (simp_all add: decode_response_wire response_wire_decode)

lemma status_word_inject: "status_word s = status_word t \<longleftrightarrow> s = t"
proof -
  have "sint (status_word s) = status_code s" for s
    by (simp add: status_word_def sint_status_code)
  then show ?thesis using status_code_inject by metis
qed

subsection \<open>Properties\<close>

text \<open>
  C34. IPC messages round-trip in both directions: a well-formed request or response encodes
  into every buffer that can hold it, and decoding the message gives it back.
\<close>

theorem ipc_encode_decode:
  assumes "request_wf q" and "8 + unat (rq_payload_length q) \<le> cap"
    and "response_wf r" and "12 + unat (rs_payload_length r) \<le> cap'"
  shows "\<exists>w v. devmgr_ipc_encode_request (Some q) False cap False = Inr w \<and>
    devmgr_ipc_decode_request (Some w) False = Inr q \<and>
    devmgr_ipc_encode_response (Some r) False cap' False = Inr v \<and>
    devmgr_ipc_decode_response (Some v) False = Inr r"
  using assms by (simp add: encode_request_wire encode_response_wire decode_request_wire decode_response_wire)

theorem ipc_encode_decode_witness:
  "\<exists>w v. devmgr_ipc_encode_request (Some \<lparr>rq_command = 1, rq_payload_length = 2, rq_payload = [7, 8]\<rparr>)
      False 10 False = Inr w \<and>
    devmgr_ipc_decode_request (Some w) False =
      Inr \<lparr>rq_command = 1, rq_payload_length = 2, rq_payload = [7, 8]\<rparr> \<and>
    devmgr_ipc_encode_response (Some \<lparr>rs_command = 1, rs_status = status_word DEVMGR_ERROR_BUSY,
      rs_payload_length = 0, rs_payload = []\<rparr>) False 12 False = Inr v \<and>
    devmgr_ipc_decode_response (Some v) False =
      Inr \<lparr>rs_command = 1, rs_status = status_word DEVMGR_ERROR_BUSY, rs_payload_length = 0, rs_payload = []\<rparr>"
  by (rule ipc_encode_decode) (simp_all add: request_wf_def response_wf_def)

text \<open>
  C33. The IPC decoders are strict: an accepted message is the one encoding of the message it
  decodes to, so truncated messages and messages with trailing bytes are refused.
\<close>

theorem ipc_decode_canonical:
  "(devmgr_ipc_decode_request (Some w) False = Inr q \<longrightarrow>
      devmgr_ipc_encode_request (Some q) False (length w) False = Inr w) \<and>
   (devmgr_ipc_decode_response (Some v) False = Inr r \<longrightarrow>
      devmgr_ipc_encode_response (Some r) False (length v) False = Inr v)"
proof (intro conjI impI)
  assume "devmgr_ipc_decode_request (Some w) False = Inr q"
  then have wf: "request_wf q" and w: "w = request_wire q" using request_wire_decode by auto
  then have "length w = 8 + unat (rq_payload_length q)" by (simp add: request_wire_def request_wf_def)
  with wf w show "devmgr_ipc_encode_request (Some q) False (length w) False = Inr w"
    by (simp add: encode_request_wire)
next
  assume "devmgr_ipc_decode_response (Some v) False = Inr r"
  then have wf: "response_wf r" and w: "v = response_wire r" using response_wire_decode by auto
  then have "length v = 12 + unat (rs_payload_length r)" by (simp add: response_wire_def response_wf_def)
  with wf w show "devmgr_ipc_encode_response (Some r) False (length v) False = Inr v"
    by (simp add: encode_response_wire)
qed

theorem ipc_decode_canonical_witness:
  "devmgr_ipc_encode_request (Some \<lparr>rq_command = 1, rq_payload_length = 0, rq_payload = []\<rparr>) False 8 False =
    Inr [0x49, 0x50, 1, 1, 0, 0, 0, 0] \<and>
   devmgr_ipc_encode_response (Some \<lparr>rs_command = 1, rs_status = 0, rs_payload_length = 0, rs_payload = []\<rparr>)
    False 12 False = Inr [0x49, 0x50, 1, 1, 0, 0, 0, 0, 0, 0, 0, 0]"
proof -
  let ?q = "\<lparr>rq_command = 1, rq_payload_length = 0, rq_payload = []\<rparr>"
  let ?r = "\<lparr>rs_command = 1, rs_status = 0, rs_payload_length = 0, rs_payload = []\<rparr>"
  have "request_wire ?q = [0x49, 0x50, 1, 1, 0, 0, 0, 0]"
    and "response_wire ?r = [0x49, 0x50, 1, 1, 0, 0, 0, 0, 0, 0, 0, 0]"
    by (simp_all add: request_wire_def response_wire_def devmgr_put_le32_def)
  moreover have "request_wf ?q" "response_wf ?r" by (simp_all add: request_wf_def response_wf_def)
  ultimately show ?thesis
    using ipc_decode_canonical [of "[0x49, 0x50, 1, 1, 0, 0, 0, 0]" ?q
        "[0x49, 0x50, 1, 1, 0, 0, 0, 0, 0, 0, 0, 0]" ?r] decode_request_wire [of ?q] decode_response_wire [of ?r]
    by (simp add: eval_nat_numeral)
qed

end
