(* ===== verification/Session.thy ===== *)
theory Session
  imports Frame
begin

section \<open>Device session (include/devmgr/session.h, src/device/session.c)\<close>

text \<open>
  Connection state machine, request/response correlation and retransmission. The session
  keeps one request in flight, numbers requests with nonzero 32-bit sequences, and resends
  the stored frame when its 64-bit nanosecond deadline has passed. Times are machine words;
  the C code's saturating addition is written out. A retransmit callback with its context is a
  function that returns a status and the new context.
\<close>

datatype devmgr_device_state =
    DEVMGR_DEVICE_DISCONNECTED
  | DEVMGR_DEVICE_CONNECTING
  | DEVMGR_DEVICE_HANDSHAKING
  | DEVMGR_DEVICE_READY
  | DEVMGR_DEVICE_STREAMING
  | DEVMGR_DEVICE_UPGRADING
  | DEVMGR_DEVICE_REBOOTING

datatype devmgr_session_event =
    DEVMGR_SESSION_CONNECT
  | DEVMGR_SESSION_TRANSPORT_CONNECTED
  | DEVMGR_SESSION_HANDSHAKE_OK
  | DEVMGR_SESSION_START_STREAM
  | DEVMGR_SESSION_STOP_STREAM
  | DEVMGR_SESSION_START_UPGRADE
  | DEVMGR_SESSION_UPGRADE_DONE
  | DEVMGR_SESSION_REBOOT
  | DEVMGR_SESSION_TRANSPORT_LOST
  | DEVMGR_SESSION_FAIL

record devmgr_retry_policy =
  timeout_ms :: u32
  retry_interval_ms :: u32
  max_retries :: u8

record devmgr_session_stats =
  ss_requests :: u64
  ss_responses :: u64
  ss_retries :: u64
  ss_timeouts :: u64
  ss_sequence_mismatches :: u64
  ss_duplicate_responses :: u64
  ss_unexpected_responses :: u64

record devmgr_pending_request =
  pe_frame :: devmgr_frame
  pe_policy :: devmgr_retry_policy
  pe_deadline_ns :: u64
  pe_retries_done :: u8
  pe_active :: bool

record devmgr_session =
  se_state :: devmgr_device_state
  se_next_sequence :: u32
  se_last_completed_sequence :: u32
  se_pending :: devmgr_pending_request
  se_stats :: devmgr_session_stats

type_synonym 'c retransmit_callback = "devmgr_frame \<Rightarrow> 'c \<Rightarrow> devmgr_status \<times> 'c"

abbreviation (input) UINT64_MAX :: u64 where "UINT64_MAX \<equiv> 0xFFFFFFFFFFFFFFFF"

definition milliseconds_to_ns :: "u32 \<Rightarrow> u64" where
  "milliseconds_to_ns milliseconds = ucast milliseconds * 1000000"

definition saturating_add :: "u64 \<Rightarrow> u64 \<Rightarrow> u64" where
  "saturating_add left right = (if UINT64_MAX - left < right then UINT64_MAX else left + right)"

definition zero_session_stats :: devmgr_session_stats where
  "zero_session_stats = \<lparr>ss_requests = 0, ss_responses = 0, ss_retries = 0, ss_timeouts = 0,
     ss_sequence_mismatches = 0, ss_duplicate_responses = 0, ss_unexpected_responses = 0\<rparr>"

definition zero_pending :: devmgr_pending_request where
  "zero_pending = \<lparr>pe_frame = zero_frame,
     pe_policy = \<lparr>timeout_ms = 0, retry_interval_ms = 0, max_retries = 0\<rparr>,
     pe_deadline_ns = 0, pe_retries_done = 0, pe_active = False\<rparr>"

definition devmgr_session_init :: "devmgr_session" where
  "devmgr_session_init = \<lparr>se_state = DEVMGR_DEVICE_DISCONNECTED, se_next_sequence = 1,
     se_last_completed_sequence = 0, se_pending = zero_pending, se_stats = zero_session_stats\<rparr>"

definition devmgr_session_cancel_request :: "devmgr_session \<Rightarrow> devmgr_session" where
  "devmgr_session_cancel_request s = s\<lparr>se_pending := (se_pending s)\<lparr>pe_active := False\<rparr>\<rparr>"

definition devmgr_session_transition ::
  "devmgr_session \<Rightarrow> devmgr_session_event \<Rightarrow> devmgr_status \<times> devmgr_session" where
  "devmgr_session_transition session event =
    (if event = DEVMGR_SESSION_TRANSPORT_LOST \<or> event = DEVMGR_SESSION_FAIL then
       (DEVMGR_OK, devmgr_session_cancel_request (session\<lparr>se_state := DEVMGR_DEVICE_DISCONNECTED\<rparr>))
     else
       let next_state =
         (case se_state session of
            DEVMGR_DEVICE_DISCONNECTED \<Rightarrow>
              if event = DEVMGR_SESSION_CONNECT then Some DEVMGR_DEVICE_CONNECTING else None
          | DEVMGR_DEVICE_CONNECTING \<Rightarrow>
              if event = DEVMGR_SESSION_TRANSPORT_CONNECTED then Some DEVMGR_DEVICE_HANDSHAKING else None
          | DEVMGR_DEVICE_HANDSHAKING \<Rightarrow>
              if event = DEVMGR_SESSION_HANDSHAKE_OK then Some DEVMGR_DEVICE_READY else None
          | DEVMGR_DEVICE_READY \<Rightarrow>
              if event = DEVMGR_SESSION_START_STREAM then Some DEVMGR_DEVICE_STREAMING
              else if event = DEVMGR_SESSION_START_UPGRADE then Some DEVMGR_DEVICE_UPGRADING
              else if event = DEVMGR_SESSION_REBOOT then Some DEVMGR_DEVICE_REBOOTING
              else None
          | DEVMGR_DEVICE_STREAMING \<Rightarrow>
              if event = DEVMGR_SESSION_STOP_STREAM then Some DEVMGR_DEVICE_READY
              else if event = DEVMGR_SESSION_REBOOT then Some DEVMGR_DEVICE_REBOOTING
              else None
          | DEVMGR_DEVICE_UPGRADING \<Rightarrow>
              if event = DEVMGR_SESSION_UPGRADE_DONE then Some DEVMGR_DEVICE_READY
              else if event = DEVMGR_SESSION_REBOOT then Some DEVMGR_DEVICE_REBOOTING
              else None
          | DEVMGR_DEVICE_REBOOTING \<Rightarrow>
              if event = DEVMGR_SESSION_TRANSPORT_CONNECTED then Some DEVMGR_DEVICE_HANDSHAKING else None)
       in case next_state of
            None \<Rightarrow> (DEVMGR_ERROR_STATE, session)
          | Some next_st \<Rightarrow> (DEVMGR_OK, session\<lparr>se_state := next_st\<rparr>))"

fun devmgr_device_state_string :: "devmgr_device_state \<Rightarrow> string" where
  "devmgr_device_state_string DEVMGR_DEVICE_DISCONNECTED = ''DISCONNECTED''"
| "devmgr_device_state_string DEVMGR_DEVICE_CONNECTING = ''CONNECTING''"
| "devmgr_device_state_string DEVMGR_DEVICE_HANDSHAKING = ''HANDSHAKING''"
| "devmgr_device_state_string DEVMGR_DEVICE_READY = ''READY''"
| "devmgr_device_state_string DEVMGR_DEVICE_STREAMING = ''STREAMING''"
| "devmgr_device_state_string DEVMGR_DEVICE_UPGRADING = ''UPGRADING''"
| "devmgr_device_state_string DEVMGR_DEVICE_REBOOTING = ''REBOOTING''"

text \<open>The sequence numbers: incremented with wrap-around, skipping zero.\<close>

definition next_seq :: "u32 \<Rightarrow> u32" where
  "next_seq v = (if v + 1 = 0 then 1 else v + 1)"

definition devmgr_session_begin_request ::
  "devmgr_session \<Rightarrow> u8 \<Rightarrow> u8 \<Rightarrow> bytes ptr \<Rightarrow> u16 \<Rightarrow> devmgr_retry_policy \<Rightarrow> u64 \<Rightarrow>
   (devmgr_status + devmgr_frame) \<times> devmgr_session" where
  "devmgr_session_begin_request session type flags payload payload_length policy now_ns =
    (if (payload = None \<and> payload_length \<noteq> 0) \<or> unat payload_length > DEVMGR_PROTOCOL_MAX_PAYLOAD \<or>
        timeout_ms policy = 0
     then (Inl DEVMGR_ERROR_INVALID, session)
     else if pe_active (se_pending session) then (Inl DEVMGR_ERROR_BUSY, session)
     else
       let request = \<lparr>fr_type = type, fr_flags = flags, fr_sequence = se_next_sequence session,
                      fr_payload_length = payload_length,
                      fr_payload = (case payload of None \<Rightarrow> [] | Some d \<Rightarrow> take (unat payload_length) d)\<rparr>;
           pending = \<lparr>pe_frame = request, pe_policy = policy,
                      pe_deadline_ns = saturating_add now_ns (milliseconds_to_ns (timeout_ms policy)),
                      pe_retries_done = 0, pe_active = True\<rparr>
       in (Inr request,
           session\<lparr>se_next_sequence := next_seq (se_next_sequence session), se_pending := pending,
             se_stats := (se_stats session)\<lparr>ss_requests := ss_requests (se_stats session) + 1\<rparr>\<rparr>))"

definition reply_type :: "u8 \<Rightarrow> bool" where
  "reply_type t \<longleftrightarrow> t = DEVMGR_MSG_ACK \<or> t = DEVMGR_MSG_NACK \<or> t = DEVMGR_MSG_ERROR"

definition devmgr_session_accept_response ::
  "devmgr_session \<Rightarrow> devmgr_frame \<Rightarrow> devmgr_status \<times> devmgr_session" where
  "devmgr_session_accept_response session response =
    (let pending = se_pending session; stats = se_stats session in
     if \<not> pe_active pending then
       (DEVMGR_ERROR_NOT_FOUND,
        if fr_sequence response = se_last_completed_sequence session
        then session\<lparr>se_stats := stats\<lparr>ss_duplicate_responses := ss_duplicate_responses stats + 1\<rparr>\<rparr>
        else session\<lparr>se_stats := stats\<lparr>ss_unexpected_responses := ss_unexpected_responses stats + 1\<rparr>\<rparr>)
     else if fr_sequence response \<noteq> fr_sequence (pe_frame pending) then
       (DEVMGR_ERROR_PROTOCOL,
        session\<lparr>se_stats := stats\<lparr>ss_sequence_mismatches := ss_sequence_mismatches stats + 1\<rparr>\<rparr>)
     else if fr_flags response AND DEVMGR_FRAME_RESPONSE = 0 \<and> \<not> reply_type (fr_type response) then
       (DEVMGR_ERROR_PROTOCOL,
        session\<lparr>se_stats := stats\<lparr>ss_unexpected_responses := ss_unexpected_responses stats + 1\<rparr>\<rparr>)
     else if fr_type response \<noteq> fr_type (pe_frame pending) \<and> \<not> reply_type (fr_type response) then
       (DEVMGR_ERROR_PROTOCOL,
        session\<lparr>se_stats := stats\<lparr>ss_unexpected_responses := ss_unexpected_responses stats + 1\<rparr>\<rparr>)
     else
       (DEVMGR_OK,
        session\<lparr>se_last_completed_sequence := fr_sequence response,
          se_pending := pending\<lparr>pe_active := False\<rparr>,
          se_stats := stats\<lparr>ss_responses := ss_responses stats + 1\<rparr>\<rparr>))"

definition mark_retry :: "devmgr_pending_request \<Rightarrow> devmgr_pending_request" where
  "mark_retry p = p\<lparr>pe_frame := (pe_frame p)\<lparr>fr_flags := fr_flags (pe_frame p) OR DEVMGR_FRAME_RETRY\<rparr>\<rparr>"

definition retry_interval :: "devmgr_retry_policy \<Rightarrow> u64" where
  "retry_interval policy =
    milliseconds_to_ns (if retry_interval_ms policy = 0 then timeout_ms policy
                        else retry_interval_ms policy)"

definition devmgr_session_tick ::
  "devmgr_session \<Rightarrow> u64 \<Rightarrow> 'c retransmit_callback \<Rightarrow> 'c \<Rightarrow> devmgr_status \<times> devmgr_session \<times> 'c" where
  "devmgr_session_tick session now_ns retransmit context =
    (let pending = se_pending session; stats = se_stats session in
     if \<not> pe_active pending \<or> now_ns < pe_deadline_ns pending then (DEVMGR_OK, session, context)
     else if pe_retries_done pending \<ge> max_retries (pe_policy pending) then
       (DEVMGR_ERROR_TIMEOUT,
        session\<lparr>se_pending := pending\<lparr>pe_active := False\<rparr>,
          se_stats := stats\<lparr>ss_timeouts := ss_timeouts stats + 1\<rparr>\<rparr>, context)
     else
       let marked = mark_retry pending in
       case retransmit (pe_frame marked) context of
         (result, context') \<Rightarrow>
           if result \<noteq> DEVMGR_OK then (result, session\<lparr>se_pending := marked\<rparr>, context')
           else (DEVMGR_OK,
                 session\<lparr>se_pending := marked\<lparr>pe_retries_done := pe_retries_done pending + 1,
                     pe_deadline_ns := saturating_add now_ns (retry_interval (pe_policy pending))\<rparr>,
                   se_stats := stats\<lparr>ss_retries := ss_retries stats + 1\<rparr>\<rparr>, context'))"

text \<open>The entry points with their guards on \<open>NULL\<close> pointers.\<close>

definition devmgr_session_init_ptr :: "devmgr_session ptr \<Rightarrow> devmgr_session ptr" where
  "devmgr_session_init_ptr session = map_option (\<lambda>_. devmgr_session_init) session"

definition devmgr_session_transition_ptr ::
  "devmgr_session ptr \<Rightarrow> devmgr_session_event \<Rightarrow> devmgr_status \<times> devmgr_session ptr" where
  "devmgr_session_transition_ptr session event =
    call_ptr DEVMGR_ERROR_INVALID (\<lambda>s. devmgr_session_transition s event) session"

definition devmgr_session_begin_request_ptr ::
  "devmgr_session ptr \<Rightarrow> u8 \<Rightarrow> u8 \<Rightarrow> bytes ptr \<Rightarrow> u16 \<Rightarrow> devmgr_retry_policy \<Rightarrow> u64 \<Rightarrow> bool \<Rightarrow>
   (devmgr_status + devmgr_frame) \<times> devmgr_session ptr" where
  "devmgr_session_begin_request_ptr session type flags payload payload_length policy now_ns request_null =
    (if request_null then (Inl DEVMGR_ERROR_INVALID, session)
     else call_ptr (Inl DEVMGR_ERROR_INVALID)
       (\<lambda>s. devmgr_session_begin_request s type flags payload payload_length policy now_ns) session)"

definition devmgr_session_accept_response_ptr ::
  "devmgr_session ptr \<Rightarrow> devmgr_frame ptr \<Rightarrow> devmgr_status \<times> devmgr_session ptr" where
  "devmgr_session_accept_response_ptr session response =
    (case response of
       None \<Rightarrow> (DEVMGR_ERROR_INVALID, session)
     | Some r \<Rightarrow> call_ptr DEVMGR_ERROR_INVALID (\<lambda>s. devmgr_session_accept_response s r) session)"

definition devmgr_session_tick_ptr ::
  "devmgr_session ptr \<Rightarrow> u64 \<Rightarrow> 'c retransmit_callback ptr \<Rightarrow> 'c \<Rightarrow>
   devmgr_status \<times> devmgr_session ptr \<times> 'c" where
  "devmgr_session_tick_ptr session now_ns retransmit context =
    (case (session, retransmit) of
       (Some s, Some f) \<Rightarrow>
         (case devmgr_session_tick s now_ns f context of (r, s', c') \<Rightarrow> (r, Some s', c'))
     | _ \<Rightarrow> (DEVMGR_ERROR_INVALID, session, context))"

definition devmgr_session_cancel_request_ptr :: "devmgr_session ptr \<Rightarrow> devmgr_session ptr" where
  "devmgr_session_cancel_request_ptr session = map_option devmgr_session_cancel_request session"

subsection \<open>Times and sequence numbers\<close>

lemma unat_milliseconds_to_ns: "unat (milliseconds_to_ns ms) = unat ms * 1000000"
proof -
  have "unat ms * 1000000 < 2 ^ 64" using unat_u32_less [of ms] by simp
  then show ?thesis
    by (simp add: milliseconds_to_ns_def unat_mult_lem [THEN iffD1] unat_word_ariths unsigned_ucast_eq take_bit_nat_eq_self)
qed

lemma unat_saturating_add:
  "unat (saturating_add a b) = min (unat a + unat b) (2 ^ 64 - 1)"
proof -
  have m: "unat (UINT64_MAX - a) = 2 ^ 64 - 1 - unat a"
    using unat_sub [of a UINT64_MAX] unat_u64_less [of a] by (simp add: word_le_nat_alt)
  show ?thesis
  proof (cases "UINT64_MAX - a < b")
    case True
    then have "2 ^ 64 - 1 - unat a < unat b" using m by (simp add: word_less_nat_alt)
    then show ?thesis using True by (simp add: saturating_add_def)
  next
    case False
    then have le: "unat b \<le> 2 ^ 64 - 1 - unat a" using m by (simp add: word_less_nat_alt not_less)
    moreover have "unat a < 2 ^ 64" using unat_u64_less [of a] by simp
    ultimately have "unat a + unat b < 2 ^ 64" by linarith
    then show ?thesis
      using False le by (simp add: saturating_add_def unat_word_ariths min_def)
  qed
qed

lemma saturating_add_ge: "a \<le> saturating_add a b"
proof -
  have "unat a < 2 ^ 64" using unat_u64_less [of a] by simp
  then show ?thesis by (simp add: word_le_nat_alt unat_saturating_add)
qed

lemma next_seq_nonzero [simp]: "next_seq v \<noteq> 0"
  by (simp add: next_seq_def)

lemma unat_next_seq: "v \<noteq> 0 \<Longrightarrow> unat (next_seq v) = unat v mod (2 ^ 32 - 1) + 1"
proof (cases "v + 1 = 0")
  case True
  then have "v = - 1" by (simp add: eq_neg_iff_add_eq_0)
  then have "v = 0xFFFFFFFF" by simp
  then show ?thesis by (simp add: next_seq_def)
next
  case False
  then have "unat (v + 1) = unat v + 1" by (simp add: unatSuc add.commute)
  moreover have "unat (v + 1) < 2 ^ 32" using unat_u32_less [of "v + 1"] by simp
  ultimately show ?thesis using False by (simp add: next_seq_def)
qed

lemma funpow_next_seq_nonzero: "v \<noteq> 0 \<Longrightarrow> (next_seq ^^ k) v \<noteq> 0"
  by (cases k) simp_all

lemma unat_funpow_next_seq:
  "v \<noteq> 0 \<Longrightarrow> unat ((next_seq ^^ k) v) = (unat v - 1 + k) mod (2 ^ 32 - 1) + 1"
proof (induction k)
  case 0
  moreover have "0 < unat v" "unat v < 2 ^ 32"
    using 0 unat_u32_less [of v] by (simp_all add: unat_gt_0)
  ultimately show ?case by simp
next
  case (Suc k)
  then show ?case
    by (simp add: unat_next_seq funpow_next_seq_nonzero mod_Suc_eq)
qed

lemma next_seq_fresh:
  assumes "v \<noteq> 0" and "0 < k" and "k < 2 ^ 32 - 1"
  shows "(next_seq ^^ k) v \<noteq> v"
proof
  assume "(next_seq ^^ k) v = v"
  moreover have "unat v < 2 ^ 32" "0 < unat v"
    using assms(1) unat_u32_less [of v] by (simp_all add: unat_gt_0)
  ultimately have "(unat v - 1 + k) mod (2 ^ 32 - 1) = (unat v - 1) mod (2 ^ 32 - 1)"
    using unat_funpow_next_seq [OF assms(1), of k] by simp
  then have "(2 ^ 32 - 1) dvd k"
    using mod_eq_dvd_iff_nat [of "unat v - 1" "unat v - 1 + k" "2 ^ 32 - 1"] by simp
  then show False using assms(2,3) dvd_imp_le [of "2 ^ 32 - 1" k] by simp
qed

subsection \<open>The documented connection diagram\<close>

text \<open>The edges of the device diagram in \<open>docs/state-machines.md\<close>.\<close>

inductive device_edge :: "devmgr_device_state \<Rightarrow> devmgr_session_event \<Rightarrow> devmgr_device_state \<Rightarrow> bool" where
  edge_connect: "device_edge DEVMGR_DEVICE_DISCONNECTED DEVMGR_SESSION_CONNECT DEVMGR_DEVICE_CONNECTING"
| edge_connected: "device_edge DEVMGR_DEVICE_CONNECTING DEVMGR_SESSION_TRANSPORT_CONNECTED DEVMGR_DEVICE_HANDSHAKING"
| edge_handshake: "device_edge DEVMGR_DEVICE_HANDSHAKING DEVMGR_SESSION_HANDSHAKE_OK DEVMGR_DEVICE_READY"
| edge_stream: "device_edge DEVMGR_DEVICE_READY DEVMGR_SESSION_START_STREAM DEVMGR_DEVICE_STREAMING"
| edge_stop: "device_edge DEVMGR_DEVICE_STREAMING DEVMGR_SESSION_STOP_STREAM DEVMGR_DEVICE_READY"
| edge_upgrade: "device_edge DEVMGR_DEVICE_READY DEVMGR_SESSION_START_UPGRADE DEVMGR_DEVICE_UPGRADING"
| edge_done: "device_edge DEVMGR_DEVICE_UPGRADING DEVMGR_SESSION_UPGRADE_DONE DEVMGR_DEVICE_READY"
| edge_reboot: "s \<in> {DEVMGR_DEVICE_READY, DEVMGR_DEVICE_STREAMING, DEVMGR_DEVICE_UPGRADING} \<Longrightarrow>
    device_edge s DEVMGR_SESSION_REBOOT DEVMGR_DEVICE_REBOOTING"
| edge_reconnected: "device_edge DEVMGR_DEVICE_REBOOTING DEVMGR_SESSION_TRANSPORT_CONNECTED DEVMGR_DEVICE_HANDSHAKING"
| edge_failure: "s \<noteq> DEVMGR_DEVICE_DISCONNECTED \<Longrightarrow>
    e \<in> {DEVMGR_SESSION_TRANSPORT_LOST, DEVMGR_SESSION_FAIL} \<Longrightarrow>
    device_edge s e DEVMGR_DEVICE_DISCONNECTED"

inductive_simps device_edge_simps: "device_edge s e t"

lemma device_edge_functional: "device_edge s e t \<Longrightarrow> device_edge s e u \<Longrightarrow> t = u"
  by (auto simp: device_edge_simps)

subsection \<open>The session invariant\<close>

text \<open>Everything the daemon does to a session; the buffer behind \<open>payload\<close> holds its length.\<close>

inductive session_step :: "devmgr_session \<Rightarrow> devmgr_session \<Rightarrow> bool" where
  step_transition: "devmgr_session_transition s e = (r, s') \<Longrightarrow> session_step s s'"
| step_begin: "(\<And>d. payload = Some d \<Longrightarrow> unat n \<le> length d) \<Longrightarrow>
    devmgr_session_begin_request s t f payload n policy now = (r, s') \<Longrightarrow> session_step s s'"
| step_accept: "devmgr_session_accept_response s f = (r, s') \<Longrightarrow> session_step s s'"
| step_tick: "devmgr_session_tick s now cb (c::unit) = (r, s', c') \<Longrightarrow> session_step s s'"
| step_cancel: "session_step s (devmgr_session_cancel_request s)"

inductive_cases session_stepE: "session_step s t"

definition session_inv :: "devmgr_session \<Rightarrow> bool" where
  "session_inv s \<longleftrightarrow> se_next_sequence s \<noteq> 0 \<and>
    (pe_active (se_pending s) \<longrightarrow>
       frame_wf (pe_frame (se_pending s)) \<and>
       fr_sequence (pe_frame (se_pending s)) \<noteq> 0 \<and>
       se_next_sequence s = next_seq (fr_sequence (pe_frame (se_pending s))) \<and>
       pe_retries_done (se_pending s) \<le> max_retries (pe_policy (se_pending s)) \<and>
       timeout_ms (pe_policy (se_pending s)) \<noteq> 0)"

lemma session_init_inv: "session_inv devmgr_session_init"
  by (simp add: session_inv_def devmgr_session_init_def zero_pending_def)

lemma transition_frame_rule:
  assumes "devmgr_session_transition s e = (r, s')"
  shows "se_next_sequence s' = se_next_sequence s" and "se_stats s' = se_stats s"
    and "se_pending s' = se_pending s \<or> se_pending s' = (se_pending s)\<lparr>pe_active := False\<rparr>"
  using assms
  by (auto simp: devmgr_session_transition_def devmgr_session_cancel_request_def Let_def
      split: if_splits devmgr_device_state.splits)

lemma transition_inv:
  "session_inv s \<Longrightarrow> devmgr_session_transition s e = (r, s') \<Longrightarrow> session_inv s'"
  using transition_frame_rule [of s e r s'] by (auto simp: session_inv_def)

lemma begin_request_inv:
  assumes "session_inv s" and "\<And>d. payload = Some d \<Longrightarrow> unat n \<le> length d"
    and "devmgr_session_begin_request s t f payload n policy now = (r, s')"
  shows "session_inv s'"
  using assms
  by (auto simp: session_inv_def devmgr_session_begin_request_def frame_wf_def Let_def
      split: if_splits option.splits)

lemma accept_response_inv:
  "session_inv s \<Longrightarrow> devmgr_session_accept_response s f = (r, s') \<Longrightarrow> session_inv s'"
  by (auto simp: session_inv_def devmgr_session_accept_response_def Let_def split: if_splits)

lemma mark_retry_simps [simp]:
  "pe_policy (mark_retry p) = pe_policy p" "pe_active (mark_retry p) = pe_active p"
  "pe_retries_done (mark_retry p) = pe_retries_done p" "pe_deadline_ns (mark_retry p) = pe_deadline_ns p"
  "fr_sequence (pe_frame (mark_retry p)) = fr_sequence (pe_frame p)"
  "frame_wf (pe_frame (mark_retry p)) = frame_wf (pe_frame p)"
  by (simp_all add: mark_retry_def frame_wf_def)

lemma inc_le_of_less: "a < b \<Longrightarrow> a + 1 \<le> b" for a b :: "'a::len word"
  by (rule inc_le)

lemma tick_inv:
  assumes "session_inv s" and "devmgr_session_tick s now cb c = (r, s', c')"
  shows "session_inv s'"
  using assms
  by (auto simp: session_inv_def devmgr_session_tick_def Let_def not_le inc_le_of_less
      split: if_splits prod.splits)

lemma cancel_inv: "session_inv s \<Longrightarrow> session_inv (devmgr_session_cancel_request s)"
  by (simp add: session_inv_def devmgr_session_cancel_request_def)

interpretation sess: inductive_invariant session_step session_inv
  by unfold_locales
     (auto elim!: session_stepE intro: transition_inv begin_request_inv accept_response_inv tick_inv cancel_inv)

subsection \<open>The retransmission schedule\<close>

fun session_ticks ::
  "devmgr_session \<Rightarrow> u64 list \<Rightarrow> 'c retransmit_callback \<Rightarrow> 'c \<Rightarrow> devmgr_status list \<times> devmgr_session \<times> 'c" where
  "session_ticks s [] cb c = ([], s, c)"
| "session_ticks s (t # ts) cb c =
    (case devmgr_session_tick s t cb c of
       (r, s', c') \<Rightarrow> (case session_ticks s' ts cb c' of (rs, s'', c'') \<Rightarrow> (r # rs, s'', c'')))"

text \<open>A transport that accepts every frame, and keeps them.\<close>

definition send_log :: "devmgr_frame list retransmit_callback" where
  "send_log f fs = (DEVMGR_OK, fs @ [f])"

text \<open>
  Times of ticks each of which finds the deadline passed: the first at or after the deadline
  \<open>d\<close>, every other at or after the deadline that the one before it sets.
\<close>

fun expired_times :: "u64 \<Rightarrow> u64 \<Rightarrow> u64 list \<Rightarrow> bool" where
  "expired_times d i [] = True"
| "expired_times d i (t # ts) = (d \<le> t \<and> expired_times (saturating_add t i) i ts)"

abbreviation retry_frame :: "devmgr_session \<Rightarrow> devmgr_frame" where
  "retry_frame s \<equiv> pe_frame (mark_retry (se_pending s))"

lemma mark_retry_idem: "pe_frame (mark_retry (mark_retry p)) = pe_frame (mark_retry p)"
  by (simp add: mark_retry_def or.assoc)

lemma tick_resends:
  assumes "pe_active (se_pending s)" and "pe_deadline_ns (se_pending s) \<le> t"
    and "pe_retries_done (se_pending s) < max_retries (pe_policy (se_pending s))"
  shows "\<exists>s'. devmgr_session_tick s t send_log c = (DEVMGR_OK, s', c @ [retry_frame s]) \<and>
    pe_active (se_pending s') \<and> pe_policy (se_pending s') = pe_policy (se_pending s) \<and>
    pe_retries_done (se_pending s') = pe_retries_done (se_pending s) + 1 \<and>
    pe_deadline_ns (se_pending s') = saturating_add t (retry_interval (pe_policy (se_pending s))) \<and>
    retry_frame s' = retry_frame s \<and> ss_retries (se_stats s') = ss_retries (se_stats s) + 1 \<and>
    ss_timeouts (se_stats s') = ss_timeouts (se_stats s)"
  using assms mark_retry_idem [of "se_pending s"]
  by (auto simp: devmgr_session_tick_def send_log_def Let_def not_less not_le mark_retry_def)

lemma session_ticks_schedule:
  "pe_active (se_pending s) \<Longrightarrow>
   unat (pe_retries_done (se_pending s)) + n = unat (max_retries (pe_policy (se_pending s))) \<Longrightarrow>
   length ts = n + 1 \<Longrightarrow>
   expired_times (pe_deadline_ns (se_pending s)) (retry_interval (pe_policy (se_pending s))) ts \<Longrightarrow>
   \<exists>s'. session_ticks s ts send_log c =
     (replicate n DEVMGR_OK @ [DEVMGR_ERROR_TIMEOUT], s', c @ replicate n (retry_frame s)) \<and>
     \<not> pe_active (se_pending s') \<and> ss_retries (se_stats s') = ss_retries (se_stats s) + of_nat n \<and>
     ss_timeouts (se_stats s') = ss_timeouts (se_stats s) + 1"
proof (induction n arbitrary: s ts c)
  case 0
  then obtain t where "ts = [t]" by (cases ts) auto
  with 0 show ?case by (auto simp: devmgr_session_tick_def word_le_nat_alt not_less Let_def)
next
  case (Suc n)
  then obtain t us where ts: "ts = t # us" by (cases ts) auto
  have lt: "pe_retries_done (se_pending s) < max_retries (pe_policy (se_pending s))"
    using Suc.prems(2) by (simp add: word_less_nat_alt)
  have due: "pe_deadline_ns (se_pending s) \<le> t" using Suc.prems(4) ts by simp
  obtain s' where s': "devmgr_session_tick s t send_log c = (DEVMGR_OK, s', c @ [retry_frame s])"
    "pe_active (se_pending s')" "pe_policy (se_pending s') = pe_policy (se_pending s)"
    "pe_retries_done (se_pending s') = pe_retries_done (se_pending s) + 1"
    "pe_deadline_ns (se_pending s') = saturating_add t (retry_interval (pe_policy (se_pending s)))"
    "retry_frame s' = retry_frame s" "ss_retries (se_stats s') = ss_retries (se_stats s) + 1"
    "ss_timeouts (se_stats s') = ss_timeouts (se_stats s)"
    using tick_resends [OF Suc.prems(1) due lt, of c] by (elim exE conjE)
  have "unat (pe_retries_done (se_pending s) + 1) = unat (pe_retries_done (se_pending s)) + 1"
    using lt unat_u8_less [of "max_retries (pe_policy (se_pending s))"]
    by (simp add: word_less_nat_alt unat_word_ariths)
  then have "\<exists>s''. session_ticks s' us send_log (c @ [retry_frame s]) =
     (replicate n DEVMGR_OK @ [DEVMGR_ERROR_TIMEOUT], s'', (c @ [retry_frame s]) @ replicate n (retry_frame s')) \<and>
     \<not> pe_active (se_pending s'') \<and> ss_retries (se_stats s'') = ss_retries (se_stats s') + of_nat n \<and>
     ss_timeouts (se_stats s'') = ss_timeouts (se_stats s') + 1"
    using Suc.prems ts s' by (intro Suc.IH) simp_all
  then show ?case using ts s' by (auto simp: add.assoc)
qed

subsection \<open>Properties\<close>



text \<open>
  C30. Whatever sequence of transitions, requests, responses, ticks and cancellations a
  session goes through, the next sequence number is never zero, and a request in flight is a
  well-formed frame with a nonzero sequence number, the last one issued, which has been
  resent at most as often as its policy allows.
\<close>

theorem session_reachable_invariant:
  assumes "reach session_step devmgr_session_init s"
  shows "se_next_sequence s \<noteq> 0 \<and>
    (pe_active (se_pending s) \<longrightarrow>
       frame_wf (pe_frame (se_pending s)) \<and> fr_sequence (pe_frame (se_pending s)) \<noteq> 0 \<and>
       se_next_sequence s = next_seq (fr_sequence (pe_frame (se_pending s))) \<and>
       pe_retries_done (se_pending s) \<le> max_retries (pe_policy (se_pending s)))"
  using sess.reach_preserves [OF assms session_init_inv] by (simp add: session_inv_def)

definition witness_policy :: devmgr_retry_policy where
  "witness_policy = \<lparr>timeout_ms = 1000, retry_interval_ms = 500, max_retries = 2\<rparr>"

theorem session_reachable_invariant_witness:
  "se_next_sequence (snd (devmgr_session_begin_request devmgr_session_init DEVMGR_MSG_PING 2 None 0
     witness_policy 0)) \<noteq> 0"
proof -
  let ?b = "devmgr_session_begin_request devmgr_session_init DEVMGR_MSG_PING 2 None 0 witness_policy 0"
  have "session_step devmgr_session_init (snd ?b)"
    by (rule step_begin [where payload = None and r = "fst ?b"]) (simp_all add: prod.collapse)
  then show ?thesis using session_reachable_invariant [of "snd ?b"] by (blast intro: reach_step)
qed

text \<open>
  C21. Bounded retransmission: when no response comes and the transport accepts what it is
  given, a request that may still be resent \<open>n\<close> times is resent exactly \<open>n\<close> times, each
  time as the stored frame with the retry flag, one resend per expired deadline; the next
  expired deadline reports \<open>DEVMGR_ERROR_TIMEOUT\<close> once and ends the request.
\<close>

theorem session_retry_bounded:
  assumes "pe_active (se_pending s)"
    and "unat (pe_retries_done (se_pending s)) + n = unat (max_retries (pe_policy (se_pending s)))"
    and "length ts = n + 1"
    and "expired_times (pe_deadline_ns (se_pending s)) (retry_interval (pe_policy (se_pending s))) ts"
  shows "\<exists>s'. session_ticks s ts send_log [] =
     (replicate n DEVMGR_OK @ [DEVMGR_ERROR_TIMEOUT], s', replicate n (retry_frame s)) \<and>
     \<not> pe_active (se_pending s') \<and> ss_retries (se_stats s') = ss_retries (se_stats s) + of_nat n \<and>
     ss_timeouts (se_stats s') = ss_timeouts (se_stats s) + 1"
  using session_ticks_schedule [OF assms, of "[]"] by simp

theorem session_retry_bounded_witness:
  "\<exists>s'. session_ticks (snd (devmgr_session_begin_request devmgr_session_init DEVMGR_MSG_PING 2 None 0
       witness_policy 0)) [1000000000, 1500000000, 2000000000] send_log [] =
     ([DEVMGR_OK, DEVMGR_OK, DEVMGR_ERROR_TIMEOUT], s',
      replicate 2 \<lparr>fr_type = 1, fr_flags = 6, fr_sequence = 1, fr_payload_length = 0, fr_payload = []\<rparr>) \<and>
     \<not> pe_active (se_pending s')"
proof -
  let ?s = "snd (devmgr_session_begin_request devmgr_session_init DEVMGR_MSG_PING 2 None 0 witness_policy 0)"
  have p: "se_pending ?s = \<lparr>pe_frame = \<lparr>fr_type = 1, fr_flags = 2, fr_sequence = 1, fr_payload_length = 0,
      fr_payload = []\<rparr>, pe_policy = witness_policy, pe_deadline_ns = 1000000000, pe_retries_done = 0,
      pe_active = True\<rparr>"
    by (simp add: devmgr_session_begin_request_def devmgr_session_init_def zero_pending_def witness_policy_def
        milliseconds_to_ns_def saturating_add_def Let_def)
  have "retry_interval witness_policy = 500000000"
    by (simp add: retry_interval_def witness_policy_def milliseconds_to_ns_def)
  then have "expired_times 1000000000 (retry_interval witness_policy) [1000000000, 1500000000, 2000000000]"
    by (simp add: saturating_add_def)
  moreover have "retry_frame ?s = \<lparr>fr_type = 1, fr_flags = 6, fr_sequence = 1, fr_payload_length = 0, fr_payload = []\<rparr>"
    unfolding p by (simp add: mark_retry_def)
  moreover have "unat (max_retries witness_policy) = 2" by (simp add: witness_policy_def)
  ultimately show ?thesis
    using session_retry_bounded [of ?s 2 "[1000000000, 1500000000, 2000000000]"]
    by (auto simp: p numeral_2_eq_2)
qed

text \<open>
  C20. A request is completed at most once and only by its own response: an accepted response
  carries the sequence number of the request in flight, and after it nothing is accepted any
  more until a new request begins; a late response to one of the last \<open>2 ^ 32 - 2\<close> earlier
  requests is counted as a mismatch and leaves the request in flight as it is.
\<close>

theorem session_at_most_once:
  assumes "devmgr_session_accept_response s f = (DEVMGR_OK, s')"
    and "pe_active (se_pending t)" and "v \<noteq> 0" and "0 < k" and "k < 2 ^ 32 - 1"
    and "fr_sequence (pe_frame (se_pending t)) = (next_seq ^^ k) v" and "fr_sequence g = v"
  shows "pe_active (se_pending s) \<and> fr_sequence f = fr_sequence (pe_frame (se_pending s)) \<and>
    (fr_type f = fr_type (pe_frame (se_pending s)) \<or> reply_type (fr_type f)) \<and>
    fst (devmgr_session_accept_response s' h) = DEVMGR_ERROR_NOT_FOUND \<and>
    fst (devmgr_session_accept_response t g) = DEVMGR_ERROR_PROTOCOL \<and>
    se_pending (snd (devmgr_session_accept_response t g)) = se_pending t"
proof -
  have "fr_sequence g \<noteq> fr_sequence (pe_frame (se_pending t))"
    using next_seq_fresh [OF assms(3-5)] assms(6,7) by simp
  then have "fst (devmgr_session_accept_response t g) = DEVMGR_ERROR_PROTOCOL \<and>
      se_pending (snd (devmgr_session_accept_response t g)) = se_pending t"
    using assms(2) by (simp add: devmgr_session_accept_response_def Let_def)
  then show ?thesis
    using assms(1) by (auto simp: devmgr_session_accept_response_def Let_def split: if_splits)
qed

theorem session_at_most_once_witness:
  "\<exists>s' s'' f. devmgr_session_accept_response s' f = (DEVMGR_OK, s'') \<and>
    (\<forall>h. fst (devmgr_session_accept_response s'' h) = DEVMGR_ERROR_NOT_FOUND)"
proof -
  let ?s = "snd (devmgr_session_begin_request devmgr_session_init DEVMGR_MSG_PING 2 None 0 witness_policy 0)"
  let ?t = "snd (devmgr_session_begin_request (devmgr_session_cancel_request ?s) DEVMGR_MSG_PING 2 None 0
      witness_policy 0)"
  let ?f = "zero_frame\<lparr>fr_type := DEVMGR_MSG_ACK, fr_sequence := 1\<rparr>"
  have p: "pe_active (se_pending ?s)" "fr_sequence (pe_frame (se_pending ?s)) = 1"
    and q: "pe_active (se_pending ?t)" "fr_sequence (pe_frame (se_pending ?t)) = (next_seq ^^ 1) 1"
    by (simp_all add: devmgr_session_begin_request_def devmgr_session_init_def zero_pending_def
        witness_policy_def devmgr_session_cancel_request_def Let_def)
  then obtain s' where s': "devmgr_session_accept_response ?s ?f = (DEVMGR_OK, s')"
    by (simp add: devmgr_session_accept_response_def reply_type_def Let_def)
  then have "fst (devmgr_session_accept_response s' h) = DEVMGR_ERROR_NOT_FOUND" for h
    using session_at_most_once [OF s' q(1) _ _ _ q(2), of ?f h] by simp
  then show ?thesis using s' by blast
qed

text \<open>
  Deadlines do not wrap: a request that begins at \<open>now\<close> expires its timeout later,
  computed exactly in nanoseconds and capped at the largest 64-bit time, and a tick before
  that does nothing at all.
\<close>

theorem session_deadline_exact:
  assumes "devmgr_session_begin_request s t f payload n policy now = (Inr q, s')"
  shows "unat (pe_deadline_ns (se_pending s')) =
      min (unat now + unat (timeout_ms policy) * 1000000) (2 ^ 64 - 1) \<and>
    (later < pe_deadline_ns (se_pending s') \<longrightarrow>
      devmgr_session_tick s' later cb c = (DEVMGR_OK, s', c))"
proof -
  have "pe_deadline_ns (se_pending s') = saturating_add now (milliseconds_to_ns (timeout_ms policy))"
    using assms by (auto simp: devmgr_session_begin_request_def Let_def split: if_splits)
  then show ?thesis
    by (simp add: unat_saturating_add unat_milliseconds_to_ns devmgr_session_tick_def Let_def)
qed

theorem session_deadline_exact_witness:
  "unat (pe_deadline_ns (se_pending (snd (devmgr_session_begin_request devmgr_session_init DEVMGR_MSG_PING 2
     None 0 witness_policy 0xFFFFFFFFFFFFFFF0)))) = 2 ^ 64 - 1"
proof -
  let ?b = "devmgr_session_begin_request devmgr_session_init DEVMGR_MSG_PING 2 None 0 witness_policy
      0xFFFFFFFFFFFFFFF0"
  obtain q where "fst ?b = Inr q"
    by (simp add: devmgr_session_begin_request_def devmgr_session_init_def zero_pending_def witness_policy_def
        Let_def)
  then have "?b = (Inr q, snd ?b)" by (metis prod.collapse)
  from session_deadline_exact [OF this, of 0 send_log "[]"] show ?thesis by (simp add: witness_policy_def)
qed

end
