(* ===== verification/Upgrade.thy ===== *)
theory Upgrade
  imports Frame
begin

section \<open>Upgrade state machine (include/devmgr/upgrade.h, src/upgrade/upgrade.c)\<close>

text \<open>
  The host side of a firmware upgrade: which request comes next and how a correlated response
  moves the machine on. The image is borrowed memory, a list of bytes behind a pointer; sizes
  are \<open>size_t\<close> (nat), wire fields keep their width. \<open>up_version\<close> is the C string in the
  version array, without its terminating zero.
\<close>

abbreviation (input) DEVMGR_UPGRADE_VERSION_MAX :: nat where "DEVMGR_UPGRADE_VERSION_MAX \<equiv> 31"
abbreviation (input) DEVMGR_UPGRADE_DEFAULT_CHUNK :: u16 where "DEVMGR_UPGRADE_DEFAULT_CHUNK \<equiv> 1024"
abbreviation (input) UINT32_MAX :: nat where "UINT32_MAX \<equiv> 4294967295"

datatype devmgr_upgrade_state =
    DEVMGR_UPGRADE_IDLE
  | DEVMGR_UPGRADE_VALIDATING
  | DEVMGR_UPGRADE_ENTER_BOOTLOADER
  | DEVMGR_UPGRADE_BEGIN
  | DEVMGR_UPGRADE_TRANSFER
  | DEVMGR_UPGRADE_RECOVER
  | DEVMGR_UPGRADE_END
  | DEVMGR_UPGRADE_VERIFY
  | DEVMGR_UPGRADE_ACTIVATE
  | DEVMGR_UPGRADE_REBOOT
  | DEVMGR_UPGRADE_COMPLETE
  | DEVMGR_UPGRADE_ERROR

record devmgr_upgrade =
  up_state :: devmgr_upgrade_state
  up_image_data :: "bytes ptr"
  up_image_size :: nat
  up_image_crc :: u32
  up_version :: bytes
  up_session_id :: u32
  up_offset :: u32
  up_last_chunk_end :: u32
  up_chunk_size :: u16
  up_chunks_sent :: u32
  up_recovery_attempts :: u8

definition devmgr_upgrade_init :: "devmgr_upgrade" where
  "devmgr_upgrade_init = \<lparr>up_state = DEVMGR_UPGRADE_IDLE, up_image_data = None, up_image_size = 0,
     up_image_crc = 0, up_version = [], up_session_id = 0, up_offset = 0, up_last_chunk_end = 0,
     up_chunk_size = 0, up_chunks_sent = 0, up_recovery_attempts = 0\<rparr>"

definition devmgr_upgrade_start ::
  "devmgr_upgrade \<Rightarrow> bytes ptr \<Rightarrow> nat \<Rightarrow> u32 \<Rightarrow> bytes ptr \<Rightarrow> u16 \<Rightarrow> devmgr_status \<times> devmgr_upgrade" where
  "devmgr_upgrade_start upgrade image_data image_size image_crc version chunk_size =
    (if image_data = None \<or> image_size = 0 \<or> image_size > UINT32_MAX \<or> version = None \<or>
        chunk_size = 0 \<or> unat chunk_size > DEVMGR_PROTOCOL_MAX_PAYLOAD - 8
     then (DEVMGR_ERROR_INVALID, upgrade)
     else if length (the version) = 0 \<or> length (the version) > DEVMGR_UPGRADE_VERSION_MAX
     then (DEVMGR_ERROR_INVALID, upgrade)
     else (DEVMGR_OK,
           devmgr_upgrade_init\<lparr>up_image_data := image_data, up_image_size := image_size,
             up_image_crc := image_crc, up_version := the version, up_chunk_size := chunk_size,
             up_state := DEVMGR_UPGRADE_ENTER_BOOTLOADER\<rparr>))"

text \<open>A request frame: the fields the switch sets, then the common flags.\<close>

definition request_frame :: "u8 \<Rightarrow> u16 \<Rightarrow> bytes \<Rightarrow> devmgr_frame" where
  "request_frame type payload_length payload =
    \<lparr>fr_type = type, fr_flags = DEVMGR_FRAME_ACK_REQUIRED, fr_sequence = 0,
     fr_payload_length = payload_length, fr_payload = payload\<rparr>"

definition devmgr_upgrade_build_request ::
  "devmgr_upgrade \<Rightarrow> (devmgr_status + devmgr_frame) \<times> devmgr_upgrade" where
  "devmgr_upgrade_build_request u =
    (case up_state u of
       DEVMGR_UPGRADE_ENTER_BOOTLOADER \<Rightarrow> (Inr (request_frame DEVMGR_MSG_ENTER_BOOTLOADER 0 []), u)
     | DEVMGR_UPGRADE_BEGIN \<Rightarrow>
         let version_length = length (up_version u) + 1 in
         (Inr (request_frame DEVMGR_MSG_FW_BEGIN (of_nat (10 + version_length))
            (devmgr_put_le32 (of_nat (up_image_size u)) @ devmgr_put_le32 (up_image_crc u) @
             devmgr_put_le16 (up_chunk_size u) @ up_version u @ [0])), u)
     | DEVMGR_UPGRADE_TRANSFER \<Rightarrow>
         if unat (up_offset u) \<ge> up_image_size u then (Inl DEVMGR_ERROR_STATE, u)
         else
           let remaining = up_image_size u - unat (up_offset u);
               chunk = (if remaining < unat (up_chunk_size u) then remaining else unat (up_chunk_size u))
           in (Inr (request_frame DEVMGR_MSG_FW_DATA (of_nat (8 + chunk))
                 (devmgr_put_le32 (up_session_id u) @ devmgr_put_le32 (up_offset u) @
                  region (the (up_image_data u)) (unat (up_offset u)) chunk)),
               u\<lparr>up_last_chunk_end := up_offset u + of_nat chunk, up_chunks_sent := up_chunks_sent u + 1\<rparr>)
     | DEVMGR_UPGRADE_RECOVER \<Rightarrow>
         if up_session_id u = 0 then (Inl DEVMGR_ERROR_STATE, u)
         else (Inr (request_frame DEVMGR_MSG_FW_STATUS 4 (devmgr_put_le32 (up_session_id u))), u)
     | DEVMGR_UPGRADE_END \<Rightarrow>
         (Inr (request_frame DEVMGR_MSG_FW_END 4 (devmgr_put_le32 (up_session_id u))), u)
     | DEVMGR_UPGRADE_VERIFY \<Rightarrow>
         (Inr (request_frame DEVMGR_MSG_FW_VERIFY 4 (devmgr_put_le32 (up_session_id u))), u)
     | DEVMGR_UPGRADE_ACTIVATE \<Rightarrow>
         (Inr (request_frame DEVMGR_MSG_FW_ACTIVATE 4 (devmgr_put_le32 (up_session_id u))), u)
     | DEVMGR_UPGRADE_REBOOT \<Rightarrow> (Inr (request_frame DEVMGR_MSG_REBOOT 1 [0]), u)
     | _ \<Rightarrow> (Inl DEVMGR_ERROR_STATE, u))"

text \<open>The states a transfer offset leads to: done, or on with the next chunk.\<close>

definition after_offset :: "devmgr_upgrade \<Rightarrow> devmgr_upgrade" where
  "after_offset u = u\<lparr>up_state := if unat (up_offset u) = up_image_size u then DEVMGR_UPGRADE_END
                                 else DEVMGR_UPGRADE_TRANSFER\<rparr>"

abbreviation (input) upgrade_fail :: "devmgr_upgrade \<Rightarrow> devmgr_status \<times> devmgr_upgrade" where
  "upgrade_fail u \<equiv> (DEVMGR_ERROR_PROTOCOL, u\<lparr>up_state := DEVMGR_UPGRADE_ERROR\<rparr>)"

definition devmgr_upgrade_accept_response ::
  "devmgr_upgrade \<Rightarrow> u8 \<Rightarrow> devmgr_frame \<Rightarrow> devmgr_status \<times> devmgr_upgrade" where
  "devmgr_upgrade_accept_response u request_type response =
    (if fr_type response = DEVMGR_MSG_NACK \<or> fr_type response = DEVMGR_MSG_ERROR then upgrade_fail u
     else
       (case up_state u of
          DEVMGR_UPGRADE_ENTER_BOOTLOADER \<Rightarrow>
            if request_type \<noteq> DEVMGR_MSG_ENTER_BOOTLOADER then upgrade_fail u
            else (DEVMGR_OK, u\<lparr>up_state := DEVMGR_UPGRADE_BEGIN\<rparr>)
        | DEVMGR_UPGRADE_BEGIN \<Rightarrow>
            if request_type \<noteq> DEVMGR_MSG_FW_BEGIN \<or> fr_payload_length response \<noteq> 8 then upgrade_fail u
            else
              let u1 = u\<lparr>up_session_id := devmgr_get_le32 (fr_payload response),
                         up_offset := devmgr_get_le32 (drop 4 (fr_payload response))\<rparr>
              in if up_session_id u1 = 0 \<or> unat (up_offset u1) > up_image_size u1 then upgrade_fail u1
                 else (DEVMGR_OK, after_offset u1)
        | DEVMGR_UPGRADE_TRANSFER \<Rightarrow>
            if request_type \<noteq> DEVMGR_MSG_FW_DATA \<or> fr_payload_length response \<noteq> 4 then upgrade_fail u
            else
              let u1 = u\<lparr>up_offset := devmgr_get_le32 (fr_payload response)\<rparr>
              in if up_offset u1 \<noteq> up_last_chunk_end u1 \<or> unat (up_offset u1) > up_image_size u1
                 then upgrade_fail u1
                 else (DEVMGR_OK, after_offset u1)
        | DEVMGR_UPGRADE_RECOVER \<Rightarrow>
            if request_type \<noteq> DEVMGR_MSG_FW_STATUS \<or> fr_payload_length response \<noteq> 8 \<or>
               devmgr_get_le32 (fr_payload response) \<noteq> up_session_id u then upgrade_fail u
            else
              let u1 = u\<lparr>up_offset := devmgr_get_le32 (drop 4 (fr_payload response))\<rparr>
              in if unat (up_offset u1) > up_image_size u1 then upgrade_fail u1
                 else (DEVMGR_OK, after_offset u1)
        | DEVMGR_UPGRADE_END \<Rightarrow>
            if request_type \<noteq> DEVMGR_MSG_FW_END then upgrade_fail u
            else (DEVMGR_OK, u\<lparr>up_state := DEVMGR_UPGRADE_VERIFY\<rparr>)
        | DEVMGR_UPGRADE_VERIFY \<Rightarrow>
            if request_type \<noteq> DEVMGR_MSG_FW_VERIFY \<or> fr_payload_length response \<noteq> 4 \<or>
               devmgr_get_le32 (fr_payload response) \<noteq> up_image_crc u then upgrade_fail u
            else (DEVMGR_OK, u\<lparr>up_state := DEVMGR_UPGRADE_ACTIVATE\<rparr>)
        | DEVMGR_UPGRADE_ACTIVATE \<Rightarrow>
            if request_type \<noteq> DEVMGR_MSG_FW_ACTIVATE then upgrade_fail u
            else (DEVMGR_OK, u\<lparr>up_state := DEVMGR_UPGRADE_REBOOT\<rparr>)
        | DEVMGR_UPGRADE_REBOOT \<Rightarrow>
            if request_type \<noteq> DEVMGR_MSG_REBOOT then upgrade_fail u
            else (DEVMGR_OK, u\<lparr>up_state := DEVMGR_UPGRADE_COMPLETE\<rparr>)
        | _ \<Rightarrow> upgrade_fail u))"

definition devmgr_upgrade_active :: "devmgr_upgrade \<Rightarrow> bool" where
  "devmgr_upgrade_active u \<longleftrightarrow> up_state u \<noteq> DEVMGR_UPGRADE_IDLE \<and>
     up_state u \<noteq> DEVMGR_UPGRADE_COMPLETE \<and> up_state u \<noteq> DEVMGR_UPGRADE_ERROR"

definition devmgr_upgrade_begin_recovery :: "devmgr_upgrade \<Rightarrow> devmgr_status \<times> devmgr_upgrade" where
  "devmgr_upgrade_begin_recovery u =
    (if up_session_id u = 0 \<or>
        (up_state u \<noteq> DEVMGR_UPGRADE_TRANSFER \<and> up_state u \<noteq> DEVMGR_UPGRADE_RECOVER)
     then (DEVMGR_ERROR_STATE, u)
     else if up_recovery_attempts u \<ge> 3 then
       (DEVMGR_ERROR_TIMEOUT, u\<lparr>up_state := DEVMGR_UPGRADE_ERROR\<rparr>)
     else (DEVMGR_OK, u\<lparr>up_recovery_attempts := up_recovery_attempts u + 1,
                        up_state := DEVMGR_UPGRADE_RECOVER\<rparr>))"

fun devmgr_upgrade_state_string :: "devmgr_upgrade_state \<Rightarrow> string" where
  "devmgr_upgrade_state_string DEVMGR_UPGRADE_IDLE = ''IDLE''"
| "devmgr_upgrade_state_string DEVMGR_UPGRADE_VALIDATING = ''VALIDATING''"
| "devmgr_upgrade_state_string DEVMGR_UPGRADE_ENTER_BOOTLOADER = ''ENTER_BOOTLOADER''"
| "devmgr_upgrade_state_string DEVMGR_UPGRADE_BEGIN = ''BEGIN''"
| "devmgr_upgrade_state_string DEVMGR_UPGRADE_TRANSFER = ''TRANSFER''"
| "devmgr_upgrade_state_string DEVMGR_UPGRADE_RECOVER = ''RECOVER''"
| "devmgr_upgrade_state_string DEVMGR_UPGRADE_END = ''END''"
| "devmgr_upgrade_state_string DEVMGR_UPGRADE_VERIFY = ''VERIFY''"
| "devmgr_upgrade_state_string DEVMGR_UPGRADE_ACTIVATE = ''ACTIVATE''"
| "devmgr_upgrade_state_string DEVMGR_UPGRADE_REBOOT = ''REBOOT''"
| "devmgr_upgrade_state_string DEVMGR_UPGRADE_COMPLETE = ''COMPLETE''"
| "devmgr_upgrade_state_string DEVMGR_UPGRADE_ERROR = ''ERROR''"

text \<open>The entry points with their guards on \<open>NULL\<close> pointers.\<close>

definition devmgr_upgrade_init_ptr :: "devmgr_upgrade ptr \<Rightarrow> devmgr_upgrade ptr" where
  "devmgr_upgrade_init_ptr upgrade = map_option (\<lambda>_. devmgr_upgrade_init) upgrade"

definition devmgr_upgrade_start_ptr ::
  "devmgr_upgrade ptr \<Rightarrow> bytes ptr \<Rightarrow> nat \<Rightarrow> u32 \<Rightarrow> bytes ptr \<Rightarrow> u16 \<Rightarrow> devmgr_status \<times> devmgr_upgrade ptr" where
  "devmgr_upgrade_start_ptr upgrade image_data image_size image_crc version chunk_size =
    call_ptr DEVMGR_ERROR_INVALID
      (\<lambda>u. devmgr_upgrade_start u image_data image_size image_crc version chunk_size) upgrade"

definition devmgr_upgrade_build_request_ptr ::
  "devmgr_upgrade ptr \<Rightarrow> bool \<Rightarrow> (devmgr_status + devmgr_frame) \<times> devmgr_upgrade ptr" where
  "devmgr_upgrade_build_request_ptr upgrade frame_null =
    (if frame_null then (Inl DEVMGR_ERROR_INVALID, upgrade)
     else call_ptr (Inl DEVMGR_ERROR_INVALID) devmgr_upgrade_build_request upgrade)"

definition devmgr_upgrade_accept_response_ptr ::
  "devmgr_upgrade ptr \<Rightarrow> u8 \<Rightarrow> devmgr_frame ptr \<Rightarrow> devmgr_status \<times> devmgr_upgrade ptr" where
  "devmgr_upgrade_accept_response_ptr upgrade request_type response =
    (case response of
       None \<Rightarrow> (DEVMGR_ERROR_INVALID, upgrade)
     | Some r \<Rightarrow> call_ptr DEVMGR_ERROR_INVALID (\<lambda>u. devmgr_upgrade_accept_response u request_type r) upgrade)"

definition devmgr_upgrade_active_ptr :: "devmgr_upgrade ptr \<Rightarrow> bool" where
  "devmgr_upgrade_active_ptr upgrade = (case upgrade of None \<Rightarrow> False | Some u \<Rightarrow> devmgr_upgrade_active u)"

definition devmgr_upgrade_begin_recovery_ptr ::
  "devmgr_upgrade ptr \<Rightarrow> devmgr_status \<times> devmgr_upgrade ptr" where
  "devmgr_upgrade_begin_recovery_ptr upgrade =
    call_ptr DEVMGR_ERROR_STATE devmgr_upgrade_begin_recovery upgrade"

subsection \<open>The upgrade invariant\<close>

text \<open>
  What holds of a started upgrade: usable metadata throughout; progress within the image while
  bytes are transferred; everything transferred from \<open>END\<close> on.
\<close>

definition upgrade_meta :: "devmgr_upgrade \<Rightarrow> bool" where
  "upgrade_meta u \<longleftrightarrow>
    (\<exists>d. up_image_data u = Some d \<and> up_image_size u \<le> length d) \<and>
    0 < up_image_size u \<and> up_image_size u \<le> UINT32_MAX \<and>
    0 < unat (up_chunk_size u) \<and> unat (up_chunk_size u) \<le> 4088 \<and>
    up_version u \<noteq> [] \<and> length (up_version u) \<le> DEVMGR_UPGRADE_VERSION_MAX"

definition upgrade_progress :: "devmgr_upgrade \<Rightarrow> bool" where
  "upgrade_progress u \<longleftrightarrow>
    up_state u \<noteq> DEVMGR_UPGRADE_IDLE \<and> up_state u \<noteq> DEVMGR_UPGRADE_VALIDATING \<and>
    (up_state u \<in> {DEVMGR_UPGRADE_TRANSFER, DEVMGR_UPGRADE_RECOVER, DEVMGR_UPGRADE_END,
       DEVMGR_UPGRADE_VERIFY, DEVMGR_UPGRADE_ACTIVATE, DEVMGR_UPGRADE_REBOOT, DEVMGR_UPGRADE_COMPLETE} \<longrightarrow>
     up_session_id u \<noteq> 0) \<and>
    (up_state u = DEVMGR_UPGRADE_TRANSFER \<longrightarrow> unat (up_offset u) < up_image_size u) \<and>
    (up_state u \<in> {DEVMGR_UPGRADE_END, DEVMGR_UPGRADE_VERIFY, DEVMGR_UPGRADE_ACTIVATE,
       DEVMGR_UPGRADE_REBOOT, DEVMGR_UPGRADE_COMPLETE} \<longrightarrow> unat (up_offset u) = up_image_size u)"

definition upgrade_inv :: "devmgr_upgrade \<Rightarrow> bool" where
  "upgrade_inv u \<longleftrightarrow> upgrade_meta u \<and> upgrade_progress u \<and> up_recovery_attempts u \<le> 3"

inductive upgrade_step :: "devmgr_upgrade \<Rightarrow> devmgr_upgrade \<Rightarrow> bool" where
  up_build: "devmgr_upgrade_build_request u = (r, u') \<Longrightarrow> upgrade_step u u'"
| up_accept: "devmgr_upgrade_accept_response u t f = (r, u') \<Longrightarrow> upgrade_step u u'"
| up_recover: "devmgr_upgrade_begin_recovery u = (r, u') \<Longrightarrow> upgrade_step u u'"

inductive_cases upgrade_stepE: "upgrade_step u v"

lemma upgrade_start_inv:
  assumes "devmgr_upgrade_start u img n crc version chunk = (DEVMGR_OK, u')"
    and "n \<le> length (the img)"
  shows "upgrade_inv u'"
  using assms
  by (auto simp: devmgr_upgrade_start_def devmgr_upgrade_init_def upgrade_inv_def upgrade_meta_def
      upgrade_progress_def unat_gt_0 split: if_splits)

lemma build_request_frame:
  assumes "devmgr_upgrade_build_request u = (r, u')"
  shows "up_state u' = up_state u" "up_image_data u' = up_image_data u" "up_image_size u' = up_image_size u"
    "up_chunk_size u' = up_chunk_size u" "up_version u' = up_version u" "up_session_id u' = up_session_id u"
    "up_offset u' = up_offset u" "up_recovery_attempts u' = up_recovery_attempts u"
    "up_image_crc u' = up_image_crc u"
  using assms
  by (auto simp: devmgr_upgrade_build_request_def Let_def split: devmgr_upgrade_state.splits if_splits)

lemma upgrade_build_inv: "upgrade_inv u \<Longrightarrow> devmgr_upgrade_build_request u = (r, u') \<Longrightarrow> upgrade_inv u'"
  using build_request_frame [of u r u'] by (simp add: upgrade_inv_def upgrade_meta_def upgrade_progress_def)

lemma accept_response_error:
  assumes "devmgr_upgrade_accept_response u t f = (r, u')" and "r \<noteq> DEVMGR_OK"
  shows "r = DEVMGR_ERROR_PROTOCOL \<and> up_state u' = DEVMGR_UPGRADE_ERROR"
  using assms unfolding devmgr_upgrade_accept_response_def Let_def
  by (cases "up_state u") (simp_all split: if_splits, auto)

text \<open>What a response other than an offset is accepted as: one step of the fixed sequence.\<close>

inductive upgrade_phase :: "devmgr_upgrade_state \<Rightarrow> u8 \<Rightarrow> devmgr_upgrade_state \<Rightarrow> bool" where
  "upgrade_phase DEVMGR_UPGRADE_ENTER_BOOTLOADER DEVMGR_MSG_ENTER_BOOTLOADER DEVMGR_UPGRADE_BEGIN"
| "upgrade_phase DEVMGR_UPGRADE_END DEVMGR_MSG_FW_END DEVMGR_UPGRADE_VERIFY"
| "upgrade_phase DEVMGR_UPGRADE_VERIFY DEVMGR_MSG_FW_VERIFY DEVMGR_UPGRADE_ACTIVATE"
| "upgrade_phase DEVMGR_UPGRADE_ACTIVATE DEVMGR_MSG_FW_ACTIVATE DEVMGR_UPGRADE_REBOOT"
| "upgrade_phase DEVMGR_UPGRADE_REBOOT DEVMGR_MSG_REBOOT DEVMGR_UPGRADE_COMPLETE"

inductive_simps upgrade_phase_simps: "upgrade_phase s t s'"

text \<open>
  An accepted response either takes such a step, or gives an offset within the image: with the
  session in \<open>BEGIN\<close>, the end of the last chunk in \<open>TRANSFER\<close>, any offset in
  \<open>RECOVER\<close>.
\<close>

definition offset_accepted :: "devmgr_upgrade \<Rightarrow> u8 \<Rightarrow> devmgr_frame \<Rightarrow> devmgr_upgrade \<Rightarrow> bool" where
  "offset_accepted u t f v \<longleftrightarrow>
    (up_state u = DEVMGR_UPGRADE_BEGIN \<and> t = DEVMGR_MSG_FW_BEGIN \<and> fr_payload_length f = 8 \<and>
       v = u\<lparr>up_session_id := devmgr_get_le32 (fr_payload f), up_offset := devmgr_get_le32 (drop 4 (fr_payload f))\<rparr> \<and>
       up_session_id v \<noteq> 0 \<or>
     up_state u = DEVMGR_UPGRADE_TRANSFER \<and> t = DEVMGR_MSG_FW_DATA \<and> fr_payload_length f = 4 \<and>
       v = u\<lparr>up_offset := devmgr_get_le32 (fr_payload f)\<rparr> \<and> up_offset v = up_last_chunk_end u \<or>
     up_state u = DEVMGR_UPGRADE_RECOVER \<and> t = DEVMGR_MSG_FW_STATUS \<and> fr_payload_length f = 8 \<and>
       devmgr_get_le32 (fr_payload f) = up_session_id u \<and>
       v = u\<lparr>up_offset := devmgr_get_le32 (drop 4 (fr_payload f))\<rparr>) \<and>
    unat (up_offset v) \<le> up_image_size u"

lemma accept_response_OK:
  assumes "devmgr_upgrade_accept_response u t f = (DEVMGR_OK, u')"
  obtains (phase) s' where "upgrade_phase (up_state u) t s'" "u' = u\<lparr>up_state := s'\<rparr>"
      "up_state u = DEVMGR_UPGRADE_VERIFY \<Longrightarrow> devmgr_get_le32 (fr_payload f) = up_image_crc u"
  | (offset) v where "offset_accepted u t f v" "u' = after_offset v"
  using assms unfolding devmgr_upgrade_accept_response_def Let_def
  by (cases "up_state u")
     (auto simp: upgrade_phase_simps offset_accepted_def simp del: One_nat_def split: if_splits)

lemma accept_response_fixed:
  assumes "devmgr_upgrade_accept_response u t f = (r, u')"
  shows "up_recovery_attempts u' = up_recovery_attempts u \<and> up_image_size u' = up_image_size u \<and>
    up_image_crc u' = up_image_crc u \<and> up_version u' = up_version u \<and>
    up_image_data u' = up_image_data u \<and> up_chunk_size u' = up_chunk_size u"
  using assms unfolding devmgr_upgrade_accept_response_def Let_def after_offset_def
  by (cases "up_state u") (simp_all split: if_splits, auto)

lemma accept_response_meta:
  "devmgr_upgrade_accept_response u t f = (r, u') \<Longrightarrow> upgrade_meta u' = upgrade_meta u"
  using accept_response_fixed [of u t f r u'] by (simp add: upgrade_meta_def)

lemma offset_accepted_size: "offset_accepted u t f v \<Longrightarrow> up_image_size v = up_image_size u"
  by (auto simp: offset_accepted_def)

lemma offset_accepted_bound: "offset_accepted u t f v \<Longrightarrow> unat (up_offset v) \<le> up_image_size u"
  by (simp add: offset_accepted_def)

lemma progress_session:
  assumes "upgrade_progress u"
  shows "up_state u = DEVMGR_UPGRADE_TRANSFER \<Longrightarrow> up_session_id u \<noteq> 0"
    and "up_state u = DEVMGR_UPGRADE_RECOVER \<Longrightarrow> up_session_id u \<noteq> 0"
  using assms by (simp_all add: upgrade_progress_def)

lemma offset_accepted_cases:
  assumes "offset_accepted u t f v"
  shows "up_session_id v \<noteq> 0 \<or> up_session_id v = up_session_id u \<and> up_state u = DEVMGR_UPGRADE_TRANSFER \<or>
    up_session_id v = up_session_id u \<and> up_state u = DEVMGR_UPGRADE_RECOVER"
  using assms unfolding offset_accepted_def by (elim conjE disjE) simp_all

lemma offset_accepted_session:
  "offset_accepted u t f v \<Longrightarrow> upgrade_progress u \<Longrightarrow> up_session_id v \<noteq> 0"
  using offset_accepted_cases [of u t f v] progress_session [of u] by auto

lemma accept_response_progress:
  assumes "upgrade_progress u" and "devmgr_upgrade_accept_response u t f = (r, u')"
  shows "upgrade_progress u'"
proof (cases "r = DEVMGR_OK")
  case True
  with assms(2) have "devmgr_upgrade_accept_response u t f = (DEVMGR_OK, u')" by simp
  then show ?thesis
  proof (cases rule: accept_response_OK)
    case (phase s')
    from phase(1) show ?thesis
      using phase(2) assms(1) by (cases rule: upgrade_phase.cases) (simp_all add: upgrade_progress_def)
  next
    case (offset v)
    then have "up_session_id v \<noteq> 0" "unat (up_offset v) \<le> up_image_size v"
      using offset_accepted_session [OF offset(1) assms(1)] offset_accepted_size [OF offset(1)]
        offset_accepted_bound [OF offset(1)] by simp_all
    then show ?thesis using offset(2) by (simp add: upgrade_progress_def after_offset_def)
  qed
next
  case False
  then show ?thesis using accept_response_error [OF assms(2)] by (simp add: upgrade_progress_def)
qed

lemma upgrade_progress_simps:
  "upgrade_progress (u\<lparr>up_state := DEVMGR_UPGRADE_ERROR\<rparr>)"
  "upgrade_progress (u\<lparr>up_recovery_attempts := n, up_state := DEVMGR_UPGRADE_RECOVER\<rparr>) \<longleftrightarrow> up_session_id u \<noteq> 0"
  by (simp_all add: upgrade_progress_def)

lemma upgrade_accept_inv:
  "upgrade_inv u \<Longrightarrow> devmgr_upgrade_accept_response u t f = (r, u') \<Longrightarrow> upgrade_inv u'"
  using accept_response_meta [of u t f r u'] accept_response_fixed [of u t f r u']
    accept_response_progress [of u t f r u']
  by (simp add: upgrade_inv_def)

lemma inc_le_3: "\<not> 3 \<le> a \<Longrightarrow> a + 1 \<le> 3" for a :: u8
  by (metis inc_le not_le)

lemma upgrade_recovery_inv: "upgrade_inv u \<Longrightarrow> devmgr_upgrade_begin_recovery u = (r, u') \<Longrightarrow> upgrade_inv u'"
  unfolding devmgr_upgrade_begin_recovery_def upgrade_inv_def upgrade_meta_def
  using inc_le_3 [of "up_recovery_attempts u"]
  by (simp add: upgrade_progress_simps split: if_splits; elim conjE; hypsubst; simp add: upgrade_progress_simps)

interpretation upg: inductive_invariant upgrade_step upgrade_inv
  by unfold_locales (auto elim!: upgrade_stepE intro: upgrade_build_inv upgrade_accept_inv upgrade_recovery_inv)

subsection \<open>Chunks\<close>

definition chunk_len :: "devmgr_upgrade \<Rightarrow> nat" where
  "chunk_len u = min (up_image_size u - unat (up_offset u)) (unat (up_chunk_size u))"

lemma build_transfer:
  assumes "upgrade_inv u" and "up_state u = DEVMGR_UPGRADE_TRANSFER"
  shows "devmgr_upgrade_build_request u =
    (Inr (request_frame DEVMGR_MSG_FW_DATA (of_nat (8 + chunk_len u))
       (devmgr_put_le32 (up_session_id u) @ devmgr_put_le32 (up_offset u) @
        region (the (up_image_data u)) (unat (up_offset u)) (chunk_len u))),
     u\<lparr>up_last_chunk_end := up_offset u + of_nat (chunk_len u), up_chunks_sent := up_chunks_sent u + 1\<rparr>)"
proof -
  have "(if up_image_size u - unat (up_offset u) < unat (up_chunk_size u)
      then up_image_size u - unat (up_offset u) else unat (up_chunk_size u)) = chunk_len u"
    by (auto simp: chunk_len_def min_def)
  then show ?thesis
    using assms by (simp add: devmgr_upgrade_build_request_def upgrade_inv_def upgrade_progress_def Let_def)
qed

lemma chunk_len_bounds:
  assumes "upgrade_inv u" and "up_state u = DEVMGR_UPGRADE_TRANSFER"
  shows "0 < chunk_len u" "chunk_len u \<le> 4088" "chunk_len u \<le> unat (up_chunk_size u)"
    "unat (up_offset u) + chunk_len u \<le> up_image_size u"
    "unat (up_offset u + of_nat (chunk_len u)) = unat (up_offset u) + chunk_len u"
    "unat (of_nat (8 + chunk_len u) :: u16) = 8 + chunk_len u"
proof -
  have u: "unat (up_offset u) < up_image_size u" "up_image_size u \<le> UINT32_MAX"
    "0 < unat (up_chunk_size u)" "unat (up_chunk_size u) \<le> 4088"
    using assms by (auto simp: upgrade_inv_def upgrade_meta_def upgrade_progress_def)
  then show b: "0 < chunk_len u" "chunk_len u \<le> 4088" "chunk_len u \<le> unat (up_chunk_size u)"
    "unat (up_offset u) + chunk_len u \<le> up_image_size u"
    by (auto simp: chunk_len_def)
  show "unat (up_offset u + of_nat (chunk_len u)) = unat (up_offset u) + chunk_len u"
    using b u by (simp add: unat_word_ariths unat_of_nat)
  show "unat (of_nat (8 + chunk_len u) :: u16) = 8 + chunk_len u"
    using b by (intro unat_of_nat_u16) simp
qed

lemma build_request_wf:
  assumes "upgrade_inv u" and "devmgr_upgrade_build_request u = (Inr f, u')"
  shows "frame_wf f"
proof (cases "up_state u = DEVMGR_UPGRADE_TRANSFER")
  case True
  obtain d where d: "up_image_data u = Some d" "up_image_size u \<le> length d"
    using assms(1) by (auto simp: upgrade_inv_def upgrade_meta_def)
  note c = chunk_len_bounds [OF assms(1) True]
  have "f = request_frame DEVMGR_MSG_FW_DATA (of_nat (8 + chunk_len u))
      (devmgr_put_le32 (up_session_id u) @ devmgr_put_le32 (up_offset u) @
       region d (unat (up_offset u)) (chunk_len u))"
    using assms(2) build_transfer [OF assms(1) True] d(1) by simp
  then show ?thesis using c d(2) by (simp only: frame_wf_def request_frame_def) (simp add: min_def)
next
  case False
  have v: "length (up_version u) \<le> 31" using assms(1) by (simp add: upgrade_inv_def upgrade_meta_def)
  then have "unat (of_nat (10 + (length (up_version u) + 1)) :: u16) = 11 + length (up_version u)"
    by (subst unat_of_nat_u16) simp_all
  then show ?thesis
    using assms(2) False v
    by (auto simp: devmgr_upgrade_build_request_def frame_wf_def request_frame_def Let_def
        split: devmgr_upgrade_state.splits if_splits)
qed

subsection \<open>Rounds of an upgrade\<close>

text \<open>
  One round: the machine builds its request and accepts the response, or the request times
  out and recovery begins. The measure falls with every round, so upgrades end.
\<close>

inductive upgrade_round :: "devmgr_upgrade \<Rightarrow> devmgr_upgrade \<Rightarrow> bool" where
  round_answered: "devmgr_upgrade_build_request u = (Inr q, v) \<Longrightarrow>
    devmgr_upgrade_accept_response v (fr_type q) f = (DEVMGR_OK, w) \<Longrightarrow> upgrade_round u w"
| round_recovered: "devmgr_upgrade_build_request u = (Inr q, v) \<Longrightarrow>
    devmgr_upgrade_begin_recovery v = (DEVMGR_OK, w) \<Longrightarrow> upgrade_round u w"

definition phase_rank :: "devmgr_upgrade \<Rightarrow> nat" where
  "phase_rank u =
    (case up_state u of
       DEVMGR_UPGRADE_ENTER_BOOTLOADER \<Rightarrow> 8 + up_image_size u
     | DEVMGR_UPGRADE_BEGIN \<Rightarrow> 7 + up_image_size u
     | DEVMGR_UPGRADE_RECOVER \<Rightarrow> 6 + up_image_size u
     | DEVMGR_UPGRADE_TRANSFER \<Rightarrow> 5 + (up_image_size u - unat (up_offset u))
     | DEVMGR_UPGRADE_END \<Rightarrow> 4
     | DEVMGR_UPGRADE_VERIFY \<Rightarrow> 3
     | DEVMGR_UPGRADE_ACTIVATE \<Rightarrow> 2
     | DEVMGR_UPGRADE_REBOOT \<Rightarrow> 1
     | _ \<Rightarrow> 0)"

definition upgrade_measure :: "devmgr_upgrade \<Rightarrow> nat" where
  "upgrade_measure u = (3 - unat (up_recovery_attempts u)) * (up_image_size u + 9) + phase_rank u"

lemma phase_rank_less: "phase_rank u < up_image_size u + 9"
  by (auto simp: phase_rank_def split: devmgr_upgrade_state.splits)

lemma build_request_total:
  assumes "upgrade_inv u" and "devmgr_upgrade_active u"
  shows "\<exists>q v. devmgr_upgrade_build_request u = (Inr q, v)"
proof -
  have p: "upgrade_progress u" using assms(1) by (simp add: upgrade_inv_def)
  consider "up_state u = DEVMGR_UPGRADE_TRANSFER" | "up_state u = DEVMGR_UPGRADE_RECOVER"
    | "up_state u \<in> {DEVMGR_UPGRADE_ENTER_BOOTLOADER, DEVMGR_UPGRADE_BEGIN, DEVMGR_UPGRADE_END,
        DEVMGR_UPGRADE_VERIFY, DEVMGR_UPGRADE_ACTIVATE, DEVMGR_UPGRADE_REBOOT}"
    using p assms(2) by (cases "up_state u") (simp_all add: devmgr_upgrade_active_def upgrade_progress_def)
  then show ?thesis
  proof cases
    case 1
    then show ?thesis using build_transfer [OF assms(1)] by blast
  next
    case 2
    then show ?thesis using progress_session(2) [OF p] by (simp add: devmgr_upgrade_build_request_def)
  next
    case 3
    then show ?thesis
      by (cases "up_state u") (simp_all add: devmgr_upgrade_build_request_def Let_def)
  qed
qed

lemma after_offset_rank:
  "unat (up_offset v) \<le> up_image_size v \<Longrightarrow>
   phase_rank (after_offset v) = (if unat (up_offset v) = up_image_size v then 4
     else 5 + (up_image_size v - unat (up_offset v)))"
  by (simp add: after_offset_def phase_rank_def)

lemma build_transfer_end:
  assumes "upgrade_inv u" and "devmgr_upgrade_build_request u = (Inr q, v)"
    and "up_state u = DEVMGR_UPGRADE_TRANSFER"
  shows "unat (up_last_chunk_end v) = unat (up_offset u) + chunk_len u" and "0 < chunk_len u"
proof -
  have "v = u\<lparr>up_last_chunk_end := up_offset u + of_nat (chunk_len u), up_chunks_sent := up_chunks_sent u + 1\<rparr>"
    using build_transfer [OF assms(1,3)] assms(2) by simp
  then show "unat (up_last_chunk_end v) = unat (up_offset u) + chunk_len u"
    using chunk_len_bounds(5) [OF assms(1,3)] by simp
  show "0 < chunk_len u" by (rule chunk_len_bounds(1) [OF assms(1,3)])
qed

lemma answered_rank:
  assumes inv: "upgrade_inv u" and b: "devmgr_upgrade_build_request u = (Inr q, v)"
    and a: "devmgr_upgrade_accept_response v t f = (DEVMGR_OK, w)"
  shows "phase_rank w < phase_rank u"
proof -
  note fr = build_request_frame [OF b]
  from a show ?thesis
  proof (cases rule: accept_response_OK)
    case (phase s')
    from phase(1) show ?thesis
      using phase(2) fr by (cases rule: upgrade_phase.cases) (simp_all add: phase_rank_def)
  next
    case (offset x)
    note sz = offset_accepted_size [OF offset(1)] and bd = offset_accepted_bound [OF offset(1)]
    have rank: "phase_rank w \<le> 5 + (up_image_size u - unat (up_offset x))"
      using after_offset_rank [of x] bd sz offset(2) fr(3) by simp
    from offset(1) consider "up_state v = DEVMGR_UPGRADE_BEGIN" | "up_state v = DEVMGR_UPGRADE_RECOVER"
      | "up_state v = DEVMGR_UPGRADE_TRANSFER" "up_offset x = up_last_chunk_end v"
      unfolding offset_accepted_def by (elim conjE disjE) simp_all
    then show ?thesis
    proof cases
      case 3
      then have tr: "up_state u = DEVMGR_UPGRADE_TRANSFER" using fr(1) by simp
      have "unat (up_offset x) = unat (up_offset u) + chunk_len u" "0 < chunk_len u"
        using build_transfer_end [OF inv b tr] 3(2) by simp_all
      then show ?thesis using rank tr bd sz fr(3) by (simp add: phase_rank_def)
    qed (use rank fr(1) in \<open>simp_all add: phase_rank_def\<close>)
  qed
qed

lemma upgrade_round_decreases:
  assumes "upgrade_inv u" and "upgrade_round u w"
  shows "upgrade_measure w < upgrade_measure u"
  using assms(2)
proof cases
  case (round_answered q v f)
  then show ?thesis
    using answered_rank [OF assms(1) round_answered] accept_response_fixed [OF round_answered(2)]
      build_request_frame [OF round_answered(1)]
    by (simp add: upgrade_measure_def)
next
  case (round_recovered q v)
  let ?a = "up_recovery_attempts u"
  note fr = build_request_frame [OF round_recovered(1)]
  have w: "up_recovery_attempts w = ?a + 1" "up_image_size w = up_image_size u" "\<not> 3 \<le> ?a"
    using round_recovered(2) fr unfolding devmgr_upgrade_begin_recovery_def by (auto split: if_splits)
  then have "unat ?a < 3" by (simp add: word_le_nat_alt)
  then have "3 - unat ?a = Suc (3 - unat (?a + 1))"
    using unat_u8_less [of ?a] by (simp add: unat_word_ariths)
  then show ?thesis using phase_rank_less [of w] w by (simp add: upgrade_measure_def)
qed

lemma upgrade_round_inv: "upgrade_round u w \<Longrightarrow> upgrade_inv u \<Longrightarrow> upgrade_inv w"
  by (cases rule: upgrade_round.cases) (auto intro: upgrade_build_inv upgrade_accept_inv upgrade_recovery_inv)

lemma upgrade_rounds_bound:
  "(upgrade_round ^^ n) u w \<Longrightarrow> upgrade_inv u \<Longrightarrow> upgrade_inv w \<and> n + upgrade_measure w \<le> upgrade_measure u"
proof (induction n arbitrary: w)
  case 0
  then show ?case by simp
next
  case (Suc n)
  from Suc.prems(1) obtain v where v: "(upgrade_round ^^ n) u v" "upgrade_round v w" by auto
  with Suc.IH Suc.prems(2) have "upgrade_inv v" "n + upgrade_measure v \<le> upgrade_measure u" by auto
  then show ?case using upgrade_round_decreases [OF _ v(2)] upgrade_round_inv [OF v(2)] by auto
qed

subsection \<open>Properties\<close>

text \<open>
  C22. Every request an active upgrade builds is a well-formed frame, and an active upgrade
  can always build one; a data chunk carries the session, the acknowledged offset and exactly
  the image bytes from there, never empty, never beyond the image or the chunk size, and the
  remembered end of the chunk is computed without wrap-around.
\<close>

theorem upgrade_request_sound:
  assumes "upgrade_inv u" and "devmgr_upgrade_active u"
  shows "\<exists>q v. devmgr_upgrade_build_request u = (Inr q, v) \<and> frame_wf q \<and>
    (up_state u = DEVMGR_UPGRADE_TRANSFER \<longrightarrow>
      (\<exists>n. 0 < n \<and> n \<le> unat (up_chunk_size u) \<and> unat (up_offset u) + n \<le> up_image_size u \<and>
        fr_payload q = devmgr_put_le32 (up_session_id u) @ devmgr_put_le32 (up_offset u) @
          region (the (up_image_data u)) (unat (up_offset u)) n \<and>
        unat (up_last_chunk_end v) = unat (up_offset u) + n))"
proof -
  obtain q v where b: "devmgr_upgrade_build_request u = (Inr q, v)"
    using build_request_total [OF assms] by blast
  have "\<exists>n. 0 < n \<and> n \<le> unat (up_chunk_size u) \<and> unat (up_offset u) + n \<le> up_image_size u \<and>
      fr_payload q = devmgr_put_le32 (up_session_id u) @ devmgr_put_le32 (up_offset u) @
        region (the (up_image_data u)) (unat (up_offset u)) n \<and>
      unat (up_last_chunk_end v) = unat (up_offset u) + n" if tr: "up_state u = DEVMGR_UPGRADE_TRANSFER"
    using build_transfer [OF assms(1) tr] b chunk_len_bounds [OF assms(1) tr]
      build_transfer_end [OF assms(1) b tr]
    by (intro exI [of _ "chunk_len u"]) (simp add: request_frame_def)
  then show ?thesis using b build_request_wf [OF assms(1) b] by blast
qed

text \<open>
  C19. Upgrades end: whatever the device answers and however often requests time out, an
  upgrade of an image of \<open>n\<close> bytes takes at most \<open>4 * (n + 9)\<close> rounds (a round is a request
  with its accepted response, or one that times out into recovery).
\<close>

theorem upgrade_terminates:
  assumes "devmgr_upgrade_start u0 img n crc version chunk = (DEVMGR_OK, u)" and "n \<le> length (the img)"
    and "(upgrade_round ^^ k) u w"
  shows "k < 4 * (n + 9)"
proof -
  have inv: "upgrade_inv u" by (rule upgrade_start_inv [OF assms(1,2)])
  have "up_image_size u = n" "up_recovery_attempts u = 0"
    using assms(1) by (auto simp: devmgr_upgrade_start_def devmgr_upgrade_init_def split: if_splits)
  then have "upgrade_measure u < 4 * (n + 9)"
    using phase_rank_less [of u] by (simp add: upgrade_measure_def)
  then show ?thesis using upgrade_rounds_bound [OF assms(3) inv] by simp
qed

definition witness_upgrade :: devmgr_upgrade where
  "witness_upgrade = snd (devmgr_upgrade_start devmgr_upgrade_init (Some [1, 2, 3]) 3 7 (Some [0x32]) 2)"

theorem upgrade_request_sound_witness:
  "\<exists>q v. devmgr_upgrade_build_request (witness_upgrade\<lparr>up_state := DEVMGR_UPGRADE_TRANSFER, up_session_id := 1,
     up_offset := 2\<rparr>) = (Inr q, v) \<and> frame_wf q"
proof -
  let ?u = "witness_upgrade\<lparr>up_state := DEVMGR_UPGRADE_TRANSFER, up_session_id := 1, up_offset := 2\<rparr>"
  have "upgrade_inv ?u" "devmgr_upgrade_active ?u"
    by (simp_all add: witness_upgrade_def devmgr_upgrade_start_def devmgr_upgrade_init_def upgrade_inv_def
        upgrade_meta_def upgrade_progress_def devmgr_upgrade_active_def)
  from upgrade_request_sound [OF this] show ?thesis by blast
qed

theorem upgrade_terminates_witness: "\<exists>w. upgrade_round witness_upgrade w \<and> (1::nat) < 4 * (3 + 9)"
proof -
  let ?f = "zero_frame\<lparr>fr_type := DEVMGR_MSG_ACK\<rparr>"
  obtain w where "upgrade_round witness_upgrade w"
    using round_answered [of witness_upgrade "request_frame DEVMGR_MSG_ENTER_BOOTLOADER 0 []" witness_upgrade ?f]
    by (simp add: witness_upgrade_def devmgr_upgrade_start_def devmgr_upgrade_init_def
        devmgr_upgrade_build_request_def devmgr_upgrade_accept_response_def request_frame_def zero_frame_def)
  moreover have "devmgr_upgrade_start devmgr_upgrade_init (Some [1, 2, 3]) 3 7 (Some [0x32]) 2 =
      (DEVMGR_OK, witness_upgrade)"
    by (simp add: witness_upgrade_def devmgr_upgrade_start_def)
  ultimately show ?thesis using upgrade_terminates [of devmgr_upgrade_init "Some [1, 2, 3]" 3 7 "Some [0x32]" 2
      witness_upgrade 1 w] by (simp only: relpowp_1) auto
qed

end
