(* ===== verification/Firmware.thy ===== *)
theory Firmware
  imports Crc32 Status
begin

section \<open>Firmware images (include/devmgr/firmware.h, src/upgrade/firmware.c)\<close>

text \<open>
  Opening an image file: what \<open>open\<close>, \<open>fstat\<close> and \<open>mmap\<close> answer is the environment, a
  parameter of the model. \<open>open_results\<close> are the results of the retried \<open>open\<close> call; when
  the list runs out the call fails for good. A mapping is the file's bytes; closing reports
  what is released, so that leaks are visible.
\<close>

abbreviation (input) DEVMGR_FIRMWARE_MAX_SIZE :: nat where "DEVMGR_FIRMWARE_MAX_SIZE \<equiv> 16777216"

record devmgr_firmware_image =
  fi_fd :: int
  fi_data :: "bytes ptr"
  fi_size :: nat
  fi_crc32 :: u32

datatype open_result = Opened nat | Open_EINTR | Open_failed

record file_env =
  fe_open :: "open_result list"
  fe_fstat_ok :: bool
  fe_is_regular :: bool
  fe_st_size :: int
  fe_mmap :: "bytes ptr"

datatype file_effect = Closed nat | Unmapped nat

definition zero_image :: devmgr_firmware_image where
  "zero_image = \<lparr>fi_fd = -1, fi_data = None, fi_size = 0, fi_crc32 = 0\<rparr>"

fun open_retry :: "open_result list \<Rightarrow> nat option" where
  "open_retry [] = None"
| "open_retry (Open_EINTR # rs) = open_retry rs"
| "open_retry (Open_failed # rs) = None"
| "open_retry (Opened fd # rs) = Some fd"

definition devmgr_firmware_open ::
  "file_env \<Rightarrow> devmgr_firmware_image \<Rightarrow> bytes ptr \<Rightarrow>
   devmgr_status \<times> devmgr_firmware_image \<times> file_effect list" where
  "devmgr_firmware_open env img path =
    (if path = None \<or> path = Some [] then (DEVMGR_ERROR_INVALID, img, [])
     else
       case open_retry (fe_open env) of
         None \<Rightarrow> (DEVMGR_ERROR_IO, zero_image, [])
       | Some fd \<Rightarrow>
           if \<not> fe_fstat_ok env \<or> \<not> fe_is_regular env \<or> fe_st_size env \<le> 0 \<or>
              nat (fe_st_size env) > DEVMGR_FIRMWARE_MAX_SIZE
           then (DEVMGR_ERROR_LIMIT, zero_image, [Closed fd])
           else
             case fe_mmap env of
               None \<Rightarrow> (DEVMGR_ERROR_IO, zero_image, [Closed fd])
             | Some mapping \<Rightarrow>
                 (DEVMGR_OK,
                  \<lparr>fi_fd = int fd, fi_data = Some mapping, fi_size = nat (fe_st_size env),
                   fi_crc32 = devmgr_crc32 (Some (take (nat (fe_st_size env)) mapping))\<rparr>, []))"

definition devmgr_firmware_close ::
  "devmgr_firmware_image \<Rightarrow> devmgr_firmware_image \<times> file_effect list" where
  "devmgr_firmware_close img =
    (zero_image,
     (if fi_data img \<noteq> None \<and> fi_size img \<noteq> 0 then [Unmapped (fi_size img)] else []) @
     (if fi_fd img \<ge> 0 then [Closed (nat (fi_fd img))] else []))"

text \<open>The entry points with their guards on \<open>NULL\<close> pointers.\<close>

definition devmgr_firmware_open_ptr ::
  "file_env \<Rightarrow> devmgr_firmware_image ptr \<Rightarrow> bytes ptr \<Rightarrow>
   devmgr_status \<times> devmgr_firmware_image ptr \<times> file_effect list" where
  "devmgr_firmware_open_ptr env img path =
    (case img of
       None \<Rightarrow> (DEVMGR_ERROR_INVALID, None, [])
     | Some i \<Rightarrow> (case devmgr_firmware_open env i path of (r, i', es) \<Rightarrow> (r, Some i', es)))"

definition devmgr_firmware_close_ptr ::
  "devmgr_firmware_image ptr \<Rightarrow> devmgr_firmware_image ptr \<times> file_effect list" where
  "devmgr_firmware_close_ptr img =
    (case img of
       None \<Rightarrow> (None, [])
     | Some i \<Rightarrow> (case devmgr_firmware_close i of (i', es) \<Rightarrow> (Some i', es)))"

subsection \<open>Validated images\<close>

text \<open>
  An image that \<open>devmgr_firmware_open\<close> handed out: descriptor and mapping are held, the size
  is within the limit, and the checksum is that of the mapped bytes.
\<close>

definition image_valid :: "devmgr_firmware_image \<Rightarrow> bool" where
  "image_valid img \<longleftrightarrow>
    (\<exists>d. fi_data img = Some d \<and> 0 \<le> fi_fd img \<and> 0 < fi_size img \<and> fi_size img \<le> DEVMGR_FIRMWARE_MAX_SIZE \<and>
      fi_size img \<le> length d \<and> fi_crc32 img = devmgr_crc32 (Some (take (fi_size img) d)))"

text \<open>\<open>mmap\<close> maps as many bytes as it was asked for.\<close>

definition mmap_law :: "file_env \<Rightarrow> bool" where
  "mmap_law env \<longleftrightarrow> (\<forall>d. fe_mmap env = Some d \<longrightarrow> nat (fe_st_size env) \<le> length d)"

lemma firmware_open_OK:
  assumes "devmgr_firmware_open env img path = (DEVMGR_OK, img', es)" and "mmap_law env"
  shows "image_valid img' \<and> es = [] \<and> open_retry (fe_open env) = Some (nat (fi_fd img'))"
  using assms
  by (auto simp: devmgr_firmware_open_def image_valid_def mmap_law_def split: if_splits option.splits)

lemma firmware_open_error:
  assumes "devmgr_firmware_open env img path = (r, img', es)" and "r \<noteq> DEVMGR_OK"
    and "fi_fd img = -1" and "fi_data img = None"
  shows "fi_fd img' = -1 \<and> fi_data img' = None \<and>
    (\<forall>fd. open_retry (fe_open env) = Some fd \<and> path \<noteq> None \<and> path \<noteq> Some [] \<longrightarrow> es = [Closed fd])"
  using assms by (auto simp: devmgr_firmware_open_def zero_image_def split: if_splits option.splits)

lemma firmware_close_releases:
  "image_valid img \<Longrightarrow>
   devmgr_firmware_close img = (zero_image, [Unmapped (fi_size img), Closed (nat (fi_fd img))])"
  by (auto simp: devmgr_firmware_close_def image_valid_def)

lemma firmware_close_twice:
  "devmgr_firmware_close (fst (devmgr_firmware_close img)) = (zero_image, [])"
  by (simp add: devmgr_firmware_close_def zero_image_def)

subsection \<open>Properties\<close>



end
