(* ===== verification/Worker.thy ===== *)
theory Worker
  imports Firmware "HOL-Library.Multiset"
begin

section \<open>Validation worker (include/devmgr/worker.h, src/worker/worker.c)\<close>

text \<open>
  One worker thread validates images for the reactor through a single-slot mailbox. Every
  critical section of the C code (between lock and unlock) is one function on the shared
  structure; the thread's program counter holds its local variables. The step relation
  interleaves the thread with the reactor's calls in every order. The mutex, the condition
  variable and the thread are not data of the record: the lock is the atomicity of the
  functions, waiting is the thread's inability to step.
\<close>

abbreviation (input) DEVMGR_WORKER_PATH_MAX :: nat where "DEVMGR_WORKER_PATH_MAX \<equiv> 4096"

record devmgr_validation_result =
  vr_job_id :: u32
  vr_status :: devmgr_status
  vr_image :: devmgr_firmware_image

record devmgr_worker =
  wk_event_fd :: int
  wk_initialized :: bool
  wk_stop :: bool
  wk_job_pending :: bool
  wk_job_running :: bool
  wk_result_pending :: bool
  wk_job_id :: u32
  wk_job_path :: bytes
  wk_result :: devmgr_validation_result

definition zero_worker :: devmgr_worker where
  "zero_worker = \<lparr>wk_event_fd = -1, wk_initialized = False, wk_stop = False, wk_job_pending = False,
     wk_job_running = False, wk_result_pending = False, wk_job_id = 0, wk_job_path = [],
     wk_result = \<lparr>vr_job_id = 0, vr_status = DEVMGR_OK, vr_image = zero_image\<rparr>\<rparr>"

text \<open>What the operating system answers during initialisation.\<close>

record worker_init_env =
  wi_mutex_ok :: bool
  wi_cond_ok :: bool
  wi_eventfd :: int
  wi_thread_ok :: bool

definition devmgr_worker_init :: "worker_init_env \<Rightarrow> devmgr_status \<times> devmgr_worker" where
  "devmgr_worker_init env =
    (if \<not> wi_mutex_ok env then (DEVMGR_ERROR_IO, zero_worker)
     else if \<not> wi_cond_ok env then (DEVMGR_ERROR_IO, zero_worker)
     else if wi_eventfd env < 0 then (DEVMGR_ERROR_IO, zero_worker\<lparr>wk_event_fd := wi_eventfd env\<rparr>)
     else if \<not> wi_thread_ok env then (DEVMGR_ERROR_IO, zero_worker)
     else (DEVMGR_OK, zero_worker\<lparr>wk_event_fd := wi_eventfd env, wk_initialized := True\<rparr>))"

definition devmgr_worker_submit_firmware ::
  "devmgr_worker \<Rightarrow> u32 \<Rightarrow> bytes ptr \<Rightarrow> devmgr_status \<times> devmgr_worker" where
  "devmgr_worker_submit_firmware w job_id path =
    (if \<not> wk_initialized w \<or> job_id = 0 \<or> path = None then (DEVMGR_ERROR_INVALID, w)
     else if length (the path) = 0 \<or> length (the path) \<ge> DEVMGR_WORKER_PATH_MAX then (DEVMGR_ERROR_LIMIT, w)
     else if wk_stop w \<or> wk_job_pending w \<or> wk_job_running w \<or> wk_result_pending w
     then (DEVMGR_ERROR_BUSY, w)
     else (DEVMGR_OK, w\<lparr>wk_job_path := the path, wk_job_id := job_id, wk_job_pending := True\<rparr>))"

definition devmgr_worker_get_event_fd :: "devmgr_worker ptr \<Rightarrow> int" where
  "devmgr_worker_get_event_fd w =
    (case w of None \<Rightarrow> -1 | Some k \<Rightarrow> if \<not> wk_initialized k then -1 else wk_event_fd k)"

definition devmgr_worker_take_result ::
  "devmgr_worker \<Rightarrow> (devmgr_status + devmgr_validation_result) \<times> devmgr_worker" where
  "devmgr_worker_take_result w =
    (if \<not> wk_initialized w then (Inl DEVMGR_ERROR_INVALID, w)
     else if \<not> wk_result_pending w then (Inl DEVMGR_ERROR_NOT_FOUND, w)
     else
       let r = wk_result w;
           emptied = (vr_image r)\<lparr>fi_fd := -1, fi_data := None, fi_size := 0\<rparr>
       in (Inr r, w\<lparr>wk_result := r\<lparr>vr_image := emptied\<rparr>, wk_result_pending := False\<rparr>))"

text \<open>
  The worker's critical sections: wake up with a job or with a stop request (\<open>None\<close>: keep
  waiting), and post the result.
\<close>

datatype wake_up = Exit_requested | Take_job u32 bytes

definition worker_wake :: "devmgr_worker \<Rightarrow> (wake_up \<times> devmgr_worker) option" where
  "worker_wake w =
    (if \<not> wk_stop w \<and> \<not> wk_job_pending w then None
     else if wk_stop w then Some (Exit_requested, w)
     else Some (Take_job (wk_job_id w) (wk_job_path w), w\<lparr>wk_job_pending := False, wk_job_running := True\<rparr>))"

definition worker_validate :: "file_env \<Rightarrow> u32 \<Rightarrow> bytes \<Rightarrow> devmgr_validation_result \<times> file_effect list" where
  "worker_validate env job_id path =
    (case devmgr_firmware_open env zero_image (Some path) of
       (status, img, es) \<Rightarrow> (\<lparr>vr_job_id = job_id, vr_status = status, vr_image = img\<rparr>, es))"

definition worker_post :: "devmgr_validation_result \<Rightarrow> devmgr_worker \<Rightarrow> devmgr_worker" where
  "worker_post r w = w\<lparr>wk_result := r, wk_job_running := False, wk_result_pending := True\<rparr>"

definition notify_reactor :: "nat \<Rightarrow> nat" where
  "notify_reactor counter = counter + 1"

text \<open>Shutdown: the stop request, and what follows once the thread has been joined.\<close>

definition worker_stop :: "devmgr_worker \<Rightarrow> devmgr_worker" where
  "worker_stop w = w\<lparr>wk_stop := True\<rparr>"

definition worker_joined :: "devmgr_worker \<Rightarrow> devmgr_worker \<times> file_effect list" where
  "worker_joined w =
    (case (if wk_result_pending w then devmgr_firmware_close (vr_image (wk_result w))
           else (vr_image (wk_result w), [])) of
       (img, es) \<Rightarrow>
         (w\<lparr>wk_result := (wk_result w)\<lparr>vr_image := img\<rparr>, wk_initialized := False, wk_event_fd := -1\<rparr>,
          es @ [Closed (nat (wk_event_fd w))]))"

text \<open>The entry points with their guards on \<open>NULL\<close> pointers.\<close>

definition devmgr_worker_init_ptr ::
  "worker_init_env \<Rightarrow> devmgr_worker ptr \<Rightarrow> devmgr_status \<times> devmgr_worker ptr" where
  "devmgr_worker_init_ptr env w = call_ptr DEVMGR_ERROR_INVALID (\<lambda>_. devmgr_worker_init env) w"

definition devmgr_worker_submit_firmware_ptr ::
  "devmgr_worker ptr \<Rightarrow> u32 \<Rightarrow> bytes ptr \<Rightarrow> devmgr_status \<times> devmgr_worker ptr" where
  "devmgr_worker_submit_firmware_ptr w job_id path =
    call_ptr DEVMGR_ERROR_INVALID (\<lambda>k. devmgr_worker_submit_firmware k job_id path) w"

definition devmgr_worker_take_result_ptr ::
  "devmgr_worker ptr \<Rightarrow> bool \<Rightarrow> (devmgr_status + devmgr_validation_result) \<times> devmgr_worker ptr" where
  "devmgr_worker_take_result_ptr w result_null =
    (if result_null then (Inl DEVMGR_ERROR_INVALID, w)
     else call_ptr (Inl DEVMGR_ERROR_INVALID) devmgr_worker_take_result w)"

subsection \<open>The thread and the reactor\<close>

text \<open>
  The thread waits, validates a job, posts its result, signals the reactor, or has ended.
  Beside the shared structure the system state counts event notifications and remembers, for
  the statements only, the jobs accepted, the results taken, the images opened and the effects
  of the shutdown.
\<close>

datatype worker_pc =
    Waiting
  | Validating u32 bytes
  | Posting devmgr_validation_result
  | Notifying
  | Ended

record worker_sys =
  ws_worker :: devmgr_worker
  ws_pc :: worker_pc
  ws_events :: nat
  ws_joined :: bool
  ws_submitted :: "u32 list"
  ws_taken :: "devmgr_validation_result list"
  ws_opened :: "devmgr_firmware_image list"
  ws_released :: "file_effect list"

definition held_image :: "devmgr_validation_result \<Rightarrow> devmgr_firmware_image list" where
  "held_image r = (if vr_status r = DEVMGR_OK then [vr_image r] else [])"

inductive worker_step :: "worker_sys \<Rightarrow> worker_sys \<Rightarrow> bool" where
  wake_job: "ws_pc s = Waiting \<Longrightarrow> worker_wake (ws_worker s) = Some (Take_job i p, w) \<Longrightarrow>
    worker_step s (s\<lparr>ws_worker := w, ws_pc := Validating i p\<rparr>)"
| wake_exit: "ws_pc s = Waiting \<Longrightarrow> worker_wake (ws_worker s) = Some (Exit_requested, w) \<Longrightarrow>
    worker_step s (s\<lparr>ws_worker := w, ws_pc := Ended\<rparr>)"
| validate: "ws_pc s = Validating i p \<Longrightarrow> mmap_law env \<Longrightarrow> worker_validate env i p = (r, es) \<Longrightarrow>
    worker_step s (s\<lparr>ws_pc := Posting r, ws_opened := ws_opened s @ held_image r\<rparr>)"
| post: "ws_pc s = Posting r \<Longrightarrow>
    worker_step s (s\<lparr>ws_worker := worker_post r (ws_worker s), ws_pc := Notifying\<rparr>)"
| notify: "ws_pc s = Notifying \<Longrightarrow>
    worker_step s (s\<lparr>ws_events := notify_reactor (ws_events s), ws_pc := Waiting\<rparr>)"
| submit: "devmgr_worker_submit_firmware (ws_worker s) i p = (DEVMGR_OK, w) \<Longrightarrow>
    worker_step s (s\<lparr>ws_worker := w, ws_submitted := ws_submitted s @ [i]\<rparr>)"
| take_result: "devmgr_worker_take_result (ws_worker s) = (Inr r, w) \<Longrightarrow>
    worker_step s (s\<lparr>ws_worker := w, ws_taken := ws_taken s @ [r]\<rparr>)"
| drain_events: "worker_step s (s\<lparr>ws_events := 0\<rparr>)"
| stop: "wk_initialized (ws_worker s) \<Longrightarrow> worker_step s (s\<lparr>ws_worker := worker_stop (ws_worker s)\<rparr>)"
| join: "wk_initialized (ws_worker s) \<Longrightarrow> wk_stop (ws_worker s) \<Longrightarrow> ws_pc s = Ended \<Longrightarrow>
    worker_joined (ws_worker s) = (w, es) \<Longrightarrow>
    worker_step s (s\<lparr>ws_worker := w, ws_joined := True, ws_released := ws_released s @ es\<rparr>)"

inductive_cases worker_stepE: "worker_step s t"

definition worker_start :: "int \<Rightarrow> worker_sys" where
  "worker_start fd = \<lparr>ws_worker = zero_worker\<lparr>wk_event_fd := fd, wk_initialized := True\<rparr>, ws_pc = Waiting,
     ws_events = 0, ws_joined = False, ws_submitted = [], ws_taken = [], ws_opened = [], ws_released = []\<rparr>"

subsection \<open>Invariants\<close>

text \<open>The job that occupies the slot: queued, being validated, or with its result waiting.\<close>

definition current_job :: "devmgr_worker \<Rightarrow> u32 list" where
  "current_job w =
    (if wk_result_pending w then [vr_job_id (wk_result w)]
     else if wk_job_pending w \<or> wk_job_running w then [wk_job_id w] else [])"

definition slot_inv :: "worker_sys \<Rightarrow> bool" where
  "slot_inv s \<longleftrightarrow>
    (let w = ws_worker s in
     \<not> (wk_job_pending w \<and> wk_job_running w) \<and> \<not> (wk_job_pending w \<and> wk_result_pending w) \<and>
     \<not> (wk_job_running w \<and> wk_result_pending w) \<and>
     (ws_joined s \<longrightarrow> ws_pc s = Ended \<and> \<not> wk_initialized w) \<and>
     (case ws_pc s of
        Validating i p \<Rightarrow> wk_job_running w \<and> i = wk_job_id w
      | Posting r \<Rightarrow> wk_job_running w \<and> vr_job_id r = wk_job_id w
      | _ \<Rightarrow> \<not> wk_job_running w))"

definition order_inv :: "worker_sys \<Rightarrow> bool" where
  "order_inv s \<longleftrightarrow> ws_submitted s = map vr_job_id (ws_taken s) @ current_job (ws_worker s)"

text \<open>
  Every image that was opened has been taken, is on its way to the mailbox or in it, or has been
  released by the shutdown: unmapped and its descriptor closed.
\<close>

definition image_effects :: "devmgr_firmware_image \<Rightarrow> file_effect list" where
  "image_effects img = [Unmapped (fi_size img), Closed (nat (fi_fd img))]"

definition clean_result :: "devmgr_validation_result \<Rightarrow> bool" where
  "clean_result r \<longleftrightarrow> snd (devmgr_firmware_close (vr_image r)) = concat (map image_effects (held_image r))"

definition pc_images :: "worker_pc \<Rightarrow> devmgr_firmware_image list" where
  "pc_images pc = (case pc of Posting r \<Rightarrow> held_image r | _ \<Rightarrow> [])"

definition mailbox_images :: "devmgr_worker \<Rightarrow> devmgr_firmware_image list" where
  "mailbox_images w = (if wk_result_pending w then held_image (wk_result w) else [])"

definition taken_images :: "worker_sys \<Rightarrow> devmgr_firmware_image list" where
  "taken_images s = concat (map held_image (ws_taken s))"

definition image_inv :: "int \<Rightarrow> worker_sys \<Rightarrow> bool" where
  "image_inv fd s \<longleftrightarrow>
    (if ws_joined s
     then \<exists>left. mset (ws_opened s) = mset (taken_images s) + mset left \<and> length left \<le> 1 \<and>
            ws_released s = concat (map image_effects left) @ [Closed (nat fd)]
     else mset (ws_opened s) = mset (taken_images s) + mset (mailbox_images (ws_worker s)) + mset (pc_images (ws_pc s)) \<and>
          ws_released s = [] \<and> wk_event_fd (ws_worker s) = fd \<and> (wk_result_pending (ws_worker s) \<longrightarrow> clean_result (wk_result (ws_worker s))) \<and>
          (case ws_pc s of Posting r \<Rightarrow> clean_result r | _ \<Rightarrow> True))"

definition valid_inv :: "worker_sys \<Rightarrow> bool" where
  "valid_inv s \<longleftrightarrow> (\<forall>img \<in> set (ws_opened s). image_valid img)"

definition worker_inv :: "int \<Rightarrow> worker_sys \<Rightarrow> bool" where
  "worker_inv fd s \<longleftrightarrow> slot_inv s \<and> order_inv s \<and> image_inv fd s \<and> valid_inv s"

named_theorems worker_defs

lemmas worker_op_defs [worker_defs] = worker_wake_def devmgr_worker_submit_firmware_def
  devmgr_worker_take_result_def worker_joined_def worker_stop_def worker_post_def Let_def

lemma worker_validate_result:
  "worker_validate env i p = (r, es) \<Longrightarrow> vr_job_id r = i"
  by (auto simp: worker_validate_def split: prod.splits)

lemma worker_validate_valid:
  "worker_validate env i p = (r, es) \<Longrightarrow> mmap_law env \<Longrightarrow> img \<in> set (held_image r) \<Longrightarrow> image_valid img"
  using firmware_open_OK [of env zero_image "Some p"]
  by (auto simp: worker_validate_def held_image_def split: prod.splits if_splits)

lemma slot_step: "slot_inv s \<Longrightarrow> worker_step s t \<Longrightarrow> slot_inv t"
  by (erule worker_stepE)
     (auto simp: slot_inv_def worker_defs dest: worker_validate_result split: if_splits worker_pc.splits prod.splits)

lemma order_step: "slot_inv s \<Longrightarrow> order_inv s \<Longrightarrow> worker_step s t \<Longrightarrow> order_inv t"
  by (erule worker_stepE)
     (auto simp: order_inv_def slot_inv_def current_job_def worker_defs split: if_splits prod.splits)

lemma worker_validate_clean:
  assumes "worker_validate env i p = (r, es)" "mmap_law env"
  shows "clean_result r"
  using assms firmware_open_OK [of env zero_image "Some p"] firmware_open_error [of env zero_image "Some p"]
  by (auto simp: worker_validate_def clean_result_def held_image_def image_effects_def devmgr_firmware_close_def image_valid_def
      zero_image_def split: prod.splits)

lemma join_released:
  assumes "worker_joined w = (w', es)" "wk_result_pending w \<longrightarrow> clean_result (wk_result w)"
  shows "es = concat (map image_effects (mailbox_images w)) @ [Closed (nat (wk_event_fd w))]" "length (mailbox_images w) \<le> 1"
  using assms by (auto simp: worker_joined_def clean_result_def mailbox_images_def held_image_def split: if_splits prod.splits)

lemma image_step:
  assumes "slot_inv s" "image_inv fd s" "worker_step s t"
  shows "image_inv fd t"
  using assms(3)
proof cases
  case (join w es)
  have nj: "\<not> ws_joined s" using assms(1) join(2) by (auto simp: slot_inv_def Let_def)
  then have i: "mset (ws_opened s) = mset (taken_images s) + mset (mailbox_images (ws_worker s))" "ws_released s = []"
    "wk_event_fd (ws_worker s) = fd" "wk_result_pending (ws_worker s) \<longrightarrow> clean_result (wk_result (ws_worker s))"
    using assms(2) join(4) by (simp_all add: image_inv_def pc_images_def)
  have "taken_images t = taken_images s" using join(1) by (simp add: taken_images_def)
  then show ?thesis using i join_released [OF join(5) i(4)] join(1) by (auto simp: image_inv_def)
qed (use assms(1,2) in \<open>auto simp: image_inv_def slot_inv_def mailbox_images_def pc_images_def taken_images_def worker_defs
       intro: worker_validate_clean split: if_splits prod.splits\<close>)

lemma valid_step: "valid_inv s \<Longrightarrow> worker_step s t \<Longrightarrow> valid_inv t"
  by (erule worker_stepE) (auto simp: valid_inv_def intro: worker_validate_valid)

interpretation wkr: inductive_invariant worker_step "worker_inv fd"
  by unfold_locales (simp add: worker_inv_def, blast intro: slot_step order_step image_step valid_step)

lemma worker_start_inv: "worker_inv fd (worker_start fd)"
  by (simp add: worker_inv_def worker_start_def slot_inv_def order_inv_def image_inv_def valid_inv_def
      current_job_def mailbox_images_def pc_images_def taken_images_def zero_worker_def Let_def)

text \<open>How far the thread is from its end once it has been asked to stop.\<close>

definition pc_rank :: "worker_pc \<Rightarrow> nat" where
  "pc_rank pc = (case pc of Validating _ _ \<Rightarrow> 4 | Posting _ \<Rightarrow> 3 | Notifying \<Rightarrow> 2 | Waiting \<Rightarrow> 1 | Ended \<Rightarrow> 0)"

subsection \<open>Properties\<close>

text \<open>
  C10. The mailbox has one slot and keeps order: in every interleaving of thread and reactor,
  the results taken so far answer the accepted jobs one by one in the order of submission, at
  most one more job is under way, and while it is, a further submission is refused as busy.
\<close>

theorem worker_answers_in_order:
  assumes "reach worker_step (worker_start fd) s"
  shows "(\<exists>cur. ws_submitted s = map vr_job_id (ws_taken s) @ cur \<and> length cur \<le> 1 \<and>
    (cur \<noteq> [] \<longrightarrow> (\<forall>i p. fst (devmgr_worker_submit_firmware (ws_worker s) i p) \<noteq> DEVMGR_OK)))"
proof -
  have "order_inv s" using wkr.reach_preserves [OF assms worker_start_inv] by (simp add: worker_inv_def)
  then show ?thesis
    by (intro exI [of _ "current_job (ws_worker s)"])
       (auto simp: order_inv_def current_job_def devmgr_worker_submit_firmware_def split: if_splits)
qed



lemma submit_step_start:
  "worker_step (worker_start fd) ((worker_start fd)\<lparr>
     ws_worker := (ws_worker (worker_start fd))\<lparr>wk_job_path := [0x66], wk_job_id := 1, wk_job_pending := True\<rparr>,
     ws_submitted := [1]\<rparr>)"
  using submit [of "worker_start fd" 1 "Some [0x66]"]
  by (simp add: worker_start_def zero_worker_def devmgr_worker_submit_firmware_def)

theorem worker_answers_in_order_witness:
  "\<exists>s. reach worker_step (worker_start 3) s \<and> ws_submitted s = [1] \<and>
     (\<exists>cur. ws_submitted s = map vr_job_id (ws_taken s) @ cur \<and> length cur \<le> 1)"
proof -
  have r: "reach worker_step (worker_start 3) ((worker_start 3)\<lparr>
      ws_worker := (ws_worker (worker_start 3))\<lparr>wk_job_path := [0x66], wk_job_id := 1, wk_job_pending := True\<rparr>,
      ws_submitted := [1]\<rparr>)"
    using submit_step_start by blast
  from worker_answers_in_order [OF r] r show ?thesis by fastforce
qed

text \<open>A job is submitted, validated and posted; the worker is destroyed before anyone takes the result.\<close>

lemma abandoned_job_run:
  obtains s where "reach worker_step (worker_start 3) s" "ws_joined s"
    "ws_opened s = [\<lparr>fi_fd = 7, fi_data = Some [1, 2, 3], fi_size = 3, fi_crc32 = devmgr_crc32 (Some [1, 2, 3])\<rparr>]" "ws_taken s = []"
proof -
  let ?env = "\<lparr>fe_open = [Opened 7], fe_fstat_ok = True, fe_is_regular = True, fe_st_size = 3, fe_mmap = Some [1, 2, 3]\<rparr>"
  let ?img = "\<lparr>fi_fd = 7, fi_data = Some [1, 2, 3], fi_size = 3, fi_crc32 = devmgr_crc32 (Some [1, 2, 3])\<rparr>"
  let ?r = "\<lparr>vr_job_id = 1, vr_status = DEVMGR_OK, vr_image = ?img\<rparr>"
  define w where "w = zero_worker\<lparr>wk_event_fd := 3, wk_initialized := True, wk_job_path := [0x66], wk_job_id := 1\<rparr>"
  define z where "z = (worker_start 3)\<lparr>ws_worker := w, ws_submitted := [1]\<rparr>"
  have step1: "worker_step (worker_start 3) (z\<lparr>ws_worker := w\<lparr>wk_job_pending := True\<rparr>\<rparr>)"
    using submit_step_start [of 3] by (simp add: z_def w_def worker_start_def)
  have step2: "worker_step (z\<lparr>ws_worker := w\<lparr>wk_job_pending := True\<rparr>\<rparr>)
      (z\<lparr>ws_worker := w\<lparr>wk_job_running := True\<rparr>, ws_pc := Validating 1 [0x66]\<rparr>)"
    using wake_job [of "z\<lparr>ws_worker := w\<lparr>wk_job_pending := True\<rparr>\<rparr>" 1 "[0x66]" "w\<lparr>wk_job_running := True\<rparr>"]
    by (simp add: z_def w_def worker_start_def worker_wake_def zero_worker_def)
  have step3: "worker_step (z\<lparr>ws_worker := w\<lparr>wk_job_running := True\<rparr>, ws_pc := Validating 1 [0x66]\<rparr>)
      (z\<lparr>ws_worker := w\<lparr>wk_job_running := True\<rparr>, ws_pc := Posting ?r, ws_opened := [?img]\<rparr>)"
    using validate [of "z\<lparr>ws_worker := w\<lparr>wk_job_running := True\<rparr>, ws_pc := Validating 1 [0x66]\<rparr>" 1 "[0x66]" ?env ?r "[]"]
    by (simp add: z_def worker_start_def worker_validate_def devmgr_firmware_open_def mmap_law_def held_image_def)
  let ?w = "w\<lparr>wk_result := ?r, wk_result_pending := True\<rparr>"
  have step4: "worker_step (z\<lparr>ws_worker := w\<lparr>wk_job_running := True\<rparr>, ws_pc := Posting ?r, ws_opened := [?img]\<rparr>)
      (z\<lparr>ws_worker := ?w, ws_pc := Notifying, ws_opened := [?img]\<rparr>)"
    using post [of "z\<lparr>ws_worker := w\<lparr>wk_job_running := True\<rparr>, ws_pc := Posting ?r, ws_opened := [?img]\<rparr>" ?r]
    by (simp add: z_def w_def worker_start_def worker_post_def zero_worker_def)
  have step5: "worker_step (z\<lparr>ws_worker := ?w, ws_pc := Notifying, ws_opened := [?img]\<rparr>)
      (z\<lparr>ws_worker := ?w, ws_events := 1, ws_opened := [?img]\<rparr>)"
    using notify [of "z\<lparr>ws_worker := ?w, ws_pc := Notifying, ws_opened := [?img]\<rparr>"]
    by (simp add: z_def worker_start_def notify_reactor_def)
  have step6: "worker_step (z\<lparr>ws_worker := ?w, ws_events := 1, ws_opened := [?img]\<rparr>)
      (z\<lparr>ws_worker := worker_stop ?w, ws_events := 1, ws_opened := [?img]\<rparr>)"
    using stop [of "z\<lparr>ws_worker := ?w, ws_events := 1, ws_opened := [?img]\<rparr>"] by (simp add: z_def w_def worker_start_def)
  have step7: "worker_step (z\<lparr>ws_worker := worker_stop ?w, ws_events := 1, ws_opened := [?img]\<rparr>)
      (z\<lparr>ws_worker := worker_stop ?w, ws_events := 1, ws_opened := [?img], ws_pc := Ended\<rparr>)"
    using wake_exit [of "z\<lparr>ws_worker := worker_stop ?w, ws_events := 1, ws_opened := [?img]\<rparr>" "worker_stop ?w"]
    by (simp add: z_def worker_start_def worker_wake_def worker_stop_def)
  obtain w' es where j: "worker_joined (worker_stop ?w) = (w', es)" by (rule prod.exhaust)
  have step8: "worker_step (z\<lparr>ws_worker := worker_stop ?w, ws_events := 1, ws_opened := [?img], ws_pc := Ended\<rparr>)
      (z\<lparr>ws_worker := w', ws_events := 1, ws_opened := [?img], ws_pc := Ended, ws_joined := True, ws_released := es\<rparr>)"
    using join [of "z\<lparr>ws_worker := worker_stop ?w, ws_events := 1, ws_opened := [?img], ws_pc := Ended\<rparr>" w' es] j
    by (simp add: z_def w_def worker_start_def worker_stop_def)
  show thesis
    by (rule that [of "z\<lparr>ws_worker := w', ws_events := 1, ws_opened := [?img], ws_pc := Ended, ws_joined := True, ws_released := es\<rparr>"])
       (use step1 step2 step3 step4 step5 step6 step7 step8 in \<open>meson reach_refl reach_step\<close>, simp_all add: z_def worker_start_def)
qed



end
