(* ===== verification/Fw_Device.thy ===== *)
theory Fw_Device
  imports Session Upgrade Firmware "HOL-Library.Sublist"
begin

section \<open>Firmware devices and the link to them\<close>

text \<open>
  What the host relies on when it upgrades a device, as the interface \<open>fw_device\<close>: how a device
  answers the requests of \<open>src/upgrade/upgrade.c\<close> and what they change. The device simulator and
  the STM32 bootloader are both instances. The other side is the link: upgrade machine and session
  as the daemon composes them, a first-in first-out line in each direction that may lose frames
  (damaged frames are dropped by the decoder, so they are lost too), retransmission and recovery.
  The theorem proved inside the interface says that an upgrade that completes has installed the
  image, whatever was lost, repeated or delayed.
\<close>

subsection \<open>The requests\<close>

definition begin_payload :: "bytes \<Rightarrow> u32 \<times> u32 \<times> bytes" where
  "begin_payload p = (devmgr_get_le32 p, devmgr_get_le32 (drop 4 p), cstr (drop 10 p))"

definition data_part :: "devmgr_frame \<Rightarrow> bytes" where
  "data_part q = region (fr_payload q) 8 (unat (fr_payload_length q) - 8)"

definition data_offset :: "devmgr_frame \<Rightarrow> u32" where
  "data_offset q = devmgr_get_le32 (drop 4 (fr_payload q))"

definition simple_request :: "u8 \<Rightarrow> bool" where
  "simple_request t \<longleftrightarrow> t = DEVMGR_MSG_ENTER_BOOTLOADER \<or> t = DEVMGR_MSG_FW_STATUS \<or> t = DEVMGR_MSG_FW_END \<or>
     t = DEVMGR_MSG_FW_VERIFY \<or> t = DEVMGR_MSG_FW_ACTIVATE \<or> t = DEVMGR_MSG_REBOOT"

text \<open>The place of a request in the order of an upgrade, and of the host's states.\<close>

definition frame_rank :: "devmgr_frame \<Rightarrow> nat" where
  "frame_rank q =
    (let t = fr_type q in
     if t = DEVMGR_MSG_ENTER_BOOTLOADER then 0 else if t = DEVMGR_MSG_FW_BEGIN then 1
     else if t = DEVMGR_MSG_FW_DATA \<or> t = DEVMGR_MSG_FW_STATUS then 2 else if t = DEVMGR_MSG_FW_END then 3
     else if t = DEVMGR_MSG_FW_VERIFY then 4 else if t = DEVMGR_MSG_FW_ACTIVATE then 5 else 6)"

fun state_rank :: "devmgr_upgrade_state \<Rightarrow> nat" where
  "state_rank DEVMGR_UPGRADE_BEGIN = 1"
| "state_rank DEVMGR_UPGRADE_TRANSFER = 2"
| "state_rank DEVMGR_UPGRADE_RECOVER = 2"
| "state_rank DEVMGR_UPGRADE_END = 3"
| "state_rank DEVMGR_UPGRADE_VERIFY = 4"
| "state_rank DEVMGR_UPGRADE_ACTIVATE = 5"
| "state_rank DEVMGR_UPGRADE_REBOOT = 6"
| "state_rank DEVMGR_UPGRADE_COMPLETE = 7"
| "state_rank _ = 0"

definition up_params :: "devmgr_upgrade \<Rightarrow> u32 \<times> u32 \<times> bytes" where
  "up_params u = (of_nat (up_image_size u), up_image_crc u, up_version u)"

definition up_image :: "devmgr_upgrade \<Rightarrow> bytes" where
  "up_image u = take (up_image_size u) (the (up_image_data u))"

text \<open>A request the host sends in this upgrade.\<close>

definition honest :: "devmgr_upgrade \<Rightarrow> devmgr_frame \<Rightarrow> bool" where
  "honest u q \<longleftrightarrow> frame_wf q \<and>
     (fr_type q = DEVMGR_MSG_FW_BEGIN \<and> begin_payload (fr_payload q) = up_params u \<or>
      fr_type q = DEVMGR_MSG_FW_DATA \<and>
        data_part q = region (up_image u) (unat (data_offset q)) (length (data_part q)) \<or>
      simple_request (fr_type q))"

subsection \<open>The interface of a device\<close>

text \<open>
  \<open>opened\<close>: an upgrade session is open; \<open>announced\<close>: size, checksum and version given by
  \<open>FW_BEGIN\<close>; \<open>received\<close>: the bytes stored so far; \<open>sealed\<close>: the session no longer takes part
  in resumption; \<open>running\<close>: the version that runs after the next reboot. \<open>handle\<close> answers a
  request, or stays silent, in an environment that satisfies \<open>env_ok\<close>.
\<close>

locale fw_device =
  fixes handle :: "'e \<Rightarrow> 's \<Rightarrow> devmgr_frame \<Rightarrow> devmgr_frame option \<times> 's"
    and env_ok :: "'e \<Rightarrow> bool" and inv :: "'s \<Rightarrow> bool" and opened :: "'s \<Rightarrow> bool" and sealed :: "'s \<Rightarrow> bool"
    and announced :: "'s \<Rightarrow> u32 \<times> u32 \<times> bytes" and received :: "'s \<Rightarrow> bytes" and running :: "'s \<Rightarrow> bytes"
  assumes answer_type: "inv s \<Longrightarrow> env_ok e \<Longrightarrow> frame_wf q \<Longrightarrow> handle e s q = (Some r, s') \<Longrightarrow>
      fr_type r = fr_type q \<or> fr_type r = DEVMGR_MSG_NACK"
    and begin_law: "inv s \<Longrightarrow> env_ok e \<Longrightarrow> frame_wf q \<Longrightarrow> fr_type q = DEVMGR_MSG_FW_BEGIN \<Longrightarrow> \<not> sealed s \<Longrightarrow>
      (opened s \<Longrightarrow> announced s = begin_payload (fr_payload q)) \<Longrightarrow> handle e s q = (ro, s') \<Longrightarrow>
      inv s' \<and> \<not> sealed s' \<and> running s' = running s \<and>
      (opened s' = opened s \<and> announced s' = announced s \<and> (opened s \<longrightarrow> received s' = received s) \<or>
       opened s' \<and> announced s' = begin_payload (fr_payload q) \<and> received s' = [])"
    and data_law: "inv s \<Longrightarrow> env_ok e \<Longrightarrow> frame_wf q \<Longrightarrow> fr_type q = DEVMGR_MSG_FW_DATA \<Longrightarrow>
      handle e s q = (ro, s') \<Longrightarrow>
      inv s' \<and> opened s' = opened s \<and> sealed s' = sealed s \<and> announced s' = announced s \<and> running s' = running s \<and>
      (received s' = received s \<or>
       unat (data_offset q) = length (received s) \<and> received s' = received s @ data_part q)"
    and simple_law: "inv s \<Longrightarrow> env_ok e \<Longrightarrow> frame_wf q \<Longrightarrow> simple_request (fr_type q) \<Longrightarrow>
      handle e s q = (ro, s') \<Longrightarrow>
      inv s' \<and> (opened s' \<longrightarrow> opened s) \<and> (sealed s' \<longrightarrow> sealed s \<or> fr_type q = DEVMGR_MSG_FW_END) \<and>
      announced s' = announced s \<and> received s' = received s \<and>
      (running s' = running s \<or> fr_type q = DEVMGR_MSG_FW_ACTIVATE \<and> running s' = snd (snd (announced s)))"
    and end_law: "inv s \<Longrightarrow> env_ok e \<Longrightarrow> frame_wf q \<Longrightarrow> fr_type q = DEVMGR_MSG_FW_END \<Longrightarrow>
      handle e s q = (Some r, s') \<Longrightarrow> fr_type r = DEVMGR_MSG_FW_END \<Longrightarrow>
      opened s \<and> length (received s) = unat (fst (announced s))"
    and activate_law: "inv s \<Longrightarrow> env_ok e \<Longrightarrow> frame_wf q \<Longrightarrow> fr_type q = DEVMGR_MSG_FW_ACTIVATE \<Longrightarrow>
      handle e s q = (Some r, s') \<Longrightarrow> fr_type r = DEVMGR_MSG_FW_ACTIVATE \<Longrightarrow>
      running s' = snd (snd (announced s))"

subsection \<open>The link\<close>

record 's link =
  lk_upgrade :: devmgr_upgrade
  lk_session :: devmgr_session
  lk_out :: "devmgr_frame list"
  lk_device :: 's
  lk_in :: "devmgr_frame list"

text \<open>The steps of host, line and device, in every order.\<close>

inductive link_step ::
  "('e \<Rightarrow> 's \<Rightarrow> devmgr_frame \<Rightarrow> devmgr_frame option \<times> 's) \<Rightarrow> ('e \<Rightarrow> bool) \<Rightarrow> 's link \<Rightarrow> 's link \<Rightarrow> bool"
  for handle :: "'e \<Rightarrow> 's \<Rightarrow> devmgr_frame \<Rightarrow> devmgr_frame option \<times> 's" and env_ok :: "'e \<Rightarrow> bool" where
  link_send: "devmgr_upgrade_build_request (lk_upgrade l) = (Inr f, u) \<Longrightarrow>
    devmgr_session_begin_request (lk_session l) (fr_type f) (fr_flags f) (Some (fr_payload f))
      (fr_payload_length f) policy now = (Inr q, se) \<Longrightarrow>
    link_step handle env_ok l (l\<lparr>lk_upgrade := u, lk_session := se, lk_out := lk_out l @ [q]\<rparr>)"
| link_tick: "devmgr_session_tick (lk_session l) now send_log (lk_out l) = (r, se, out) \<Longrightarrow>
    r \<noteq> DEVMGR_ERROR_TIMEOUT \<Longrightarrow> link_step handle env_ok l (l\<lparr>lk_session := se, lk_out := out\<rparr>)"
| link_timeout: "devmgr_session_tick (lk_session l) now send_log (lk_out l) = (DEVMGR_ERROR_TIMEOUT, se, out) \<Longrightarrow>
    devmgr_upgrade_begin_recovery (lk_upgrade l) = (r, u) \<Longrightarrow>
    link_step handle env_ok l (l\<lparr>lk_session := se, lk_out := out,
      lk_upgrade := if r = DEVMGR_OK then u else u\<lparr>up_state := DEVMGR_UPGRADE_ERROR\<rparr>\<rparr>)"
| link_lose_out: "lk_out l = xs @ q # ys \<Longrightarrow> link_step handle env_ok l (l\<lparr>lk_out := xs @ ys\<rparr>)"
| link_lose_in: "lk_in l = xs @ r # ys \<Longrightarrow> link_step handle env_ok l (l\<lparr>lk_in := xs @ ys\<rparr>)"
| link_deliver: "lk_out l = q # qs \<Longrightarrow> env_ok e \<Longrightarrow> handle e (lk_device l) q = (ro, s) \<Longrightarrow>
    link_step handle env_ok l (l\<lparr>lk_out := qs, lk_device := s,
      lk_in := lk_in l @ (case ro of None \<Rightarrow> [] | Some r \<Rightarrow> [r])\<rparr>)"
| link_receive: "lk_in l = r # rs \<Longrightarrow> devmgr_upgrade_active (lk_upgrade l) \<Longrightarrow>
    devmgr_session_accept_response (lk_session l) r = (DEVMGR_OK, se) \<Longrightarrow>
    devmgr_upgrade_accept_response (lk_upgrade l) (fr_type (pe_frame (se_pending (lk_session l)))) r = (st, u) \<Longrightarrow>
    link_step handle env_ok l (l\<lparr>lk_in := rs, lk_session := se, lk_upgrade := u\<rparr>)"
| link_ignore: "lk_in l = r # rs \<Longrightarrow> devmgr_session_accept_response (lk_session l) r = (st, se) \<Longrightarrow>
    st \<noteq> DEVMGR_OK \<Longrightarrow> link_step handle env_ok l (l\<lparr>lk_in := rs, lk_session := se\<rparr>)"

text \<open>A link before the first request.\<close>

abbreviation fresh_link :: "devmgr_upgrade \<Rightarrow> 's \<Rightarrow> 's link" where
  "fresh_link u s \<equiv> \<lparr>lk_upgrade = u, lk_session = devmgr_session_init, lk_out = [], lk_device = s, lk_in = []\<rparr>"

inductive_cases link_stepE: "link_step handle env_ok l l'"

subsection \<open>The host's side\<close>

lemma honest_frame:
  "fr_type q = fr_type p \<Longrightarrow> fr_payload q = fr_payload p \<Longrightarrow> fr_payload_length q = fr_payload_length p \<Longrightarrow>
   honest u q = honest u p \<and> frame_rank q = frame_rank p"
  by (simp add: honest_def data_part_def data_offset_def frame_wf_def frame_rank_def)

lemma honest_upgrade:
  "up_params v = up_params u \<Longrightarrow> up_image v = up_image u \<Longrightarrow> honest v q = honest u q"
  by (simp add: honest_def)

lemma data_request:
  assumes "length sid = 4" "length off = 4" "frame_wf q" "fr_payload q = sid @ off @ d"
  shows "data_part q = d" "data_offset q = devmgr_get_le32 off"
proof -
  have "unat (fr_payload_length q) = 8 + length d" using assms by (simp add: frame_wf_def)
  then show "data_part q = d" using assms by (simp add: data_part_def region_def)
  have "drop 4 (fr_payload q) = off @ d" using assms by simp
  then show "data_offset q = devmgr_get_le32 off"
    using assms(2) by (simp add: data_offset_def devmgr_get_le32_def nth_append)
qed

lemma begin_payload_request:
  "0 \<notin> set v \<Longrightarrow> begin_payload (devmgr_put_le32 a @ devmgr_put_le32 b @ devmgr_put_le16 c @ v @ [0]) = (a, b, v)"
  by (simp add: begin_payload_def)

lemma build_rank:
  "devmgr_upgrade_build_request u = (Inr f, v) \<Longrightarrow> frame_rank f = state_rank (up_state u)"
  unfolding devmgr_upgrade_build_request_def
  by (cases "up_state u") (auto simp: frame_rank_def request_frame_def Let_def split: if_splits)

lemma build_honest:
  assumes inv: "upgrade_inv u" and v: "0 \<notin> set (up_version u)" and b: "devmgr_upgrade_build_request u = (Inr f, u')"
  shows "honest u f"
proof -
  have wf: "frame_wf f" using build_request_wf [OF inv b] .
  consider (begin_fw) "up_state u = DEVMGR_UPGRADE_BEGIN" | (transfer) "up_state u = DEVMGR_UPGRADE_TRANSFER"
    | (simple) "simple_request (fr_type f)"
    using b unfolding devmgr_upgrade_build_request_def
    by (cases "up_state u") (auto simp: simple_request_def request_frame_def split: if_splits)
  then show ?thesis
  proof cases
    case begin_fw
    then have "fr_type f = DEVMGR_MSG_FW_BEGIN" "fr_payload f = devmgr_put_le32 (of_nat (up_image_size u)) @
        devmgr_put_le32 (up_image_crc u) @ devmgr_put_le16 (up_chunk_size u) @ up_version u @ [0]"
      using b by (auto simp: devmgr_upgrade_build_request_def request_frame_def Let_def)
    then show ?thesis using wf begin_payload_request [OF v] by (simp add: honest_def up_params_def)
  next
    case transfer
    note c = chunk_len_bounds [OF inv transfer]
    have f: "fr_type f = DEVMGR_MSG_FW_DATA" "fr_payload f = devmgr_put_le32 (up_session_id u) @
        devmgr_put_le32 (up_offset u) @ region (the (up_image_data u)) (unat (up_offset u)) (chunk_len u)"
      using b build_transfer [OF inv transfer] by (auto simp: request_frame_def)
    let ?d = "region (the (up_image_data u)) (unat (up_offset u)) (chunk_len u)"
    have d: "data_part f = ?d" "data_offset f = up_offset u"
      using data_request [OF _ _ wf f(2)] by simp_all
    have "up_image_size u \<le> length (the (up_image_data u))" using inv by (auto simp: upgrade_inv_def upgrade_meta_def)
    then have "length ?d = chunk_len u" using c(4) by simp
    then have "region (up_image u) (unat (up_offset u)) (length ?d) = ?d"
      using c(4) by (simp add: up_image_def region_def drop_take min_def)
    then show ?thesis using wf f(1) d by (simp add: honest_def)
  next
    case simple
    then show ?thesis using wf by (simp add: honest_def)
  qed
qed

lemma begin_request_frame:
  assumes "devmgr_session_begin_request se t fl (Some p) n policy now = (Inr q, se')"
  shows "fr_type q = t \<and> fr_payload q = take (unat n) p \<and> fr_payload_length q = n \<and>
    pe_frame (se_pending se') = q \<and> pe_active (se_pending se')"
  using assms by (auto simp: devmgr_session_begin_request_def Let_def split: if_splits)

lemma tick_frame:
  assumes "devmgr_session_tick se now send_log out = (r, se', out')"
  shows "(out' = out \<or> pe_active (se_pending se) \<and> out' = out @ [retry_frame se]) \<and>
    (pe_active (se_pending se') \<longrightarrow> pe_active (se_pending se)) \<and>
    (r = DEVMGR_ERROR_TIMEOUT \<longrightarrow> \<not> pe_active (se_pending se') \<and> out' = out) \<and>
    (pe_frame (se_pending se') = pe_frame (se_pending se) \<or> pe_frame (se_pending se') = retry_frame se)"
  using assms unfolding devmgr_session_tick_def send_log_def Let_def
  by (auto split: if_splits)

lemma accept_session_frame:
  assumes "devmgr_session_accept_response se r = (st, se')"
  shows "pe_frame (se_pending se') = pe_frame (se_pending se)"
    "pe_active (se_pending se') \<longrightarrow> pe_active (se_pending se)"
    "st = DEVMGR_OK \<Longrightarrow> \<not> pe_active (se_pending se') \<and>
      (fr_type r = fr_type (pe_frame (se_pending se)) \<or> reply_type (fr_type r))"
  using assms unfolding devmgr_session_accept_response_def Let_def reply_type_def
  by (auto split: if_splits)

text \<open>
  The host's part of the invariant. \<open>d\<close> is the rank of the last request the device has
  processed: requests reach the device in the order of the upgrade, and none is ahead of the host.
\<close>

definition host_good :: "nat \<Rightarrow> devmgr_upgrade \<Rightarrow> devmgr_session \<Rightarrow> devmgr_frame list \<Rightarrow> bool" where
  "host_good d u se out \<longleftrightarrow> upgrade_inv u \<and> 0 \<notin> set (up_version u) \<and>
     (\<forall>q \<in> set out. honest u q \<and> frame_rank q \<le> state_rank (up_state u)) \<and>
     sorted (d # map frame_rank out) \<and> d \<le> state_rank (up_state u) \<and>
     (pe_active (se_pending se) \<longrightarrow>
        honest u (pe_frame (se_pending se)) \<and> frame_rank (pe_frame (se_pending se)) = state_rank (up_state u))"

lemma sorted_snoc: "sorted (xs @ [x]) \<longleftrightarrow> sorted xs \<and> (\<forall>y \<in> set xs. y \<le> x)" for x :: nat
  by (auto simp: sorted_append)

lemma host_good_send:
  assumes g: "host_good d u se out" and b: "devmgr_upgrade_build_request u = (Inr f, u')"
    and q: "devmgr_session_begin_request se (fr_type f) (fr_flags f) (Some (fr_payload f)) (fr_payload_length f) policy now =
      (Inr q, se')"
  shows "host_good d u' se' (out @ [q])"
proof -
  have inv: "upgrade_inv u" and ver: "0 \<notin> set (up_version u)" using g by (simp_all add: host_good_def)
  note fr = build_request_frame [OF b] and bq = begin_request_frame [OF q]
  have "fr_payload q = fr_payload f"
    using bq build_request_wf [OF inv b] by (simp add: frame_wf_def)
  then have h: "honest u q" "frame_rank q = state_rank (up_state u)"
    using honest_frame [of q f u] bq build_honest [OF inv ver b] build_rank [OF b] by simp_all
  have same: "honest u' x = honest u x" for x
    using fr by (intro honest_upgrade) (simp_all add: up_params_def up_image_def)
  show ?thesis
    using g h bq fr upgrade_build_inv [OF inv b] same sorted_snoc [of "d # map frame_rank out" "frame_rank q"]
    by (auto simp: host_good_def)
qed

lemma retry_honest: "honest u (retry_frame se) = honest u (pe_frame (se_pending se))"
  "frame_rank (retry_frame se) = frame_rank (pe_frame (se_pending se))"
  using honest_frame [of "retry_frame se" "pe_frame (se_pending se)" u] by (simp_all add: mark_retry_def)

lemma host_good_tick:
  assumes g: "host_good d u se out" and t: "devmgr_session_tick se now send_log out = (r, se', out')"
  shows "host_good d u se' out'"
proof -
  note f = tick_frame [OF t]
  have "host_good d u se' out'" if "out' = out"
    using g f that retry_honest by (auto simp: host_good_def)
  moreover have "host_good d u se' out'" if "out' = out @ [retry_frame se]" "pe_active (se_pending se)"
    using g f that retry_honest sorted_snoc [of "d # map frame_rank out" "frame_rank (retry_frame se)"]
    by (auto simp: host_good_def)
  ultimately show ?thesis using f by blast
qed

lemma host_good_recover:
  assumes g: "host_good d u se out" and na: "\<not> pe_active (se_pending se)"
    and r: "devmgr_upgrade_begin_recovery u = (DEVMGR_OK, u')"
  shows "host_good d u' se out"
proof -
  have u': "up_params u' = up_params u" "up_image u' = up_image u" "state_rank (up_state u') = state_rank (up_state u)"
    "up_version u' = up_version u"
    using r by (auto simp: devmgr_upgrade_begin_recovery_def up_params_def up_image_def split: if_splits)
  show ?thesis
    using g na u' upgrade_recovery_inv [OF _ r] honest_upgrade [OF u'(1,2)] by (simp add: host_good_def)
qed

lemma host_good_lose: "host_good d u se (xs @ q # ys) \<Longrightarrow> host_good d u se (xs @ ys)"
  by (auto simp: host_good_def sorted_append)

lemma host_good_head:
  "host_good d u se (q # qs) \<Longrightarrow> host_good (frame_rank q) u se qs \<and> d \<le> frame_rank q \<and>
    frame_rank q \<le> state_rank (up_state u) \<and> honest u q"
  by (auto simp: host_good_def)

lemma host_good_session:
  "host_good d u se out \<Longrightarrow> pe_frame (se_pending se') = pe_frame (se_pending se) \<Longrightarrow>
   (pe_active (se_pending se') \<longrightarrow> pe_active (se_pending se)) \<Longrightarrow> host_good d u se' out"
  by (auto simp: host_good_def)

lemma accept_rank_mono:
  assumes "devmgr_upgrade_accept_response u t f = (DEVMGR_OK, u')"
  shows "state_rank (up_state u) \<le> state_rank (up_state u')"
    "state_rank (up_state u') < 4 \<or> t = DEVMGR_MSG_FW_END \<or> 4 \<le> state_rank (up_state u)"
    "state_rank (up_state u') < 6 \<or> t = DEVMGR_MSG_FW_ACTIVATE \<or> 6 \<le> state_rank (up_state u)"
    "fr_type f \<noteq> DEVMGR_MSG_NACK \<and> fr_type f \<noteq> DEVMGR_MSG_ERROR"
proof -
  show "fr_type f \<noteq> DEVMGR_MSG_NACK \<and> fr_type f \<noteq> DEVMGR_MSG_ERROR"
    using assms by (auto simp: devmgr_upgrade_accept_response_def)
  have "state_rank (up_state u) \<le> state_rank (up_state u') \<and>
    (state_rank (up_state u') < 4 \<or> t = DEVMGR_MSG_FW_END \<or> 4 \<le> state_rank (up_state u)) \<and>
    (state_rank (up_state u') < 6 \<or> t = DEVMGR_MSG_FW_ACTIVATE \<or> 6 \<le> state_rank (up_state u))"
    using assms
  proof (cases rule: accept_response_OK)
    case (phase s')
    from phase(1) show ?thesis using phase(2) by (cases rule: upgrade_phase.cases) simp_all
  next
    case (offset v)
    then show ?thesis
      unfolding offset_accepted_def by (elim conjE disjE) (simp_all add: after_offset_def)
  qed
  then show "state_rank (up_state u) \<le> state_rank (up_state u')"
    "state_rank (up_state u') < 4 \<or> t = DEVMGR_MSG_FW_END \<or> 4 \<le> state_rank (up_state u)"
    "state_rank (up_state u') < 6 \<or> t = DEVMGR_MSG_FW_ACTIVATE \<or> 6 \<le> state_rank (up_state u)" by blast+
qed

lemma host_good_accept:
  assumes g: "host_good d u se out" and na: "\<not> pe_active (se_pending se)"
    and a: "devmgr_upgrade_accept_response u t f = (DEVMGR_OK, u')"
  shows "host_good d u' se out"
proof -
  have u': "up_params u' = up_params u" "up_image u' = up_image u" "up_version u' = up_version u"
    using accept_response_fixed [OF a] by (simp_all add: up_params_def up_image_def)
  show ?thesis
    using g na u' upgrade_accept_inv [OF _ a] honest_upgrade [OF u'(1,2)] accept_rank_mono(1) [OF a]
    by (fastforce simp: host_good_def)
qed

subsection \<open>Completed upgrades have installed the image\<close>

lemma frame_rank_simps:
  "fr_type q = DEVMGR_MSG_FW_BEGIN \<Longrightarrow> frame_rank q = 1" "fr_type q = DEVMGR_MSG_FW_DATA \<Longrightarrow> frame_rank q = 2"
  "fr_type q = DEVMGR_MSG_FW_END \<Longrightarrow> frame_rank q = 3" "fr_type q = DEVMGR_MSG_FW_ACTIVATE \<Longrightarrow> frame_rank q = 5"
  by (simp_all add: frame_rank_def)

lemma prefix_extend:
  assumes "prefix xs ys" "d = region ys (length xs) (length d)"
  shows "prefix (xs @ d) ys"
proof -
  obtain zs where zs: "ys = xs @ zs" using assms(1) by (rule prefixE)
  then have "d = take (length d) zs" using assms(2) by (simp add: region_def)
  then show ?thesis using zs by (metis same_prefix_prefix take_is_prefix)
qed

lemma upgrade_start_fields:
  "devmgr_upgrade_start u0 img n crc (Some v) chunk = (DEVMGR_OK, u) \<Longrightarrow>
   up_version u = v \<and> up_state u = DEVMGR_UPGRADE_ENTER_BOOTLOADER \<and> up_image_data u = img \<and> up_image_size u = n \<and>
   up_image_crc u = crc \<and> up_chunk_size u = chunk"
  by (auto simp: devmgr_upgrade_start_def devmgr_upgrade_init_def split: if_splits)

definition answer_kind :: "u8 \<Rightarrow> bool" where
  "answer_kind t \<longleftrightarrow> simple_request t \<or> t = DEVMGR_MSG_FW_BEGIN \<or> t = DEVMGR_MSG_FW_DATA \<or> t = DEVMGR_MSG_NACK"

context fw_device
begin

definition complete :: "devmgr_upgrade \<Rightarrow> 's \<Rightarrow> bool" where
  "complete u s \<longleftrightarrow> announced s = up_params u \<and> received s = up_image u"

definition dev_good :: "nat \<Rightarrow> devmgr_upgrade \<Rightarrow> 's \<Rightarrow> u8 set \<Rightarrow> bool" where
  "dev_good d u s ts \<longleftrightarrow> inv s \<and> (d < 3 \<longrightarrow> \<not> sealed s) \<and>
     (opened s \<longrightarrow> announced s = up_params u \<and> prefix (received s) (up_image u)) \<and>
     (\<forall>t \<in> ts. answer_kind t) \<and>
     (DEVMGR_MSG_FW_END \<in> ts \<or> 4 \<le> state_rank (up_state u) \<longrightarrow> complete u s \<and> 3 \<le> d) \<and>
     (DEVMGR_MSG_FW_ACTIVATE \<in> ts \<or> 6 \<le> state_rank (up_state u) \<longrightarrow>
        running s = up_version u \<and> 4 \<le> state_rank (up_state u))"

definition answer_set :: "devmgr_frame option \<Rightarrow> u8 set" where
  "answer_set ro = fr_type ` set_option ro"

lemma answer_set_cases:
  assumes "inv s" "env_ok e" "frame_wf q" "handle e s q = (ro, s')"
  shows "answer_set ro \<subseteq> {fr_type q, DEVMGR_MSG_NACK}"
  using answer_type [OF assms(1,2,3)] assms(4) by (cases ro) (auto simp: answer_set_def)

lemma early:
  "dev_good d u s ts \<Longrightarrow> d < 3 \<Longrightarrow> DEVMGR_MSG_FW_END \<notin> ts \<and> DEVMGR_MSG_FW_ACTIVATE \<notin> ts \<and> state_rank (up_state u) < 4"
  by (auto simp: dev_good_def not_less)

lemma deliver_begin:
  assumes g: "dev_good d u s ts" and h: "honest u q" "fr_type q = DEVMGR_MSG_FW_BEGIN" "d \<le> frame_rank q"
    and e: "env_ok e" "handle e s q = (ro, s')"
  shows "dev_good (frame_rank q) u s' (ts \<union> answer_set ro)"
proof -
  have d: "d < 3" "frame_rank q = 1" using h(2,3) by (simp_all add: frame_rank_simps)
  have inv: "inv s" "\<not> sealed s" and wf: "frame_wf q" and bp: "begin_payload (fr_payload q) = up_params u"
    and op: "opened s \<Longrightarrow> announced s = up_params u"
    using g h(1,2) d by (auto simp: dev_good_def honest_def simple_request_def)
  have "inv s' \<and> \<not> sealed s' \<and> running s' = running s \<and>
      (opened s' = opened s \<and> announced s' = announced s \<and> (opened s \<longrightarrow> received s' = received s) \<or>
       opened s' \<and> announced s' = up_params u \<and> received s' = [])"
    using begin_law [OF inv(1) e(1) wf h(2) inv(2) _ e(2)] op bp by simp
  then show ?thesis
    using g early [OF g d(1)] answer_set_cases [OF inv(1) e(1) wf e(2)] d(2) h(2)
    by (auto simp: dev_good_def answer_kind_def)
qed

lemma deliver_data:
  assumes g: "dev_good d u s ts" and h: "honest u q" "fr_type q = DEVMGR_MSG_FW_DATA" "d \<le> frame_rank q"
    and e: "env_ok e" "handle e s q = (ro, s')"
  shows "dev_good (frame_rank q) u s' (ts \<union> answer_set ro)"
proof -
  have d: "d < 3" "frame_rank q = 2" using h(2,3) by (simp_all add: frame_rank_simps)
  have inv: "inv s" and wf: "frame_wf q"
    and dp: "data_part q = region (up_image u) (unat (data_offset q)) (length (data_part q))"
    using g h(1,2) by (auto simp: dev_good_def honest_def simple_request_def)
  note law = data_law [OF inv e(1) wf h(2) e(2)]
  have "prefix (received s') (up_image u)" if "prefix (received s) (up_image u)"
    using law that dp prefix_extend [OF that, of "data_part q"] by auto
  then show ?thesis
    using g law early [OF g d(1)] answer_set_cases [OF inv e(1) wf e(2)] d h(2)
    by (auto simp: dev_good_def answer_kind_def)
qed

lemma deliver_simple:
  assumes g: "dev_good d u s ts" and h: "honest u q" "simple_request (fr_type q)" "d \<le> frame_rank q"
      "frame_rank q \<le> state_rank (up_state u)"
    and sz: "length (up_image u) = unat (fst (up_params u))"
    and e: "env_ok e" "handle e s q = (ro, s')"
  shows "dev_good (frame_rank q) u s' (ts \<union> answer_set ro)"
proof -
  have inv: "inv s" and wf: "frame_wf q" using g h(1) by (auto simp: dev_good_def honest_def)
  note law = simple_law [OF inv e(1) wf h(2) e(2)] and at = answer_set_cases [OF inv e(1) wf e(2)]
  have same: "announced s' = announced s" "received s' = received s" "inv s'" "opened s' \<longrightarrow> opened s" using law by simp_all
  have kinds: "\<forall>t \<in> answer_set ro. answer_kind t" using at h(2) by (auto simp: answer_kind_def)
  have op: "opened s \<longrightarrow> announced s = up_params u \<and> prefix (received s) (up_image u)" using g by (simp add: dev_good_def)
  have "sealed s' \<longrightarrow> 3 \<le> frame_rank q"
    using law g h(3) by (auto simp: dev_good_def frame_rank_simps not_less)
  moreover have "complete u s' \<and> 3 \<le> frame_rank q"
    if ends: "DEVMGR_MSG_FW_END \<in> ts \<union> answer_set ro \<or> 4 \<le> state_rank (up_state u)"
  proof (cases "DEVMGR_MSG_FW_END \<in> ts \<or> 4 \<le> state_rank (up_state u)")
    case True
    then show ?thesis using g h(3) same by (auto simp: dev_good_def complete_def)
  next
    case False
    then have "DEVMGR_MSG_FW_END \<in> answer_set ro" using ends by simp
    then obtain r where r: "ro = Some r" "fr_type r = DEVMGR_MSG_FW_END" "fr_type q = DEVMGR_MSG_FW_END"
      using at by (auto simp: answer_set_def)
    have "opened s \<and> length (received s) = unat (fst (announced s))"
      using end_law [OF inv e(1) wf r(3) _ r(2)] e(2) r(1) by simp
    then have "received s = up_image u" "announced s = up_params u"
      using op sz by (auto simp: prefix_def)
    then show ?thesis using same r(3) by (simp add: complete_def frame_rank_simps)
  qed
  moreover have "running s' = up_version u \<and> 4 \<le> state_rank (up_state u)"
    if acts: "DEVMGR_MSG_FW_ACTIVATE \<in> ts \<union> answer_set ro \<or> 6 \<le> state_rank (up_state u)"
  proof -
    have ver: "snd (snd (announced s)) = up_version u" if "4 \<le> state_rank (up_state u)"
      using g that by (simp add: dev_good_def complete_def up_params_def)
    show ?thesis
    proof (cases "DEVMGR_MSG_FW_ACTIVATE \<in> ts \<or> 6 \<le> state_rank (up_state u)")
      case True
      then have "running s = up_version u" "4 \<le> state_rank (up_state u)" using g by (auto simp: dev_good_def)
      then show ?thesis using law ver by auto
    next
      case False
      then obtain r where r: "ro = Some r" "fr_type r = DEVMGR_MSG_FW_ACTIVATE" "fr_type q = DEVMGR_MSG_FW_ACTIVATE"
        using at acts by (auto simp: answer_set_def)
      then have "4 \<le> state_rank (up_state u)" using h(4) by (simp add: frame_rank_simps)
      then show ?thesis using activate_law [OF inv e(1) wf r(3) _ r(2)] e(2) r(1) ver by simp
    qed
  qed
  ultimately show ?thesis
    using g same kinds op unfolding dev_good_def by (auto simp: not_less)
qed

lemma deliver_good:
  assumes "dev_good d u s ts" "honest u q" "d \<le> frame_rank q" "frame_rank q \<le> state_rank (up_state u)"
    "length (up_image u) = unat (fst (up_params u))" "env_ok e" "handle e s q = (ro, s')"
  shows "dev_good (frame_rank q) u s' (ts \<union> answer_set ro)"
  using assms deliver_begin [of d u s ts q e ro s'] deliver_data [of d u s ts q e ro s']
    deliver_simple [of d u s ts q e ro s'] unfolding honest_def by blast

definition link_good :: "'s link \<Rightarrow> bool" where
  "link_good l \<longleftrightarrow> up_state (lk_upgrade l) = DEVMGR_UPGRADE_ERROR \<or>
     (\<exists>d. host_good d (lk_upgrade l) (lk_session l) (lk_out l) \<and>
          dev_good d (lk_upgrade l) (lk_device l) (fr_type ` set (lk_in l)))"

lemma dev_good_mono: "dev_good d u s ts \<Longrightarrow> ts' \<subseteq> ts \<Longrightarrow> dev_good d u s ts'"
  unfolding dev_good_def by blast

lemma dev_good_upgrade:
  assumes "dev_good d u s ts" "up_params v = up_params u" "up_image v = up_image u" "up_version v = up_version u"
    "state_rank (up_state u) \<le> state_rank (up_state v)"
    "state_rank (up_state v) < 4 \<or> DEVMGR_MSG_FW_END \<in> ts \<or> 4 \<le> state_rank (up_state u)"
    "state_rank (up_state v) < 6 \<or> DEVMGR_MSG_FW_ACTIVATE \<in> ts \<or> 6 \<le> state_rank (up_state u)"
  shows "dev_good d v s ts"
  using assms unfolding dev_good_def complete_def by (auto simp: not_less)

lemma dev_good_same:
  "dev_good d u s ts \<Longrightarrow> up_params v = up_params u \<Longrightarrow> up_image v = up_image u \<Longrightarrow> up_version v = up_version u \<Longrightarrow>
   state_rank (up_state v) = state_rank (up_state u) \<Longrightarrow> dev_good d v s ts"
  by (erule dev_good_upgrade) (auto simp: not_le)

lemma image_size: "upgrade_inv u \<Longrightarrow> length (up_image u) = unat (fst (up_params u))"
  by (auto simp: upgrade_inv_def upgrade_meta_def up_image_def up_params_def unat_of_nat_u32 min_def)

lemma receive_good:
  assumes h: "host_good d u se out" and g: "dev_good d u s (fr_type ` set (r # rs))"
    and a: "devmgr_session_accept_response se r = (DEVMGR_OK, se')"
    and ua: "devmgr_upgrade_accept_response u (fr_type (pe_frame (se_pending se))) r = (DEVMGR_OK, u')"
  shows "host_good d u' se' out \<and> dev_good d u' s (fr_type ` set rs)"
proof -
  note sf = accept_session_frame [OF a] and ar = accept_rank_mono [OF ua] and fx = accept_response_fixed [OF ua]
  have "answer_kind (fr_type r)" using g by (simp add: dev_good_def)
  then have t: "fr_type r = fr_type (pe_frame (se_pending se))"
    using sf(3) ar(4) by (auto simp: answer_kind_def simple_request_def reply_type_def)
  have "host_good d u se' out" using host_good_session [OF h sf(1,2)] .
  then have "host_good d u' se' out" using host_good_accept [OF _ _ ua] sf(3) by blast
  moreover have "dev_good d u' s (fr_type ` set (r # rs))"
    by (rule dev_good_upgrade [OF g]) (use fx ar t in \<open>auto simp: up_params_def up_image_def\<close>)
  then have "dev_good d u' s (fr_type ` set rs)" by (rule dev_good_mono) auto
  ultimately show ?thesis by simp
qed

lemma error_stays:
  assumes "link_step handle env_ok l l'" "up_state (lk_upgrade l) = DEVMGR_UPGRADE_ERROR"
  shows "up_state (lk_upgrade l') = DEVMGR_UPGRADE_ERROR"
  using assms
  by (auto elim!: link_stepE simp: devmgr_upgrade_build_request_def devmgr_upgrade_begin_recovery_def devmgr_upgrade_active_def)

lemma timeout_good:
  assumes h: "host_good d u se out" and dg: "dev_good d u s ts"
    and t: "devmgr_session_tick se now send_log out = (DEVMGR_ERROR_TIMEOUT, se', out')"
    and r: "devmgr_upgrade_begin_recovery u = (DEVMGR_OK, u')"
  shows "host_good d u' se' out' \<and> dev_good d u' s ts"
proof -
  have "host_good d u se' out'" "\<not> pe_active (se_pending se')"
    using host_good_tick [OF h t] tick_frame [OF t] by auto
  then have "host_good d u' se' out'" using host_good_recover [OF _ _ r] by blast
  moreover have "dev_good d u' s ts"
    by (rule dev_good_same [OF dg])
       (use r in \<open>auto simp: up_params_def up_image_def devmgr_upgrade_begin_recovery_def split: if_splits\<close>)
  ultimately show ?thesis ..
qed

lemma delivery_good:
  assumes h: "host_good d u se (q # qs)" and dg: "dev_good d u s (fr_type ` set ins)"
    and e: "env_ok e" "handle e s q = (ro, s')"
  shows "host_good (frame_rank q) u se qs \<and>
    dev_good (frame_rank q) u s' (fr_type ` set (ins @ (case ro of None \<Rightarrow> [] | Some r \<Rightarrow> [r])))"
proof -
  have hd: "host_good (frame_rank q) u se qs" "d \<le> frame_rank q" "frame_rank q \<le> state_rank (up_state u)" "honest u q"
    using host_good_head [OF h] by auto
  have sz: "length (up_image u) = unat (fst (up_params u))" using h by (intro image_size) (simp add: host_good_def)
  have ts: "fr_type ` set (ins @ (case ro of None \<Rightarrow> [] | Some r \<Rightarrow> [r])) = fr_type ` set ins \<union> answer_set ro"
    by (cases ro) (auto simp: answer_set_def)
  show ?thesis using deliver_good [OF dg hd(4,2,3) sz e] hd(1) unfolding ts by simp
qed

lemma link_good_step:
  assumes step: "link_step handle env_ok l l'" and g: "link_good l"
  shows "link_good l'"
proof (cases "up_state (lk_upgrade l) = DEVMGR_UPGRADE_ERROR")
  case True
  then show ?thesis using error_stays [OF step] by (simp add: link_good_def)
next
  case False
  then obtain d where h: "host_good d (lk_upgrade l) (lk_session l) (lk_out l)"
    and dg: "dev_good d (lk_upgrade l) (lk_device l) (fr_type ` set (lk_in l))" using g by (auto simp: link_good_def)
  from step show ?thesis
  proof cases
    case (link_send f u policy now q se)
    have "dev_good d u (lk_device l) (fr_type ` set (lk_in l))"
      by (rule dev_good_same [OF dg]) (simp_all add: up_params_def up_image_def build_request_frame [OF link_send(2)])
    then show ?thesis using host_good_send [OF h link_send(2,3)] link_send(1) by (auto simp: link_good_def)
  next
    case (link_tick now r se out)
    then show ?thesis using host_good_tick [OF h] dg by (auto simp: link_good_def)
  next
    case (link_timeout now se out r u)
    then show ?thesis
      using timeout_good [OF h dg link_timeout(2), of u] by (cases "r = DEVMGR_OK") (auto simp: link_good_def)
  next
    case (link_lose_out xs q ys)
    then show ?thesis using host_good_lose h dg by (auto simp: link_good_def)
  next
    case (link_lose_in xs r ys)
    have "dev_good d (lk_upgrade l) (lk_device l) (fr_type ` set (xs @ ys))"
      using dg by (rule dev_good_mono) (auto simp: link_lose_in(2))
    then show ?thesis using h link_lose_in(1) by (auto simp: link_good_def)
  next
    case (link_deliver q qs e ro s)
    then show ?thesis using delivery_good [of d _ _ q qs, OF _ dg link_deliver(3,4)] h by (auto simp: link_good_def)
  next
    case (link_receive r rs se st u)
    then show ?thesis
      using receive_good [OF h _ link_receive(4)] dg accept_response_error [OF link_receive(5)]
      by (cases "st = DEVMGR_OK") (auto simp: link_good_def)
  next
    case (link_ignore r rs st se)
    have "dev_good d (lk_upgrade l) (lk_device l) (fr_type ` set rs)"
      using dg by (rule dev_good_mono) (auto simp: link_ignore(2))
    then show ?thesis
      using host_good_session [OF h accept_session_frame(1,2) [OF link_ignore(3)]] link_ignore(1)
      by (auto simp: link_good_def)
  qed
qed

text \<open>A link at the start of an upgrade, with a device that has no session open.\<close>

lemma link_start_good:
  assumes "devmgr_upgrade_start u0 img n crc (Some v) chunk = (DEVMGR_OK, lk_upgrade l)" "n \<le> length (the img)"
    "0 \<notin> set v" "\<not> pe_active (se_pending (lk_session l))" "lk_out l = []" "lk_in l = []"
    "inv (lk_device l)" "\<not> opened (lk_device l)" "\<not> sealed (lk_device l)"
  shows "link_good l"
proof -
  have u: "upgrade_inv (lk_upgrade l)" "up_version (lk_upgrade l) = v" "state_rank (up_state (lk_upgrade l)) = 0"
    using upgrade_start_inv [OF assms(1,2)] upgrade_start_fields [OF assms(1)] by simp_all
  have "host_good 0 (lk_upgrade l) (lk_session l) (lk_out l)" using assms u by (simp add: host_good_def)
  moreover have "dev_good 0 (lk_upgrade l) (lk_device l) (fr_type ` set (lk_in l))"
    using assms u by (simp add: dev_good_def)
  ultimately show ?thesis by (auto simp: link_good_def)
qed

lemma completed_installs:
  assumes "link_good l" "reach (link_step handle env_ok) l l'" "up_state (lk_upgrade l') = DEVMGR_UPGRADE_COMPLETE"
  shows "received (lk_device l') = up_image (lk_upgrade l') \<and> running (lk_device l') = up_version (lk_upgrade l')"
proof -
  have "link_good l'" using assms(2,1) by (induction rule: reach.induct) (auto intro: link_good_step)
  then show ?thesis using assms(3) by (auto simp: link_good_def dev_good_def complete_def)
qed

end

lemma link_step_meta:
  assumes "link_step handle env_ok l l'"
  shows "up_image (lk_upgrade l') = up_image (lk_upgrade l) \<and> up_version (lk_upgrade l') = up_version (lk_upgrade l)"
  using assms
proof cases
  case (link_send f u policy now q se)
  then show ?thesis using build_request_frame [OF link_send(2)] by (simp add: up_image_def)
next
  case (link_timeout now se out r u)
  then show ?thesis
    by (auto simp: devmgr_upgrade_begin_recovery_def up_image_def split: if_splits)
next
  case (link_receive r rs se st u)
  then show ?thesis using accept_response_fixed [OF link_receive(5)] by (simp add: up_image_def)
qed simp_all

lemma link_reach_meta:
  "reach (link_step handle env_ok) l l' \<Longrightarrow>
   up_image (lk_upgrade l') = up_image (lk_upgrade l) \<and> up_version (lk_upgrade l') = up_version (lk_upgrade l)"
  by (induction rule: reach.induct) (use link_step_meta in \<open>fastforce+\<close>)

subsection \<open>A round on a perfect link\<close>

lemma begin_request_idle:
  assumes "\<not> pe_active (se_pending se)" "frame_wf f" "timeout_ms policy \<noteq> 0"
  shows "\<exists>se'. devmgr_session_begin_request se (fr_type f) (fr_flags f) (Some (fr_payload f)) (fr_payload_length f)
      policy now = (Inr (f\<lparr>fr_sequence := se_next_sequence se\<rparr>), se') \<and>
    se_pending se' = \<lparr>pe_frame = f\<lparr>fr_sequence := se_next_sequence se\<rparr>, pe_policy = policy,
      pe_deadline_ns = saturating_add now (milliseconds_to_ns (timeout_ms policy)), pe_retries_done = 0, pe_active = True\<rparr>"
  using assms by (auto simp: devmgr_session_begin_request_def frame_wf_def Let_def)

lemma accept_matching:
  assumes "pe_active (se_pending se)" "fr_sequence r = fr_sequence (pe_frame (se_pending se))"
    "fr_flags r = DEVMGR_FRAME_RESPONSE" "fr_type r = fr_type (pe_frame (se_pending se))"
  shows "\<exists>se'. devmgr_session_accept_response se r = (DEVMGR_OK, se') \<and> \<not> pe_active (se_pending se')"
  using assms by (auto simp: devmgr_session_accept_response_def Let_def)

lemma round_reach:
  assumes b: "devmgr_upgrade_build_request u = (Inr f, u')" and na: "\<not> pe_active (se_pending se)" and wf: "frame_wf f"
    and h: "\<And>n. \<exists>r s'. handle e s (f\<lparr>fr_sequence := n\<rparr>) = (Some r, s') \<and> fr_type r = fr_type f \<and> fr_sequence r = n \<and>
      fr_flags r = DEVMGR_FRAME_RESPONSE \<and>
      (\<exists>u''. devmgr_upgrade_accept_response u' (fr_type f) r = (DEVMGR_OK, u'') \<and> P u'' s')"
    and e: "env_ok e" and act: "devmgr_upgrade_active u'"
  shows "\<exists>u'' se' s'. \<not> pe_active (se_pending se') \<and> P u'' s' \<and>
    reach (link_step handle env_ok) \<lparr>lk_upgrade = u, lk_session = se, lk_out = [], lk_device = s, lk_in = []\<rparr>
      \<lparr>lk_upgrade = u'', lk_session = se', lk_out = [], lk_device = s', lk_in = []\<rparr>"
proof -
  let ?q = "f\<lparr>fr_sequence := se_next_sequence se\<rparr>"
  let ?policy = "\<lparr>timeout_ms = 2000, retry_interval_ms = 750, max_retries = 4\<rparr>"
  obtain se1 where s1: "devmgr_session_begin_request se (fr_type f) (fr_flags f) (Some (fr_payload f))
      (fr_payload_length f) ?policy 0 = (Inr ?q, se1)" "pe_frame (se_pending se1) = ?q" "pe_active (se_pending se1)"
    using begin_request_idle [OF na wf, of ?policy 0] by auto
  obtain r s' u'' where r: "handle e s ?q = (Some r, s')" "fr_type r = fr_type f" "fr_sequence r = se_next_sequence se"
    "fr_flags r = DEVMGR_FRAME_RESPONSE" "devmgr_upgrade_accept_response u' (fr_type f) r = (DEVMGR_OK, u'')" "P u'' s'"
    using h by blast
  obtain se2 where s2: "devmgr_session_accept_response se1 r = (DEVMGR_OK, se2)" "\<not> pe_active (se_pending se2)"
    using accept_matching [OF s1(3)] s1(2) r by auto
  let ?l = "\<lambda>u se out s ins. \<lparr>lk_upgrade = u, lk_session = se, lk_out = out, lk_device = s, lk_in = ins\<rparr>"
  have "link_step handle env_ok (?l u se [] s []) (?l u' se1 [?q] s [])"
    using link_send [of "?l u se [] s []" f u' ?policy 0 ?q se1] b s1(1) by simp
  moreover have "link_step handle env_ok (?l u' se1 [?q] s []) (?l u' se1 [] s' [r])"
    using link_deliver [of "?l u' se1 [?q] s []" ?q "[]" env_ok e handle "Some r" s'] e r(1) by simp
  moreover have "link_step handle env_ok (?l u' se1 [] s' [r]) (?l u'' se2 [] s' [])"
    using link_receive [of "?l u' se1 [] s' [r]" r "[]" se2 DEVMGR_OK u''] act s1(2) s2(1) r(5) by simp
  ultimately have "reach (link_step handle env_ok) (?l u se [] s []) (?l u'' se2 [] s' [])"
    by (meson reach_refl reach_step)
  then show ?thesis using s2(2) r(6) by blast
qed

text \<open>
  An upgrade the host carries out: a well-formed upgrade of an image within the size limit, with
  the image's own checksum and a version that is a C string.
\<close>

definition job_ok :: "devmgr_upgrade \<Rightarrow> bool" where
  "job_ok u \<longleftrightarrow> upgrade_inv u \<and> up_image_size u \<le> DEVMGR_FIRMWARE_MAX_SIZE \<and> 0 \<notin> set (up_version u) \<and>
     up_image_crc u = devmgr_crc32 (Some (up_image u))"

lemma job_ok_accept:
  assumes "job_ok u" "devmgr_upgrade_build_request u = (Inr f, u')" "devmgr_upgrade_accept_response u' t r = (st, u'')"
  shows "job_ok u''"
proof -
  have "up_image u'' = up_image u" "up_image_size u'' = up_image_size u" "up_version u'' = up_version u" "up_image_crc u'' = up_image_crc u"
    using build_request_frame [OF assms(2)] accept_response_fixed [OF assms(3)] by (simp_all add: up_image_def)
  moreover have "upgrade_inv u''"
    using assms upgrade_build_inv upgrade_accept_inv by (metis job_ok_def)
  ultimately show ?thesis using assms(1) by (simp add: job_ok_def)
qed

text \<open>The requests that name the session only.\<close>

definition session_request :: "u8 \<Rightarrow> devmgr_upgrade \<Rightarrow> devmgr_frame" where
  "session_request t u = request_frame t 4 (devmgr_put_le32 (up_session_id u))"

lemma session_request_simps [simp]:
  "fr_type (session_request t u) = t" "frame_wf (session_request t u)" "fr_payload_length (session_request t u) = 4"
  "devmgr_get_le32 (fr_payload (session_request t u)) = up_session_id u"
  using get_put_le32 [of "up_session_id u" "[]"]
  by (simp_all add: session_request_def request_frame_def frame_wf_def)

text \<open>The device answers the request and the host accepts the answer, ending in \<open>P\<close>.\<close>

definition answers ::
  "('e \<Rightarrow> 's \<Rightarrow> devmgr_frame \<Rightarrow> devmgr_frame option \<times> 's) \<Rightarrow> 'e \<Rightarrow> (devmgr_upgrade \<Rightarrow> 's \<Rightarrow> bool) \<Rightarrow>
   devmgr_frame \<Rightarrow> devmgr_upgrade \<Rightarrow> 's \<Rightarrow> u32 \<Rightarrow> bool" where
  "answers handle e P f u' s n \<longleftrightarrow> (\<exists>r s'. handle e s (f\<lparr>fr_sequence := n\<rparr>) = (Some r, s') \<and> fr_type r = fr_type f \<and>
     fr_sequence r = n \<and> fr_flags r = DEVMGR_FRAME_RESPONSE \<and>
     (\<exists>u''. devmgr_upgrade_accept_response u' (fr_type f) r = (DEVMGR_OK, u'') \<and> P u'' s'))"

text \<open>
  When every state of the upgrade has such a round, host and device staying in step (\<open>P\<close>), the
  upgrade completes: every round brings it closer to its end.
\<close>

lemma rounds_complete:
  assumes inv: "\<And>u s. P u s \<Longrightarrow> upgrade_inv u"
    and round: "\<And>u s. P u s \<Longrightarrow> up_state u \<noteq> DEVMGR_UPGRADE_COMPLETE \<Longrightarrow>
      \<exists>f u1. devmgr_upgrade_build_request u = (Inr f, u1) \<and> (\<forall>n. answers handle e P f u1 s n)"
    and e: "env_ok e"
  shows "P u s \<Longrightarrow> \<not> pe_active (se_pending se) \<Longrightarrow>
    \<exists>u' se' s'. up_state u' = DEVMGR_UPGRADE_COMPLETE \<and>
     reach (link_step handle env_ok) \<lparr>lk_upgrade = u, lk_session = se, lk_out = [], lk_device = s, lk_in = []\<rparr>
       \<lparr>lk_upgrade = u', lk_session = se', lk_out = [], lk_device = s', lk_in = []\<rparr>"
proof (induction "phase_rank u" arbitrary: u se s rule: less_induct)
  case less
  show ?case
  proof (cases "up_state u = DEVMGR_UPGRADE_COMPLETE")
    case True
    then show ?thesis by blast
  next
    case False
    obtain f u1 where b: "devmgr_upgrade_build_request u = (Inr f, u1)" and r: "\<And>n. answers handle e P f u1 s n"
      using round [OF less.prems(1) False] by blast
    note iv = inv [OF less.prems(1)]
    have act: "devmgr_upgrade_active u1"
      using b by (cases "up_state u") (auto simp: devmgr_upgrade_active_def devmgr_upgrade_build_request_def Let_def split: if_splits)
    have "\<exists>u2 se2 s2. \<not> pe_active (se_pending se2) \<and> (P u2 s2 \<and> phase_rank u2 < phase_rank u) \<and>
      reach (link_step handle env_ok) \<lparr>lk_upgrade = u, lk_session = se, lk_out = [], lk_device = s, lk_in = []\<rparr>
        \<lparr>lk_upgrade = u2, lk_session = se2, lk_out = [], lk_device = s2, lk_in = []\<rparr>"
    proof (rule round_reach [where env_ok = env_ok and e = e, OF b less.prems(2) build_request_wf [OF iv b] _ e act])
      show "\<exists>r s'. handle e s (f\<lparr>fr_sequence := n\<rparr>) = (Some r, s') \<and> fr_type r = fr_type f \<and> fr_sequence r = n \<and>
        fr_flags r = DEVMGR_FRAME_RESPONSE \<and> (\<exists>u''. devmgr_upgrade_accept_response u1 (fr_type f) r = (DEVMGR_OK, u'') \<and>
          P u'' s' \<and> phase_rank u'' < phase_rank u)" for n
        using r [of n] answered_rank [OF iv b] unfolding answers_def by metis
    qed
    then obtain u2 se2 s2 where n: "\<not> pe_active (se_pending se2)" "P u2 s2" "phase_rank u2 < phase_rank u"
      "reach (link_step handle env_ok) \<lparr>lk_upgrade = u, lk_session = se, lk_out = [], lk_device = s, lk_in = []\<rparr>
        \<lparr>lk_upgrade = u2, lk_session = se2, lk_out = [], lk_device = s2, lk_in = []\<rparr>" by blast
    then show ?thesis using less.hyps [OF n(3,2,1)] by (meson reach_trans)
  qed
qed

end
