(* ===== verification/Simulator.thy ===== *)
theory Simulator
  imports Parser Firmware Fw_Device Complex_Main
begin

section \<open>Device simulator (simulator/device/simulator.h, simulator.c)\<close>

text \<open>
  The simulated device: request handlers, telemetry, fault injection and the poll loop. The
  \<open>switch\<close> of \<open>on_frame\<close> is one function per case, each on the simulator's record, composed by
  \<open>sim_handle\<close>; \<open>on_frame\<close> adds the transmission. What the outside world decides is an
  explicit parameter (\<open>sim_env\<close>): clock readings, the block \<open>malloc\<close> returns (its contents are
  unspecified, as in C), and the results of \<open>write\<close> and \<open>poll\<close> on the pseudo terminal; when the
  list of write results runs out, the descriptor stays unwritable and the poll times out.
  Rates are the exact rationals that the \<open>double\<close> values are. The version arrays are the C
  strings they hold.
\<close>

record simulator_config =
  sc_drop_rate :: rat
  sc_corrupt_rate :: rat
  sc_response_delay_ms :: u32
  sc_disconnect_at_percent :: int
  sc_fail_verify :: bool
  sc_random_seed :: u32

record simulator_state =
  sm_master_fd :: int
  sm_parser :: devmgr_parser
  sm_started_sec :: u64
  sm_started_nsec :: u64
  sm_rx_frames :: u64
  sm_tx_frames :: u64
  sm_errors :: u64
  sm_device_id :: u32
  sm_temperature_millic :: u32
  sm_voltage_mv :: u32
  sm_telemetry_interval_ms :: u32
  sm_telemetry_samples :: u32
  sm_next_telemetry_ns :: u64
  sm_telemetry_enabled :: bool
  sm_flash :: "bytes ptr"
  sm_flash_size :: nat
  sm_expected_firmware_crc :: u32
  sm_firmware_offset :: u32
  sm_firmware_session_id :: u32
  sm_firmware_chunk_size :: u16
  sm_firmware_version :: bytes
  sm_pending_version :: bytes
  sm_bootloader_active :: bool
  sm_firmware_upgrading :: bool
  sm_firmware_verified :: bool
  sm_running :: bool
  sm_drop_rate :: rat
  sm_corrupt_rate :: rat
  sm_response_delay_ms :: u32
  sm_disconnect_at_percent :: int
  sm_outage_until_ns :: u64
  sm_outage_injected :: bool
  sm_fail_verify :: bool
  sm_random_state :: u32

datatype write_result = Wrote nat | Write_EINTR | Write_EAGAIN bool | Write_failed

type_synonym timespec = "u64 \<times> u64"

record sim_env =
  en_clock :: "timespec option"
  en_write_clock :: "timespec option"
  en_malloc :: "nat \<Rightarrow> bytes option"
  en_writes :: "write_result list"

definition simulator_now_ns :: "timespec option \<Rightarrow> u64" where
  "simulator_now_ns reading =
    (case reading of None \<Rightarrow> 0 | Some (sec, nsec) \<Rightarrow> sec * 1000000000 + nsec)"

definition simulator_random :: "simulator_state \<Rightarrow> rat \<times> simulator_state" where
  "simulator_random s =
    (let v0 = sm_random_state s;
         v1 = v0 XOR push_bit 13 v0;
         v2 = v1 XOR drop_bit 17 v1;
         v3 = v2 XOR push_bit 5 v2
     in (of_nat (unat v3) / 4294967296, s\<lparr>sm_random_state := v3\<rparr>))"

text \<open>
  The \<open>while (offset < length)\<close> loop of \<open>write_frame\<close>, over the bytes left: status and the
  bytes that went out.
\<close>

fun write_loop :: "write_result list \<Rightarrow> bytes \<Rightarrow> devmgr_status \<times> bytes" where
  "write_loop rs [] = (DEVMGR_OK, [])"
| "write_loop [] bs = (DEVMGR_ERROR_IO, [])"
| "write_loop (Wrote n # rs) bs =
    (if n = 0 then (DEVMGR_ERROR_IO, [])
     else (case write_loop rs (drop n bs) of (st, out) \<Rightarrow> (st, take n bs @ out)))"
| "write_loop (Write_EINTR # rs) bs = write_loop rs bs"
| "write_loop (Write_EAGAIN writable # rs) bs =
    (if writable then write_loop rs bs else (DEVMGR_ERROR_IO, []))"
| "write_loop (Write_failed # rs) bs = (DEVMGR_ERROR_IO, [])"

text \<open>Fault injection: the byte behind the header is damaged.\<close>

definition corrupt_byte :: "bytes \<Rightarrow> bytes" where
  "corrupt_byte bs = bs[12 := bs ! 12 XOR 0x40]"

definition write_frame ::
  "sim_env \<Rightarrow> simulator_state \<Rightarrow> devmgr_frame \<Rightarrow> devmgr_status \<times> simulator_state \<times> bytes" where
  "write_frame env s frame =
    (if simulator_now_ns (en_write_clock env) < sm_outage_until_ns s then (DEVMGR_OK, s, [])
     else
       case simulator_random s of
         (draw, s1) \<Rightarrow>
           if draw < sm_drop_rate s1 then (DEVMGR_OK, s1, [])
           else
             case devmgr_frame_encode frame DEVMGR_PROTOCOL_MAX_FRAME of
               Inl e \<Rightarrow> (e, s1, [])
             | Inr encoded \<Rightarrow>
                 (case simulator_random s1 of
                    (draw2, s2) \<Rightarrow>
                      let wire = (if draw2 < sm_corrupt_rate s2 \<and> length encoded > DEVMGR_PROTOCOL_HEADER_SIZE
                                  then corrupt_byte encoded else encoded)
                      in case write_loop (en_writes env) wire of
                           (st, out) \<Rightarrow>
                             if st \<noteq> DEVMGR_OK then (st, s2, out)
                             else (DEVMGR_OK, s2\<lparr>sm_tx_frames := sm_tx_frames s2 + 1\<rparr>, out)))"

text \<open>\<open>put_string\<close> on the bytes written so far.\<close>

definition put_string :: "nat \<Rightarrow> bytes \<Rightarrow> bytes \<Rightarrow> bytes" where
  "put_string capacity written value =
    (if length written \<le> capacity \<and> length value + 1 \<le> capacity - length written
     then written @ value @ [0] else written)"

definition ascii :: "string \<Rightarrow> bytes" where
  "ascii s = map (\<lambda>c. of_nat (of_char c)) s"

text \<open>Responses: the request's type and sequence with the response flag, or a NACK with its code.\<close>

definition sim_reply :: "devmgr_frame \<Rightarrow> bytes \<Rightarrow> devmgr_frame" where
  "sim_reply request payload =
    \<lparr>fr_type = fr_type request, fr_flags = DEVMGR_FRAME_RESPONSE, fr_sequence = fr_sequence request,
     fr_payload_length = of_nat (length payload), fr_payload = payload\<rparr>"

definition sim_nack :: "devmgr_frame \<Rightarrow> u16 \<Rightarrow> devmgr_frame" where
  "sim_nack request code = (sim_reply request (devmgr_put_le16 code))\<lparr>fr_type := DEVMGR_MSG_NACK\<rparr>"

definition sim_get_info :: "simulator_state \<Rightarrow> devmgr_frame \<Rightarrow> devmgr_frame" where
  "sim_get_info s request =
    (let cap = DEVMGR_PROTOCOL_MAX_PAYLOAD;
         p0 = devmgr_put_le32 (sm_device_id s);
         p1 = put_string cap p0 (ascii ''STM32-SIM'');
         p2 = put_string cap p1 (ascii ''HW-1.0'');
         p3 = put_string cap p2 (sm_firmware_version s);
         p4 = put_string cap p3 (ascii ''BL-1.0.0'');
         p5 = put_string cap p4 (ascii ''SIM00000001'')
     in sim_reply request p5)"

definition sim_get_health :: "simulator_state \<Rightarrow> devmgr_frame \<Rightarrow> devmgr_frame" where
  "sim_get_health s request =
    sim_reply request (devmgr_put_le32 (sm_temperature_millic s) @ devmgr_put_le32 (sm_voltage_mv s) @
      devmgr_put_le32 0)"

definition sim_get_stats :: "simulator_state \<Rightarrow> devmgr_frame \<Rightarrow> devmgr_frame" where
  "sim_get_stats s request =
    sim_reply request (devmgr_put_le32 (ucast (sm_rx_frames s)) @ devmgr_put_le32 (ucast (sm_tx_frames s)) @
      devmgr_put_le32 (ucast (sm_errors s)))"

definition sim_start_telemetry ::
  "sim_env \<Rightarrow> simulator_state \<Rightarrow> devmgr_frame \<Rightarrow> devmgr_frame \<times> simulator_state" where
  "sim_start_telemetry env s request =
    (if fr_payload_length request \<noteq> 4 then (sim_nack request 3, s)
     else
       let s1 = s\<lparr>sm_telemetry_interval_ms := devmgr_get_le32 (fr_payload request)\<rparr>;
           interval = sm_telemetry_interval_ms s1
       in if interval < 100 \<or> interval > 60000 then (sim_nack request 3, s1)
          else (sim_reply request (devmgr_put_le32 interval),
                s1\<lparr>sm_telemetry_enabled := True,
                   sm_next_telemetry_ns := simulator_now_ns (en_clock env) + ucast interval * 1000000\<rparr>))"

definition sim_stop_telemetry ::
  "simulator_state \<Rightarrow> devmgr_frame \<Rightarrow> devmgr_frame \<times> simulator_state" where
  "sim_stop_telemetry s request = (sim_reply request [], s\<lparr>sm_telemetry_enabled := False\<rparr>)"

definition sim_enter_bootloader ::
  "simulator_state \<Rightarrow> devmgr_frame \<Rightarrow> devmgr_frame \<times> simulator_state" where
  "sim_enter_bootloader s request =
    (sim_reply request [], s\<lparr>sm_telemetry_enabled := False, sm_bootloader_active := True\<rparr>)"

text \<open>The fields of a \<open>FW_BEGIN\<close> payload.\<close>

definition begin_size :: "bytes \<Rightarrow> u32" where "begin_size p = devmgr_get_le32 p"
definition begin_crc :: "bytes \<Rightarrow> u32" where "begin_crc p = devmgr_get_le32 (drop 4 p)"
definition begin_chunk :: "bytes \<Rightarrow> u16" where "begin_chunk p = devmgr_get_le16 (drop 8 p)"
definition begin_version_length :: "bytes \<Rightarrow> nat" where
  "begin_version_length p = (case memchr0 (drop 10 p) of None \<Rightarrow> 0 | Some n \<Rightarrow> n)"

text \<open>The new upgrade session that replaces whatever was there before.\<close>

definition open_session :: "simulator_state \<Rightarrow> bytes \<Rightarrow> bytes \<Rightarrow> nat \<Rightarrow> simulator_state" where
  "open_session s new_flash p version_length =
    (let session = sm_firmware_session_id s + 1 in
     s\<lparr>sm_flash := Some new_flash, sm_flash_size := unat (begin_size p),
       sm_expected_firmware_crc := begin_crc p, sm_firmware_chunk_size := begin_chunk p,
       sm_firmware_offset := 0, sm_firmware_session_id := if session = 0 then 1 else session,
       sm_pending_version := take version_length (drop 10 p),
       sm_firmware_upgrading := True, sm_firmware_verified := False\<rparr>)"

definition sim_fw_begin ::
  "sim_env \<Rightarrow> simulator_state \<Rightarrow> devmgr_frame \<Rightarrow> devmgr_frame \<times> simulator_state" where
  "sim_fw_begin env s request =
    (if \<not> sm_bootloader_active s \<or> fr_payload_length request < 11 then (sim_nack request 2, s)
     else
       let p = fr_payload request;
           image_size = begin_size p;
           image_crc = begin_crc p;
           chunk_size = begin_chunk p;
           version_length = begin_version_length p
       in if image_size = 0 \<or> unat image_size > DEVMGR_FIRMWARE_MAX_SIZE \<or> chunk_size = 0 \<or>
             unat chunk_size > DEVMGR_PROTOCOL_MAX_PAYLOAD - 8 \<or> version_length = 0 \<or> version_length \<ge> 32
          then (sim_nack request 3, s)
          else if sm_firmware_upgrading s \<and> sm_flash_size s = unat image_size \<and>
                  sm_expected_firmware_crc s = image_crc \<and> sm_firmware_chunk_size s = chunk_size \<and>
                  sm_pending_version s = cstr (drop 10 p)
          then (sim_reply request (devmgr_put_le32 (sm_firmware_session_id s) @
                  devmgr_put_le32 (sm_firmware_offset s)), s)
          else
            case en_malloc env (unat image_size) of
              None \<Rightarrow> (sim_nack request 6, s)
            | Some new_flash \<Rightarrow>
                let s1 = open_session s new_flash p version_length
                in (sim_reply request (devmgr_put_le32 (sm_firmware_session_id s1) @
                      devmgr_put_le32 (sm_firmware_offset s1)), s1))"

text \<open>The outage of \<open>--disconnect-at-percent\<close>, checked after an accepted chunk.\<close>

definition inject_outage :: "sim_env \<Rightarrow> simulator_state \<Rightarrow> simulator_state" where
  "inject_outage env s =
    (if \<not> sm_outage_injected s \<and> sm_disconnect_at_percent s \<ge> 0 \<and> sm_flash_size s \<noteq> 0 \<and>
        unat (sm_firmware_offset s) * 100 div sm_flash_size s \<ge> nat (sm_disconnect_at_percent s)
     then s\<lparr>sm_outage_injected := True, sm_outage_until_ns := simulator_now_ns (en_clock env) + 6000000000\<rparr>
     else s)"

definition sim_fw_data ::
  "sim_env \<Rightarrow> simulator_state \<Rightarrow> devmgr_frame \<Rightarrow> devmgr_frame \<times> simulator_state" where
  "sim_fw_data env s request =
    (if \<not> sm_firmware_upgrading s \<or> fr_payload_length request \<le> 8 \<or>
        devmgr_get_le32 (fr_payload request) \<noteq> sm_firmware_session_id s
     then (sim_nack request 2, s)
     else
       let p = fr_payload request;
           offset_value = devmgr_get_le32 (drop 4 p);
           data_length = unat (fr_payload_length request) - 8;
           data = region p 8 data_length;
           ack = (\<lambda>s1. (sim_reply request (devmgr_put_le32 (sm_firmware_offset s1)), inject_outage env s1))
       in if data_length > unat (sm_firmware_chunk_size s) \<or> unat offset_value > sm_flash_size s \<or>
             data_length > sm_flash_size s - unat offset_value
          then (sim_nack request 5, s)
          else if offset_value < sm_firmware_offset s then
            if unat offset_value + data_length > unat (sm_firmware_offset s) \<or>
               region (the (sm_flash s)) (unat offset_value) data_length \<noteq> data
            then (sim_nack request 5, s)
            else ack s
          else if offset_value = sm_firmware_offset s then
            ack (s\<lparr>sm_flash := Some (memcpy_at (the (sm_flash s)) (unat offset_value) data),
                   sm_firmware_offset := sm_firmware_offset s + of_nat data_length\<rparr>)
          else (sim_nack request 5, s))"

text \<open>Four payload bytes that name the current session.\<close>

definition names_session :: "simulator_state \<Rightarrow> devmgr_frame \<Rightarrow> bool" where
  "names_session s request \<longleftrightarrow> fr_payload_length request = 4 \<and>
     devmgr_get_le32 (fr_payload request) = sm_firmware_session_id s"

definition sim_fw_status :: "simulator_state \<Rightarrow> devmgr_frame \<Rightarrow> devmgr_frame" where
  "sim_fw_status s request =
    (if \<not> sm_firmware_upgrading s \<or> \<not> names_session s request then sim_nack request 2
     else sim_reply request (devmgr_put_le32 (sm_firmware_session_id s) @
            devmgr_put_le32 (sm_firmware_offset s)))"

definition sim_fw_end :: "simulator_state \<Rightarrow> devmgr_frame \<Rightarrow> devmgr_frame" where
  "sim_fw_end s request =
    (if \<not> sm_firmware_upgrading s \<or> \<not> names_session s request \<or>
        unat (sm_firmware_offset s) \<noteq> sm_flash_size s
     then sim_nack request 5 else sim_reply request [])"

definition sim_fw_verify :: "simulator_state \<Rightarrow> devmgr_frame \<Rightarrow> devmgr_frame \<times> simulator_state" where
  "sim_fw_verify s request =
    (let actual_crc = (case sm_flash s of None \<Rightarrow> 0 | Some f \<Rightarrow> devmgr_crc32 (Some (take (sm_flash_size s) f))) in
     if \<not> sm_firmware_upgrading s \<or> \<not> names_session s request \<or> sm_fail_verify s \<or>
        actual_crc \<noteq> sm_expected_firmware_crc s
     then (sim_nack request 7, s)
     else (sim_reply request (devmgr_put_le32 actual_crc), s\<lparr>sm_firmware_verified := True\<rparr>))"

definition sim_fw_activate :: "simulator_state \<Rightarrow> devmgr_frame \<Rightarrow> devmgr_frame \<times> simulator_state" where
  "sim_fw_activate s request =
    (if \<not> sm_firmware_verified s \<or> \<not> names_session s request then (sim_nack request 2, s)
     else (sim_reply request [], s\<lparr>sm_firmware_version := sm_pending_version s\<rparr>))"

definition sim_reboot :: "simulator_state \<Rightarrow> devmgr_frame \<Rightarrow> devmgr_frame \<times> simulator_state" where
  "sim_reboot s request =
    (sim_reply request [], s\<lparr>sm_bootloader_active := False, sm_firmware_upgrading := False,
       sm_firmware_verified := False\<rparr>)"

text \<open>The dispatch on the request's type.\<close>

definition sim_handle ::
  "sim_env \<Rightarrow> simulator_state \<Rightarrow> devmgr_frame \<Rightarrow> devmgr_frame \<times> simulator_state" where
  "sim_handle env s request =
    (let t = fr_type request in
     if t = DEVMGR_MSG_PING then (sim_reply request (take (unat (fr_payload_length request)) (fr_payload request)), s)
     else if t = DEVMGR_MSG_GET_INFO then (sim_get_info s request, s)
     else if t = DEVMGR_MSG_GET_HEALTH then (sim_get_health s request, s)
     else if t = DEVMGR_MSG_GET_STATS then (sim_get_stats s request, s)
     else if t = DEVMGR_MSG_START_TELEMETRY then sim_start_telemetry env s request
     else if t = DEVMGR_MSG_STOP_TELEMETRY then sim_stop_telemetry s request
     else if t = DEVMGR_MSG_ENTER_BOOTLOADER then sim_enter_bootloader s request
     else if t = DEVMGR_MSG_FW_BEGIN then sim_fw_begin env s request
     else if t = DEVMGR_MSG_FW_DATA then sim_fw_data env s request
     else if t = DEVMGR_MSG_FW_STATUS then (sim_fw_status s request, s)
     else if t = DEVMGR_MSG_FW_END then (sim_fw_end s request, s)
     else if t = DEVMGR_MSG_FW_VERIFY then sim_fw_verify s request
     else if t = DEVMGR_MSG_FW_ACTIVATE then sim_fw_activate s request
     else if t = DEVMGR_MSG_REBOOT then sim_reboot s request
     else (sim_nack request 1, s))"

text \<open>
  The context of the parser's callback: the simulator, the bytes sent so far, and the number
  of calls, which selects the environment of the next one.
\<close>

record sim_world =
  sw_sim :: simulator_state
  sw_out :: bytes
  sw_calls :: nat

definition on_frame :: "(nat \<Rightarrow> sim_env) \<Rightarrow> sim_world frame_callback" where
  "on_frame envs request w =
    (let env = envs (sw_calls w);
         s = (sw_sim w)\<lparr>sm_rx_frames := sm_rx_frames (sw_sim w) + 1\<rparr>
     in case sim_handle env s request of
          (response, s1) \<Rightarrow>
            (case write_frame env s1 response of
               (st, s2, out) \<Rightarrow>
                 (st, w\<lparr>sw_sim := s2, sw_out := sw_out w @ out, sw_calls := sw_calls w + 1\<rparr>)))"

definition emit_telemetry ::
  "sim_env \<Rightarrow> simulator_state \<Rightarrow> u64 \<Rightarrow> devmgr_status \<times> simulator_state \<times> bytes" where
  "emit_telemetry env s now_ns =
    (let started_ns = sm_started_sec s * 1000000000 + sm_started_nsec s;
         uptime_seconds = ucast ((now_ns - started_ns) div 1000000000) :: u32;
         wave = (sm_telemetry_samples s mod 21) - 10;
         s1 = s\<lparr>sm_temperature_millic := 36500 + wave * 25,
                sm_voltage_mv := 3300 - (sm_telemetry_samples s mod 7)\<rparr>;
         payload = devmgr_put_le32 (sm_temperature_millic s1) @ devmgr_put_le32 (sm_voltage_mv s1) @
                   devmgr_put_le32 uptime_seconds @ devmgr_put_le32 (sm_telemetry_samples s1);
         frame = \<lparr>fr_type = DEVMGR_MSG_TELEMETRY, fr_flags = DEVMGR_FRAME_RESPONSE, fr_sequence = 0,
                  fr_payload_length = 16, fr_payload = payload\<rparr>;
         s2 = s1\<lparr>sm_telemetry_samples := sm_telemetry_samples s1 + 1,
                 sm_next_telemetry_ns := now_ns + ucast (sm_telemetry_interval_ms s1) * 1000000\<rparr>
     in write_frame env s2 frame)"

definition simulator_init ::
  "int \<Rightarrow> simulator_config option \<Rightarrow> timespec \<Rightarrow> simulator_state \<Rightarrow> devmgr_status \<times> simulator_state" where
  "simulator_init master_fd config started_at old =
    (if master_fd < 0 then (DEVMGR_ERROR_INVALID, old)
     else
       let s0 = \<lparr>sm_master_fd = master_fd, sm_parser = sm_parser old, sm_started_sec = fst started_at,
           sm_started_nsec = snd started_at, sm_rx_frames = 0, sm_tx_frames = 0, sm_errors = 0,
           sm_device_id = 0x53494D30, sm_temperature_millic = 36500, sm_voltage_mv = 3300,
           sm_telemetry_interval_ms = 0, sm_telemetry_samples = 0, sm_next_telemetry_ns = 0,
           sm_telemetry_enabled = False, sm_flash = None, sm_flash_size = 0, sm_expected_firmware_crc = 0,
           sm_firmware_offset = 0, sm_firmware_session_id = 0, sm_firmware_chunk_size = 0,
           sm_firmware_version = ascii ''1.0.0'', sm_pending_version = [], sm_bootloader_active = False,
           sm_firmware_upgrading = False, sm_firmware_verified = False, sm_running = True,
           sm_drop_rate = 0, sm_corrupt_rate = 0, sm_response_delay_ms = 0,
           sm_disconnect_at_percent = -1, sm_outage_until_ns = 0, sm_outage_injected = False,
           sm_fail_verify = False, sm_random_state = 0xC0FFEE01\<rparr>;
           s1 = (case config of
                   None \<Rightarrow> s0
                 | Some c \<Rightarrow>
                     s0\<lparr>sm_drop_rate := sc_drop_rate c, sm_corrupt_rate := sc_corrupt_rate c,
                        sm_response_delay_ms := sc_response_delay_ms c,
                        sm_disconnect_at_percent := sc_disconnect_at_percent c,
                        sm_fail_verify := sc_fail_verify c,
                        sm_random_state := if sc_random_seed c \<noteq> 0 then sc_random_seed c
                                           else sm_random_state s0\<rparr>)
       in case devmgr_parser_init (sm_parser s1) of
            (st, p) \<Rightarrow> (st, s1\<lparr>sm_parser := p\<rparr>))"

definition simulator_init_ptr ::
  "int \<Rightarrow> simulator_config option \<Rightarrow> timespec \<Rightarrow> simulator_state ptr \<Rightarrow> devmgr_status \<times> simulator_state ptr" where
  "simulator_init_ptr master_fd config started_at s =
    call_ptr DEVMGR_ERROR_INVALID (simulator_init master_fd config started_at) s"

definition simulator_cleanup :: "simulator_state ptr \<Rightarrow> simulator_state ptr" where
  "simulator_cleanup s = map_option (\<lambda>t. t\<lparr>sm_flash := None, sm_flash_size := 0\<rparr>) s"

subsection \<open>The poll loop\<close>

text \<open>
  What one iteration of \<open>simulator_run\<close> meets: a stop request, the result of \<open>poll\<close>, the
  clock, the result of \<open>read\<close>, and the environments of the frames it sends.
\<close>

datatype poll_result = Poll_EINTR | Poll_failed | Poll_timeout | Poll_ready bool bool

datatype read_result = Read_bytes bytes | Read_again | Read_failed

record sim_iter =
  it_stop_requested :: bool
  it_poll :: poll_result
  it_clock :: "timespec option"
  it_read :: read_result
  it_telemetry_env :: sim_env
  it_frame_envs :: "nat \<Rightarrow> sim_env"

definition sim_feed :: "(nat \<Rightarrow> sim_env) \<Rightarrow> bytes \<Rightarrow> simulator_state \<Rightarrow> simulator_state \<times> bytes" where
  "sim_feed envs input s =
    (case devmgr_parser_feed (on_frame envs) (sm_parser s) input \<lparr>sw_sim = s, sw_out = [], sw_calls = 0\<rparr> of
       (result, p, w, emitted) \<Rightarrow>
         let s1 = (sw_sim w)\<lparr>sm_parser := p\<rparr>
         in (if result \<noteq> DEVMGR_OK then s1\<lparr>sm_errors := sm_errors s1 + 1\<rparr> else s1, sw_out w))"

text \<open>One iteration: \<open>Some\<close> status when the function returns, \<open>None\<close> when the loop goes on.\<close>

definition sim_iteration ::
  "sim_iter \<Rightarrow> simulator_state \<Rightarrow> devmgr_status option \<times> simulator_state \<times> bytes" where
  "sim_iteration it s =
    (if \<not> (sm_running s \<and> \<not> it_stop_requested it) then (Some DEVMGR_OK, s, [])
     else
       case it_poll it of
         Poll_EINTR \<Rightarrow> (None, s, [])
       | Poll_failed \<Rightarrow> (Some DEVMGR_ERROR_IO, s, [])
       | ready \<Rightarrow>
           let now_ns = simulator_now_ns (it_clock it) in
           case (if sm_telemetry_enabled s \<and> now_ns \<ge> sm_next_telemetry_ns s
                 then emit_telemetry (it_telemetry_env it) s now_ns else (DEVMGR_OK, s, [])) of
             (st, s1, out) \<Rightarrow>
               if st \<noteq> DEVMGR_OK then (Some DEVMGR_ERROR_IO, s1, out)
               else
                 case ready of
                   Poll_ready err pollin \<Rightarrow>
                     if err then (Some DEVMGR_ERROR_IO, s1, out)
                     else if pollin then
                       case it_read it of
                         Read_bytes input \<Rightarrow>
                           (case sim_feed (it_frame_envs it) (take 2048 input) s1 of
                              (s2, out2) \<Rightarrow> (None, s2, out @ out2))
                       | Read_again \<Rightarrow> (None, s1, out)
                       | Read_failed \<Rightarrow> (Some DEVMGR_ERROR_IO, s1, out)
                     else (None, s1, out)
                 | _ \<Rightarrow> (None, s1, out))"

text \<open>The loop over a finite run of iterations; \<open>None\<close> when it has not returned yet.\<close>

fun simulator_run ::
  "sim_iter list \<Rightarrow> simulator_state \<Rightarrow> devmgr_status option \<times> simulator_state \<times> bytes" where
  "simulator_run [] s = (None, s, [])"
| "simulator_run (it # its) s =
    (case sim_iteration it s of
       (Some st, s1, out) \<Rightarrow> (Some st, s1, out)
     | (None, s1, out) \<Rightarrow>
         (case simulator_run its s1 of (r, s2, out2) \<Rightarrow> (r, s2, out @ out2)))"

subsection \<open>Dispatch\<close>

text \<open>A request changes the device only through one of these handlers.\<close>

lemma sim_handle_cases:
  assumes "sim_handle env s q = (r, s')"
  obtains (same) "s' = s"
  | (start) "sim_start_telemetry env s q = (r, s')"
  | (stop) "sim_stop_telemetry s q = (r, s')"
  | (enter) "sim_enter_bootloader s q = (r, s')"
  | (begin_fw) "fr_type q = DEVMGR_MSG_FW_BEGIN" "sim_fw_begin env s q = (r, s')"
  | (data) "fr_type q = DEVMGR_MSG_FW_DATA" "sim_fw_data env s q = (r, s')"
  | (verify) "fr_type q = DEVMGR_MSG_FW_VERIFY" "sim_fw_verify s q = (r, s')"
  | (activate) "fr_type q = DEVMGR_MSG_FW_ACTIVATE" "sim_fw_activate s q = (r, s')"
  | (reboot) "fr_type q = DEVMGR_MSG_REBOOT" "sim_reboot s q = (r, s')"
  using assms unfolding sim_handle_def Let_def by (simp split: if_splits)

lemma sim_reply_fields [simp]:
  "fr_type (sim_reply q p) = fr_type q" "fr_flags (sim_reply q p) = DEVMGR_FRAME_RESPONSE"
  "fr_sequence (sim_reply q p) = fr_sequence q" "fr_payload (sim_reply q p) = p"
  "fr_payload_length (sim_reply q p) = of_nat (length p)"
  by (simp_all add: sim_reply_def)

lemma sim_nack_fields [simp]:
  "fr_type (sim_nack q c) = DEVMGR_MSG_NACK" "fr_flags (sim_nack q c) = DEVMGR_FRAME_RESPONSE"
  "fr_sequence (sim_nack q c) = fr_sequence q" "fr_payload (sim_nack q c) = devmgr_put_le16 c"
  "fr_payload_length (sim_nack q c) = 2"
  by (simp_all add: sim_nack_def)

lemma sim_reply_wf: "length p \<le> DEVMGR_PROTOCOL_MAX_PAYLOAD \<Longrightarrow> frame_wf (sim_reply q p)"
  by (simp add: frame_wf_def unat_of_nat_u16)

lemma sim_nack_wf: "frame_wf (sim_nack q c)"
  by (simp add: frame_wf_def)

subsection \<open>The device invariant\<close>

text \<open>
  While an upgrade is open the flash block has the announced size, the committed offset lies
  within it, and the session number is not zero; a verified image belongs to an open upgrade.
  \<open>malloc\<close> returns blocks of the size asked for.
\<close>

definition malloc_law :: "sim_env \<Rightarrow> bool" where
  "malloc_law env \<longleftrightarrow> (\<forall>n b. en_malloc env n = Some b \<longrightarrow> length b = n)"

definition flash_ok :: "simulator_state \<Rightarrow> bool" where
  "flash_ok s \<longleftrightarrow> (\<exists>f. sm_flash s = Some f \<and> length f = sm_flash_size s) \<and>
     unat (sm_firmware_offset s) \<le> sm_flash_size s \<and> 0 < sm_flash_size s \<and>
     sm_flash_size s \<le> DEVMGR_FIRMWARE_MAX_SIZE \<and> sm_firmware_session_id s \<noteq> 0"

definition sim_inv :: "simulator_state \<Rightarrow> bool" where
  "sim_inv s \<longleftrightarrow> (sm_firmware_verified s \<longrightarrow> sm_firmware_upgrading s) \<and>
     (sm_firmware_upgrading s \<longrightarrow> flash_ok s)"

text \<open>The part of the state that the invariant reads.\<close>

definition same_flash :: "simulator_state \<Rightarrow> simulator_state \<Rightarrow> bool" where
  "same_flash s t \<longleftrightarrow> sm_flash t = sm_flash s \<and> sm_flash_size t = sm_flash_size s \<and>
     sm_firmware_offset t = sm_firmware_offset s \<and> sm_firmware_session_id t = sm_firmware_session_id s \<and>
     sm_expected_firmware_crc t = sm_expected_firmware_crc s \<and>
     sm_firmware_chunk_size t = sm_firmware_chunk_size s \<and> sm_pending_version t = sm_pending_version s"

lemma same_flash_inv:
  "same_flash s t \<Longrightarrow> sm_firmware_upgrading t = sm_firmware_upgrading s \<Longrightarrow>
   sm_firmware_verified t = sm_firmware_verified s \<Longrightarrow> sim_inv t = sim_inv s"
  by (simp add: same_flash_def sim_inv_def flash_ok_def)

lemma inject_outage_flash [simp]:
  "same_flash s (inject_outage env s)"
  "sm_firmware_upgrading (inject_outage env s) = sm_firmware_upgrading s"
  "sm_firmware_verified (inject_outage env s) = sm_firmware_verified s"
  "sm_bootloader_active (inject_outage env s) = sm_bootloader_active s"
  "sm_firmware_version (inject_outage env s) = sm_firmware_version s"
  by (simp_all add: inject_outage_def same_flash_def)

lemma open_session_fields [simp]:
  "sm_flash (open_session s b p n) = Some b" "sm_flash_size (open_session s b p n) = unat (begin_size p)"
  "sm_firmware_offset (open_session s b p n) = 0" "sm_firmware_session_id (open_session s b p n) \<noteq> 0"
  "sm_firmware_upgrading (open_session s b p n)" "\<not> sm_firmware_verified (open_session s b p n)"
  "sm_expected_firmware_crc (open_session s b p n) = begin_crc p"
  "sm_firmware_chunk_size (open_session s b p n) = begin_chunk p"
  "sm_pending_version (open_session s b p n) = take n (drop 10 p)"
  "sm_firmware_version (open_session s b p n) = sm_firmware_version s"
  "sm_bootloader_active (open_session s b p n) = sm_bootloader_active s"
  "sm_fail_verify (open_session s b p n) = sm_fail_verify s"
  by (simp_all add: open_session_def Let_def)

text \<open>
  The parameters a \<open>FW_BEGIN\<close> must carry, and when it resumes the open session instead of
  starting a new one.
\<close>

definition begin_ok :: "bytes \<Rightarrow> bool" where
  "begin_ok p \<longleftrightarrow> begin_size p \<noteq> 0 \<and> unat (begin_size p) \<le> DEVMGR_FIRMWARE_MAX_SIZE \<and> begin_chunk p \<noteq> 0 \<and>
     unat (begin_chunk p) \<le> 4088 \<and> begin_version_length p \<noteq> 0 \<and> begin_version_length p < 32"

definition resumes :: "simulator_state \<Rightarrow> bytes \<Rightarrow> bool" where
  "resumes s p \<longleftrightarrow> sm_firmware_upgrading s \<and> sm_flash_size s = unat (begin_size p) \<and>
     sm_expected_firmware_crc s = begin_crc p \<and> sm_firmware_chunk_size s = begin_chunk p \<and>
     sm_pending_version s = cstr (drop 10 p)"

lemma fw_begin_alt:
  "sim_fw_begin env s q =
    (if \<not> sm_bootloader_active s \<or> fr_payload_length q < 11 then (sim_nack q 2, s)
     else if \<not> begin_ok (fr_payload q) then (sim_nack q 3, s)
     else if resumes s (fr_payload q)
     then (sim_reply q (devmgr_put_le32 (sm_firmware_session_id s) @ devmgr_put_le32 (sm_firmware_offset s)), s)
     else (case en_malloc env (unat (begin_size (fr_payload q))) of
             None \<Rightarrow> (sim_nack q 6, s)
           | Some b \<Rightarrow>
               let s1 = open_session s b (fr_payload q) (begin_version_length (fr_payload q))
               in (sim_reply q (devmgr_put_le32 (sm_firmware_session_id s1) @
                     devmgr_put_le32 (sm_firmware_offset s1)), s1)))"
proof -
  have c: "(begin_size p = 0 \<or> unat (begin_size p) > DEVMGR_FIRMWARE_MAX_SIZE \<or> begin_chunk p = 0 \<or>
      unat (begin_chunk p) > DEVMGR_PROTOCOL_MAX_PAYLOAD - 8 \<or> begin_version_length p = 0 \<or>
      begin_version_length p \<ge> 32) \<longleftrightarrow> \<not> begin_ok p" for p
    by (auto simp: begin_ok_def)
  show ?thesis unfolding sim_fw_begin_def resumes_def Let_def c by (rule refl)
qed

lemma fw_begin_inv:
  assumes "sim_inv s" and "malloc_law env" and "sim_fw_begin env s q = (r, s')"
  shows "sim_inv s'"
proof -
  consider "s' = s" | b where "begin_ok (fr_payload q)" "en_malloc env (unat (begin_size (fr_payload q))) = Some b"
      "s' = open_session s b (fr_payload q) (begin_version_length (fr_payload q))"
    using assms(3) unfolding fw_begin_alt by (auto simp: Let_def split: if_splits option.splits)
  then show ?thesis
    using assms(1,2) by cases (auto simp: sim_inv_def flash_ok_def malloc_law_def begin_ok_def unat_gt_0)
qed

text \<open>Accepted data: a repeat that changes nothing, or the next bytes appended.\<close>

lemma fw_data_cases:
  assumes "sim_fw_data env s q = (r, s')"
  obtains (refused) c where "r = sim_nack q c" "s' = s"
  | (repeated) off n where "sm_firmware_upgrading s" "off = devmgr_get_le32 (drop 4 (fr_payload q))"
      "n = unat (fr_payload_length q) - 8" "0 < n" "unat off + n \<le> unat (sm_firmware_offset s)"
      "region (the (sm_flash s)) (unat off) n = region (fr_payload q) 8 n"
      "r = sim_reply q (devmgr_put_le32 (sm_firmware_offset s))" "s' = inject_outage env s"
  | (appended) n where "sm_firmware_upgrading s"
      "sm_firmware_offset s = devmgr_get_le32 (drop 4 (fr_payload q))"
      "n = unat (fr_payload_length q) - 8" "0 < n" "n \<le> sm_flash_size s - unat (sm_firmware_offset s)"
      "unat (sm_firmware_offset s) \<le> sm_flash_size s"
      "r = sim_reply q (devmgr_put_le32 (sm_firmware_offset s + of_nat n))"
      "s' = inject_outage env (s\<lparr>sm_flash := Some (memcpy_at (the (sm_flash s)) (unat (sm_firmware_offset s))
          (region (fr_payload q) 8 n)), sm_firmware_offset := sm_firmware_offset s + of_nat n\<rparr>)"
proof -
  let ?off = "devmgr_get_le32 (drop 4 (fr_payload q))"
  let ?n = "unat (fr_payload_length q) - 8"
  have pos: "0 < ?n" if "\<not> fr_payload_length q \<le> 8" using that by (simp add: word_le_nat_alt)
  let ?bad = "\<not> sm_firmware_upgrading s \<or> fr_payload_length q \<le> 8 \<or>
      devmgr_get_le32 (fr_payload q) \<noteq> sm_firmware_session_id s"
  let ?out = "?n > unat (sm_firmware_chunk_size s) \<or> unat ?off > sm_flash_size s \<or> ?n > sm_flash_size s - unat ?off"
  let ?differs = "unat ?off + ?n > unat (sm_firmware_offset s) \<or>
      region (the (sm_flash s)) (unat ?off) ?n \<noteq> region (fr_payload q) 8 ?n"
  have eq: "(r, s') = (if ?bad then (sim_nack q 2, s) else if ?out then (sim_nack q 5, s)
      else if ?off < sm_firmware_offset s then
        if ?differs then (sim_nack q 5, s)
        else (sim_reply q (devmgr_put_le32 (sm_firmware_offset s)), inject_outage env s)
      else if ?off = sm_firmware_offset s then
        (let s1 = s\<lparr>sm_flash := Some (memcpy_at (the (sm_flash s)) (unat ?off) (region (fr_payload q) 8 ?n)),
            sm_firmware_offset := sm_firmware_offset s + of_nat ?n\<rparr>
         in (sim_reply q (devmgr_put_le32 (sm_firmware_offset s1)), inject_outage env s1))
      else (sim_nack q 5, s))"
    using assms unfolding sim_fw_data_def Let_def by (rule sym)
  consider "?bad \<or> ?out \<or> ?off < sm_firmware_offset s \<and> ?differs \<or> sm_firmware_offset s < ?off"
    | "\<not> ?bad" "\<not> ?out" "?off < sm_firmware_offset s" "\<not> ?differs"
    | "\<not> ?bad" "\<not> ?out" "?off = sm_firmware_offset s"
    by (meson linorder_less_linear)
  then show ?thesis
  proof cases
    case 1
    then have "(r, s') = (sim_nack q 2, s) \<or> (r, s') = (sim_nack q 5, s)"
      unfolding eq by (simp only: order_less_not_sym order_less_imp_not_eq if_True if_False simp_thms split: if_split) fastforce
    then show ?thesis using refused by auto
  next
    case 2
    then have "(r, s') = (sim_reply q (devmgr_put_le32 (sm_firmware_offset s)), inject_outage env s)"
      unfolding eq by simp
    then show ?thesis using repeated [of ?off ?n] 2 pos by simp
  next
    case 3
    then show ?thesis using appended [of ?n] eq pos by (simp add: Let_def)
  qed
qed

subsection \<open>Committed bytes\<close>

definition committed :: "simulator_state \<Rightarrow> bytes" where
  "committed s = (case sm_flash s of None \<Rightarrow> [] | Some f \<Rightarrow> take (unat (sm_firmware_offset s)) f)"

lemma same_flash_committed: "same_flash s t \<Longrightarrow> committed t = committed s"
  by (simp add: same_flash_def committed_def cong: option.case_cong)

text \<open>The state after new bytes were appended, before the outage check.\<close>

definition append_flash :: "simulator_state \<Rightarrow> bytes \<Rightarrow> simulator_state" where
  "append_flash s d = s\<lparr>sm_flash := Some (memcpy_at (the (sm_flash s)) (unat (sm_firmware_offset s)) d),
     sm_firmware_offset := sm_firmware_offset s + of_nat (length d)\<rparr>"

lemma append_flash_fields [simp]:
  "sm_firmware_upgrading (append_flash s d) = sm_firmware_upgrading s"
  "sm_firmware_verified (append_flash s d) = sm_firmware_verified s"
  "sm_flash_size (append_flash s d) = sm_flash_size s"
  "sm_firmware_session_id (append_flash s d) = sm_firmware_session_id s"
  "sm_expected_firmware_crc (append_flash s d) = sm_expected_firmware_crc s"
  "sm_firmware_chunk_size (append_flash s d) = sm_firmware_chunk_size s"
  "sm_pending_version (append_flash s d) = sm_pending_version s"
  "sm_bootloader_active (append_flash s d) = sm_bootloader_active s"
  "sm_firmware_version (append_flash s d) = sm_firmware_version s"
  by (simp_all add: append_flash_def)

lemma append_flash_props:
  assumes "flash_ok s" and "length d \<le> sm_flash_size s - unat (sm_firmware_offset s)"
  shows "unat (sm_firmware_offset (append_flash s d)) = unat (sm_firmware_offset s) + length d"
    and "flash_ok (append_flash s d)" and "committed (append_flash s d) = committed s @ d"
proof -
  obtain f where f: "sm_flash s = Some f" "length f = sm_flash_size s"
    "unat (sm_firmware_offset s) \<le> sm_flash_size s" "sm_flash_size s \<le> 16777216"
    using assms(1) by (auto simp: flash_ok_def)
  have "length d < 4294967296" "unat (sm_firmware_offset s) + length d < 4294967296"
    using assms(2) f by linarith+
  then show off: "unat (sm_firmware_offset (append_flash s d)) = unat (sm_firmware_offset s) + length d"
    by (simp add: append_flash_def unat_word_ariths unat_of_nat)
  show "flash_ok (append_flash s d)"
    using assms off f by (simp add: flash_ok_def) (simp add: append_flash_def)
  show "committed (append_flash s d) = committed s @ d"
    using off assms(2) f take_memcpy_at_end [of "unat (sm_firmware_offset s)" d f]
    by (simp add: committed_def) (simp add: append_flash_def)
qed

lemma data_bytes_length:
  "frame_wf q \<Longrightarrow> n = unat (fr_payload_length q) - 8 \<Longrightarrow> 0 < n \<Longrightarrow> length (region (fr_payload q) 8 n) = n"
  by (simp add: frame_wf_def)

text \<open>What accepted data does, on well-formed frames and in terms of the committed bytes.\<close>

lemma fw_data_effect:
  assumes "sim_inv s" and "frame_wf q" and "sim_fw_data env s q = (r, s')"
  obtains (refused) c where "r = sim_nack q c" "s' = s"
  | (repeated) off n where "flash_ok s" "off = devmgr_get_le32 (drop 4 (fr_payload q))"
      "n = unat (fr_payload_length q) - 8" "unat off + n \<le> unat (sm_firmware_offset s)"
      "r = sim_reply q (devmgr_put_le32 (sm_firmware_offset s))" "s' = inject_outage env s"
  | (appended) d where "flash_ok s" "sm_firmware_offset s = devmgr_get_le32 (drop 4 (fr_payload q))"
      "d = region (fr_payload q) 8 (unat (fr_payload_length q) - 8)" "d \<noteq> []"
      "length d \<le> sm_flash_size s - unat (sm_firmware_offset s)"
      "r = sim_reply q (devmgr_put_le32 (sm_firmware_offset (append_flash s d)))"
      "s' = inject_outage env (append_flash s d)"
  using assms(3)
proof (cases rule: fw_data_cases)
  case (refused c)
  then show ?thesis using that(1) by blast
next
  case (repeated off n)
  moreover have "flash_ok s" using repeated(1) assms(1) by (simp add: sim_inv_def)
  ultimately show ?thesis using that(2) by blast
next
  case (appended n)
  have fo: "flash_ok s" using appended(1) assms(1) by (simp add: sim_inv_def)
  let ?d = "region (fr_payload q) 8 n"
  have d: "length ?d = n" using data_bytes_length [OF assms(2) appended(3,4)] .
  then have "?d \<noteq> []" using appended(4) by (metis list.size(3) less_irrefl)
  moreover have "append_flash s ?d = s\<lparr>sm_flash := Some (memcpy_at (the (sm_flash s))
      (unat (sm_firmware_offset s)) ?d), sm_firmware_offset := sm_firmware_offset s + of_nat n\<rparr>"
    unfolding append_flash_def d by (rule refl)
  moreover from this have "sm_firmware_offset (append_flash s ?d) = sm_firmware_offset s + of_nat n"
    by simp
  moreover have "length ?d \<le> sm_flash_size s - unat (sm_firmware_offset s)"
    unfolding d by (rule appended(5))
  ultimately show ?thesis
    using that(3) [of ?d] fo appended(2,3,7,8) by metis
qed

lemma inject_outage_inv [simp]:
  "sim_inv (inject_outage env s) = sim_inv s" "committed (inject_outage env s) = committed s"
  using same_flash_inv [of s "inject_outage env s"] same_flash_committed [of s "inject_outage env s"] by simp_all

lemma fw_data_inv:
  assumes "sim_inv s" and "frame_wf q" and "sim_fw_data env s q = (r, s')"
  shows "sim_inv s'"
  using assms
proof (cases rule: fw_data_effect)
  case (appended d)
  have "flash_ok (append_flash s d)" by (rule append_flash_props(2) [OF appended(1,5)])
  then have "sim_inv (append_flash s d)" using assms(1) by (simp add: sim_inv_def)
  then show ?thesis using appended(7) by simp
qed (use assms(1) in simp_all)

lemma fw_verify_flash: "sim_fw_verify s q = (r, s') \<Longrightarrow> same_flash s s' \<and>
    sm_firmware_upgrading s' = sm_firmware_upgrading s \<and>
    (sm_firmware_verified s' \<longrightarrow> sm_firmware_verified s \<or> sm_firmware_upgrading s)"
  unfolding sim_fw_verify_def Let_def by (auto simp: same_flash_def split: if_splits)

lemma sim_handle_inv:
  assumes "sim_inv s" and "frame_wf q" and "malloc_law env" and "sim_handle env s q = (r, s')"
  shows "sim_inv s'"
  using assms(4)
proof (cases rule: sim_handle_cases)
  case start
  then have "same_flash s s' \<and> sm_firmware_upgrading s' = sm_firmware_upgrading s \<and>
      sm_firmware_verified s' = sm_firmware_verified s"
    unfolding sim_start_telemetry_def Let_def by (auto simp: same_flash_def split: if_splits)
  then show ?thesis using same_flash_inv assms(1) by blast
next
  case verify
  then show ?thesis
    using fw_verify_flash [OF verify(2)] assms(1) by (auto simp: same_flash_def sim_inv_def flash_ok_def)
next
  case activate
  then have "same_flash s s' \<and> sm_firmware_upgrading s' = sm_firmware_upgrading s \<and>
      sm_firmware_verified s' = sm_firmware_verified s"
    unfolding sim_fw_activate_def by (auto simp: same_flash_def split: if_splits)
  then show ?thesis using same_flash_inv assms(1) by blast
next
  case reboot
  then show ?thesis by (auto simp: sim_reboot_def sim_inv_def)
next
  case begin_fw
  then show ?thesis using fw_begin_inv assms(1,3) by blast
next
  case data
  then show ?thesis using fw_data_inv assms(1,2) by blast
next
  case same
  then show ?thesis using assms(1) by simp
next
  case stop
  then have "s' = s\<lparr>sm_telemetry_enabled := False\<rparr>" by (simp add: sim_stop_telemetry_def)
  then show ?thesis using assms(1) same_flash_inv [of s s'] by (simp add: same_flash_def)
next
  case enter
  then have "s' = s\<lparr>sm_telemetry_enabled := False, sm_bootloader_active := True\<rparr>"
    by (simp add: sim_enter_bootloader_def)
  then show ?thesis using assms(1) same_flash_inv [of s s'] by (simp add: same_flash_def)
qed

subsection \<open>Responses\<close>

lemma put_string_length: "length w \<le> cap \<Longrightarrow> length (put_string cap w v) \<le> cap"
  by (auto simp: put_string_def)

lemma sim_get_info_wf: "frame_wf (sim_get_info s q)"
  unfolding sim_get_info_def Let_def by (intro sim_reply_wf put_string_length) simp

lemma sim_fixed_replies_wf:
  "frame_wf (sim_reply q [])" "frame_wf (sim_reply q (devmgr_put_le32 v))"
  "frame_wf (sim_reply q (devmgr_put_le32 v @ devmgr_put_le32 w))"
  "frame_wf (sim_get_health s q)" "frame_wf (sim_get_stats s q)"
  unfolding sim_get_health_def sim_get_stats_def by (intro sim_reply_wf; simp)+

lemma fw_begin_reply:
  assumes "sim_fw_begin env s q = (r, s')"
  shows "(\<exists>c. r = sim_nack q c) \<or> r = sim_reply q (devmgr_put_le32 (sm_firmware_session_id s') @
    devmgr_put_le32 (sm_firmware_offset s'))"
  using assms unfolding fw_begin_alt by (auto simp: Let_def split: if_splits option.splits)

lemma fw_data_reply:
  assumes "sim_fw_data env s q = (r, s')"
  shows "(\<exists>c. r = sim_nack q c) \<or> (\<exists>v. r = sim_reply q (devmgr_put_le32 v))"
  using assms by (rule fw_data_cases) blast+

definition proper_reply :: "devmgr_frame \<Rightarrow> devmgr_frame \<Rightarrow> bool" where
  "proper_reply q r \<longleftrightarrow> frame_wf r \<and> fr_flags r = DEVMGR_FRAME_RESPONSE \<and> fr_sequence r = fr_sequence q \<and>
     (fr_type r = fr_type q \<or> fr_type r = DEVMGR_MSG_NACK)"

lemma proper_replyI [intro]:
  "proper_reply q (sim_nack q c)" "length p \<le> 4096 \<Longrightarrow> proper_reply q (sim_reply q p)"
  by (simp_all add: proper_reply_def sim_nack_wf sim_reply_wf)

lemma proper_replies:
  "proper_reply q (sim_get_health s q)" "proper_reply q (sim_get_stats s q)"
  "proper_reply q (fst (sim_start_telemetry env s q))" "proper_reply q (fst (sim_stop_telemetry s q))"
  "proper_reply q (fst (sim_enter_bootloader s q))" "proper_reply q (sim_fw_status s q)"
  "proper_reply q (sim_fw_end s q)" "proper_reply q (fst (sim_fw_verify s q))"
  "proper_reply q (fst (sim_fw_activate s q))" "proper_reply q (fst (sim_reboot s q))"
  unfolding sim_get_health_def sim_get_stats_def sim_start_telemetry_def sim_stop_telemetry_def
    sim_enter_bootloader_def sim_fw_status_def sim_fw_end_def sim_fw_verify_def sim_fw_activate_def
    sim_reboot_def Let_def
  by (auto split: if_splits)

lemma proper_reply_info: "proper_reply q (sim_get_info s q)"
  unfolding sim_get_info_def Let_def by (intro proper_replyI put_string_length) simp

lemma proper_reply_begin: "proper_reply q (fst (sim_fw_begin env s q))"
  using fw_begin_reply [of env s q, OF prod.collapse [symmetric]]
  by (elim disjE exE) (erule ssubst, rule proper_replyI, simp?)+

lemma proper_reply_data: "proper_reply q (fst (sim_fw_data env s q))"
  using fw_data_reply [of env s q, OF prod.collapse [symmetric]]
  by (elim disjE exE) (erule ssubst, rule proper_replyI, simp?)+

lemma sim_handle_reply:
  assumes "frame_wf q"
  shows "proper_reply q (fst (sim_handle env s q))"
proof -
  have "length (take (unat (fr_payload_length q)) (fr_payload q)) \<le> 4096"
    using assms by (simp add: frame_wf_def)
  then show ?thesis
    unfolding sim_handle_def Let_def
    using proper_replyI(2) by (simp add: proper_replies proper_reply_info proper_reply_begin proper_reply_data proper_replyI(1))
qed

subsection \<open>Transmission and the whole run\<close>

text \<open>Sending touches the random generator and the frame counter only; \<open>quiet\<close> forgets both.\<close>

definition quiet :: "simulator_state \<Rightarrow> simulator_state" where
  "quiet s = s\<lparr>sm_random_state := 0, sm_tx_frames := 0\<rparr>"

lemma quiet_simps [simp]:
  "quiet (s\<lparr>sm_random_state := v\<rparr>) = quiet s" "quiet (s\<lparr>sm_tx_frames := t\<rparr>) = quiet s"
  by (simp_all add: quiet_def)

lemma simulator_random_quiet: "quiet (snd (simulator_random s)) = quiet s"
  by (simp add: simulator_random_def Let_def)

lemma write_frame_quiet: "quiet (fst (snd (write_frame env s f))) = quiet s"
  using simulator_random_quiet [of s] simulator_random_quiet [of "snd (simulator_random s)"]
  unfolding write_frame_def Let_def split_def by (simp split: sum.split)

lemma sim_inv_quiet: "sim_inv (quiet s) \<longleftrightarrow> sim_inv s"
  by (simp add: quiet_def sim_inv_def flash_ok_def)

lemma sm_parser_quiet: "sm_parser (quiet s) = sm_parser s"
  by (simp add: quiet_def)

lemma write_frame_keeps:
  assumes "write_frame env s f = (st, s', out)"
  shows "quiet s' = quiet s" "sim_inv s' \<longleftrightarrow> sim_inv s" "sm_parser s' = sm_parser s"
proof -
  show q: "quiet s' = quiet s" using write_frame_quiet [of env s f] assms by simp
  show "sim_inv s' \<longleftrightarrow> sim_inv s" using sim_inv_quiet q by metis
  show "sm_parser s' = sm_parser s" using sm_parser_quiet q by metis
qed

lemma sim_inv_counters [simp]:
  "sim_inv (s\<lparr>sm_rx_frames := n\<rparr>) \<longleftrightarrow> sim_inv s" "sim_inv (s\<lparr>sm_errors := m\<rparr>) \<longleftrightarrow> sim_inv s"
  "sim_inv (s\<lparr>sm_parser := p\<rparr>) \<longleftrightarrow> sim_inv s"
  by (simp_all add: sim_inv_def flash_ok_def)

lemma on_frame_keeps:
  assumes "\<And>n. malloc_law (envs n)" "frame_wf q" "sim_inv (sw_sim w)" "on_frame envs q w = (st, w')"
  shows "sim_inv (sw_sim w')"
proof -
  let ?s = "(sw_sim w)\<lparr>sm_rx_frames := sm_rx_frames (sw_sim w) + 1\<rparr>"
  obtain r s1 where h: "sim_handle (envs (sw_calls w)) ?s q = (r, s1)" by (rule prod.exhaust)
  obtain st2 s2 out where wr: "write_frame (envs (sw_calls w)) s1 r = (st2, s2, out)" by (metis prod_cases3)
  have "sim_inv s1" using sim_handle_inv [OF _ assms(2) assms(1) h] assms(3) by simp
  then have "sim_inv s2" using write_frame_keeps(2) [OF wr] by simp
  then show ?thesis using assms(4) h wr by (auto simp: on_frame_def Let_def)
qed

lemma emit_telemetry_keeps:
  assumes "emit_telemetry env s now = (st, s', out)"
  shows "sim_inv s' \<longleftrightarrow> sim_inv s" "sm_parser s' = sm_parser s"
  using write_frame_keeps(2,3) [OF assms [unfolded emit_telemetry_def Let_def]]
  by (simp_all add: sim_inv_def flash_ok_def)

lemma write_loop_all: "write_loop rs bs = (DEVMGR_OK, out) \<Longrightarrow> out = bs"
proof (induction rs bs arbitrary: out rule: write_loop.induct)
  case (3 n rs b bs)
  then show ?case by (cases "write_loop rs (drop n (b # bs))") (auto split: if_splits)
qed (auto split: if_splits)

lemma xor_40_neq: "b XOR 0x40 \<noteq> (b :: u8)"
proof
  assume "b XOR 0x40 = b"
  then have "b XOR (b XOR 0x40) = b XOR b" by simp
  then show False by (simp flip: xor.assoc)
qed

lemma corrupt_byte_header:
  assumes "12 < length w"
  shows "length (corrupt_byte w) = length w" "i < 12 \<Longrightarrow> corrupt_byte w ! i = w ! i"
    "devmgr_get_le16 (corrupt_byte w) = devmgr_get_le16 w"
    "devmgr_get_le16 (drop 10 (corrupt_byte w)) = devmgr_get_le16 (drop 10 w)"
proof -
  show len: "length (corrupt_byte w) = length w" and nth: "i < 12 \<Longrightarrow> corrupt_byte w ! i = w ! i" for i
    by (simp_all add: corrupt_byte_def)
  show "devmgr_get_le16 (corrupt_byte w) = devmgr_get_le16 w" by (simp add: devmgr_get_le16_def nth)
  have "drop 10 (corrupt_byte w) ! i = drop 10 w ! i" if "i < 2" for i
    using assms len nth [of "10 + i"] that by simp
  then show "devmgr_get_le16 (drop 10 (corrupt_byte w)) = devmgr_get_le16 (drop 10 w)"
    by (simp add: devmgr_get_le16_def)
qed

lemma decode_same_header:
  assumes ok: "devmgr_frame_decode w = Inr f"
    and same: "length v = length w" "devmgr_get_le16 v = devmgr_get_le16 w" "v ! 2 = w ! 2" "v ! 5 = w ! 5"
      "devmgr_get_le16 (drop 10 v) = devmgr_get_le16 (drop 10 w)"
    and bad: "devmgr_frame_decode v = Inl e"
  shows "e = DEVMGR_ERROR_CRC"
proof -
  obtain n where n: "unat (devmgr_get_le16 (drop 10 w)) = n" by blast
  have "devmgr_get_le16 w = DEVMGR_PROTOCOL_MAGIC" "w ! 2 = 1" "w ! 5 = 0" "n \<le> 4096" "length w = 16 + n"
    using frame_decode_Inr [OF ok n] by blast+
  then show ?thesis
    using bad unfolding devmgr_frame_decode_def Let_def same n by (simp split: if_splits)
qed

lemma corrupt_byte_rejected:
  assumes "frame_wf f"
  shows "devmgr_frame_decode (corrupt_byte (frame_wire f)) = Inl DEVMGR_ERROR_CRC"
proof -
  let ?w = "frame_wire f" and ?c = "corrupt_byte (frame_wire f)"
  have len: "12 < length ?w" using assms by simp
  have ok: "devmgr_frame_decode (take 12 ?w @ [?w ! 12] @ drop 13 ?w) = Inr f"
    using frame_decode_wire [OF assms] id_take_nth_drop [OF len] by simp
  have c: "?c = take 12 ?w @ [?w ! 12 XOR 0x40] @ drop 13 ?w"
    using len by (simp add: corrupt_byte_def upd_conv_take_nth_drop)
  have "\<exists>e. devmgr_frame_decode ?c = Inl e"
    unfolding c
  proof (rule frame_burst_rejected [OF ok])
    show "[?w ! 12 XOR 0x40] \<noteq> [?w ! 12]" using xor_40_neq by (simp only: list.inject) blast
  qed simp_all
  then obtain e where e: "devmgr_frame_decode ?c = Inl e" ..
  have h: "i < 12 \<Longrightarrow> ?c ! i = ?w ! i" for i by (rule corrupt_byte_header(2) [OF len])
  show ?thesis
    using decode_same_header [OF frame_decode_wire [OF assms] _ _ _ _ _ e]
      corrupt_byte_header(1,3,4) [OF len] h [of 2] h [of 5] e by simp
qed

definition sim_reachable :: "simulator_state \<Rightarrow> bool" where
  "sim_reachable s \<longleftrightarrow> sim_inv s \<and> parser_inv (sm_parser s)"

definition iter_malloc_law :: "sim_iter \<Rightarrow> bool" where
  "iter_malloc_law it \<longleftrightarrow> (\<forall>n. malloc_law (it_frame_envs it n))"

lemma sim_feed_keeps:
  assumes "\<And>n. malloc_law (envs n)" "sim_reachable s" "sim_feed envs input s = (s', out)"
  shows "sim_reachable s'"
proof -
  obtain r p w k where f: "devmgr_parser_feed (on_frame envs) (sm_parser s) input
      \<lparr>sw_sim = s, sw_out = [], sw_calls = 0\<rparr> = (r, p, w, k)" by (metis prod_cases4)
  have "keeps (on_frame envs) (\<lambda>w. sim_inv (sw_sim w))"
    unfolding keeps_def by (intro allI impI) (rule on_frame_keeps [OF assms(1) _ _ prod.collapse [symmetric]])
  then have "parser_inv p \<and> sim_inv (sw_sim w)"
    using parser_feed_keeps [where P = "\<lambda>w. sim_inv (sw_sim w)", OF _ _ _ f] assms(2)
    by (simp add: sim_reachable_def)
  then show ?thesis using assms(3) unfolding sim_feed_def f sim_reachable_def Let_def
    by (auto split: if_splits)
qed

lemma sim_iteration_keeps:
  assumes "iter_malloc_law it" "sim_reachable s" "sim_iteration it s = (r, s', out)"
  shows "sim_reachable s'"
proof -
  let ?now = "simulator_now_ns (it_clock it)"
  obtain st s1 out1 where t: "(if sm_telemetry_enabled s \<and> ?now \<ge> sm_next_telemetry_ns s
      then emit_telemetry (it_telemetry_env it) s ?now else (DEVMGR_OK, s, [])) = (st, s1, out1)"
    by (metis prod_cases3)
  have s1: "sim_reachable s1"
    using t assms(2) emit_telemetry_keeps [of "it_telemetry_env it" s ?now st s1 out1]
    by (auto simp: sim_reachable_def split: if_splits)
  note fed = sim_feed_keeps [of "it_frame_envs it" s1, OF _ s1]
  show ?thesis
    using assms s1 fed unfolding sim_iteration_def Let_def iter_malloc_law_def t
    by (cases "it_poll it"; cases "it_read it") (simp_all split: if_splits prod.splits)
qed

lemma simulator_run_keeps:
  "\<forall>it \<in> set its. iter_malloc_law it \<Longrightarrow> sim_reachable s \<Longrightarrow> simulator_run its s = (r, s', out) \<Longrightarrow>
   sim_reachable s'"
proof (induction its arbitrary: s r s' out)
  case Nil
  then show ?case by simp
next
  case (Cons it its)
  obtain r1 s1 o1 where i: "sim_iteration it s = (r1, s1, o1)" by (metis prod_cases3)
  have s1: "sim_reachable s1" using sim_iteration_keeps [OF _ Cons.prems(2) i] Cons.prems(1) by simp
  obtain r2 s2 o2 where rest: "simulator_run its s1 = (r2, s2, o2)" by (metis prod_cases3)
  have "sim_reachable s2" using Cons.IH [OF _ s1 rest] Cons.prems(1) by simp
  then show ?case using Cons.prems(3) i rest s1 by (cases r1) auto
qed

lemma simulator_init_reachable:
  "0 \<le> fd \<Longrightarrow> sim_reachable (snd (simulator_init fd cfg t0 old))"
  using parser_init_ready [of "sm_parser old"]
  by (auto simp: simulator_init_def sim_reachable_def sim_inv_def parser_ready_def Let_def split: option.split prod.split)

subsection \<open>Duplicates and the growth of the flash image\<close>

definition data_admitted :: "simulator_state \<Rightarrow> devmgr_frame \<Rightarrow> bool" where
  "data_admitted s q \<longleftrightarrow>
    (let off = unat (devmgr_get_le32 (drop 4 (fr_payload q))); n = unat (fr_payload_length q) - 8 in
     sm_firmware_upgrading s \<and> \<not> fr_payload_length q \<le> 8 \<and>
     devmgr_get_le32 (fr_payload q) = sm_firmware_session_id s \<and>
     n \<le> unat (sm_firmware_chunk_size s) \<and> off \<le> sm_flash_size s \<and> n \<le> sm_flash_size s - off)"

lemma fw_data_admitted:
  assumes "sim_fw_data env s q = (r, s')" and "fr_type r \<noteq> DEVMGR_MSG_NACK"
  shows "data_admitted s q"
proof (rule ccontr)
  assume "\<not> data_admitted s q"
  then have "\<exists>c. sim_fw_data env s q = (sim_nack q c, s)"
    unfolding sim_fw_data_def data_admitted_def Let_def by (auto simp: not_le)
  then show False using assms by auto
qed

lemma committed_region:
  "flash_ok s \<Longrightarrow> off + n \<le> unat (sm_firmware_offset s) \<Longrightarrow>
   region (the (sm_flash s)) off n = region (committed s) off n"
  by (auto simp: flash_ok_def committed_def region_def drop_take min_absorb1)

lemma fw_data_repeat:
  assumes "data_admitted s q" "sim_inv s"
    and "region (committed s) (unat (devmgr_get_le32 (drop 4 (fr_payload q)))) (unat (fr_payload_length q) - 8) =
      region (fr_payload q) 8 (unat (fr_payload_length q) - 8)"
    and "unat (devmgr_get_le32 (drop 4 (fr_payload q))) + (unat (fr_payload_length q) - 8) \<le>
      unat (sm_firmware_offset s)"
  shows "sim_fw_data env s q =
    (sim_reply q (devmgr_put_le32 (sm_firmware_offset s)), inject_outage env s)"
proof -
  let ?off = "devmgr_get_le32 (drop 4 (fr_payload q))" and ?n = "unat (fr_payload_length q) - 8"
  have a: "sm_firmware_upgrading s" "\<not> fr_payload_length q \<le> 8"
    "devmgr_get_le32 (fr_payload q) = sm_firmware_session_id s"
    "\<not> ?n > unat (sm_firmware_chunk_size s)" "\<not> unat ?off > sm_flash_size s"
    "\<not> ?n > sm_flash_size s - unat ?off"
    using assms(1) by (simp_all add: data_admitted_def Let_def)
  have pos: "0 < ?n" using a(2) by (simp add: word_le_nat_alt)
  then have lt: "?off < sm_firmware_offset s" using assms(4) by (simp add: word_less_nat_alt)
  have "flash_ok s" using assms(2) a(1) by (simp add: sim_inv_def)
  then have "region (the (sm_flash s)) (unat ?off) ?n = region (committed s) (unat ?off) ?n"
    using assms(4) by (rule committed_region)
  then have r: "region (the (sm_flash s)) (unat ?off) ?n = region (fr_payload q) 8 ?n" using assms(3) by simp
  have le: "\<not> unat ?off + ?n > unat (sm_firmware_offset s)" using assms(4) by simp
  show ?thesis
    unfolding sim_fw_data_def Let_def using a by (simp only: lt r le if_True if_False simp_thms)
qed

lemma append_region:
  assumes "flash_ok s" "length d \<le> sm_flash_size s - unat (sm_firmware_offset s)" "n = length d"
  shows "region (committed (append_flash s d)) (unat (sm_firmware_offset s)) n = d"
proof -
  have "length (committed s) = unat (sm_firmware_offset s)"
    using assms(1) by (auto simp: flash_ok_def committed_def)
  then show ?thesis using append_flash_props(3) [OF assms(1,2)] assms(3) by (simp add: region_def)
qed

lemma data_admitted_same:
  "same_flash s t \<Longrightarrow> sm_firmware_upgrading t = sm_firmware_upgrading s \<Longrightarrow>
   data_admitted t q = data_admitted s q"
  by (simp add: data_admitted_def same_flash_def)

lemma data_admitted_append: "data_admitted (append_flash s d) q = data_admitted s q"
  by (simp add: data_admitted_def)

lemma fw_data_twice:
  assumes "sim_inv s" "frame_wf q" "sim_fw_data env s q = (r, s1)" "fr_type r \<noteq> DEVMGR_MSG_NACK"
  shows "sim_fw_data env2 s1 q = (r, inject_outage env2 s1)"
proof -
  let ?off = "devmgr_get_le32 (drop 4 (fr_payload q))" and ?n = "unat (fr_payload_length q) - 8"
  let ?d = "region (fr_payload q) 8 ?n"
  have adm: "data_admitted s q" using fw_data_admitted [OF assms(3,4)] .
  have inv: "sim_inv s1" using fw_data_inv [OF assms(1,2,3)] .
  have "data_admitted s1 q \<and> region (committed s1) (unat ?off) ?n = ?d \<and>
      unat ?off + ?n \<le> unat (sm_firmware_offset s1) \<and> r = sim_reply q (devmgr_put_le32 (sm_firmware_offset s1))"
    using assms(3)
  proof (cases rule: fw_data_cases)
    case (refused c)
    then show ?thesis using assms(4) by simp
  next
    case (repeated off n)
    have "flash_ok s" using repeated(1) assms(1) by (simp add: sim_inv_def)
    moreover have "same_flash s s1" using repeated(8) by simp
    ultimately show ?thesis
      using repeated adm data_admitted_same [of s s1 q] committed_region [of s "unat ?off" ?n]
        same_flash_committed [of s s1] by (simp add: same_flash_def)
  next
    case (appended n)
    have fo: "flash_ok s" using appended(1) assms(1) by (simp add: sim_inv_def)
    have d: "length ?d = ?n" using data_bytes_length [OF assms(2) refl] appended(3,4) by simp
    have s1: "s1 = inject_outage env (append_flash s ?d)"
      using appended(3,8) unfolding append_flash_def d by simp
    have same: "same_flash (append_flash s ?d) s1" unfolding s1 by simp
    have le: "length ?d \<le> sm_flash_size s - unat (sm_firmware_offset s)" using appended(3,5) d by simp
    have "sm_firmware_upgrading s1 = sm_firmware_upgrading (append_flash s ?d)" unfolding s1 by simp
    then have "data_admitted s1 q" using adm data_admitted_same [OF same] data_admitted_append by blast
    then show ?thesis
      using appended(2,3,7) append_region [OF fo le d [symmetric]] append_flash_props(1) [OF fo le] d
        same_flash_committed [OF same] same by (simp add: same_flash_def) (simp add: append_flash_def)
  qed
  then show ?thesis using fw_data_repeat [OF _ inv] by simp
qed

lemma sim_handle_committed:
  assumes "sim_inv s" "frame_wf q" "malloc_law env" "sim_handle env s q = (r, s')"
  obtains (same) "same_flash s s'"
  | (opened) "fr_type q = DEVMGR_MSG_FW_BEGIN" "sm_firmware_session_id s' \<noteq> sm_firmware_session_id s" "committed s' = []"
  | (grown) "fr_type q = DEVMGR_MSG_FW_DATA" "sm_firmware_session_id s' = sm_firmware_session_id s"
      "committed s' = committed s @ region (fr_payload q) 8 (unat (fr_payload_length q) - 8)"
  using assms(4)
proof (cases rule: sim_handle_cases)
  case begin_fw
  have "same_flash s s' \<or> (\<exists>b n. s' = open_session s b (fr_payload q) n)"
    using begin_fw(2) unfolding fw_begin_alt by (auto simp: Let_def same_flash_def split: if_splits option.splits)
  then show ?thesis
  proof (elim disjE exE)
    fix b n assume s': "s' = open_session s b (fr_payload q) n"
    have "sm_firmware_session_id s' \<noteq> sm_firmware_session_id s"
      unfolding s' open_session_def Let_def by (auto simp: add_eq_0_iff)
    moreover have "committed s' = []" unfolding s' by (simp add: committed_def)
    ultimately show ?thesis using opened begin_fw(1) by simp
  qed (rule same)
next
  case data
  show ?thesis
    using assms(1,2) data(2)
  proof (cases rule: fw_data_effect)
    case (appended d)
    then show ?thesis
      using grown data(1) append_flash_props(3) [OF appended(1,5)]
        inject_outage_flash(1) [of "append_flash s d" env] by (simp add: same_flash_def)
  next
    case (refused c)
    then show ?thesis using same by (simp add: same_flash_def)
  next
    case (repeated off n)
    then show ?thesis using same inject_outage_flash(1) [of s env] by simp
  qed
qed (use same in \<open>auto simp: same_flash_def sim_start_telemetry_def sim_stop_telemetry_def
    sim_enter_bootloader_def sim_fw_verify_def sim_fw_activate_def sim_reboot_def Let_def split: if_splits\<close>)

lemma sim_handle_data: "fr_type q = DEVMGR_MSG_FW_DATA \<Longrightarrow> sim_handle env s q = sim_fw_data env s q"
  by (simp add: sim_handle_def)

text \<open>A simulator before its initialisation, and one with an open upgrade session.\<close>

definition zero_simulator :: simulator_state where
  "zero_simulator = \<lparr>sm_master_fd = 0, sm_parser = zero_parser, sm_started_sec = 0, sm_started_nsec = 0,
     sm_rx_frames = 0, sm_tx_frames = 0, sm_errors = 0, sm_device_id = 0, sm_temperature_millic = 0,
     sm_voltage_mv = 0, sm_telemetry_interval_ms = 0, sm_telemetry_samples = 0, sm_next_telemetry_ns = 0,
     sm_telemetry_enabled = False, sm_flash = None, sm_flash_size = 0, sm_expected_firmware_crc = 0,
     sm_firmware_offset = 0, sm_firmware_session_id = 0, sm_firmware_chunk_size = 0,
     sm_firmware_version = [], sm_pending_version = [], sm_bootloader_active = False,
     sm_firmware_upgrading = False, sm_firmware_verified = False, sm_running = True, sm_drop_rate = 0,
     sm_corrupt_rate = 0, sm_response_delay_ms = 0, sm_disconnect_at_percent = -1,
     sm_outage_until_ns = 0, sm_outage_injected = False, sm_fail_verify = False, sm_random_state = 1\<rparr>"

definition open_simulator :: simulator_state where
  "open_simulator = zero_simulator\<lparr>sm_flash := Some [0, 0, 0, 0], sm_flash_size := 4,
     sm_firmware_session_id := 1, sm_firmware_chunk_size := 4, sm_bootloader_active := True,
     sm_firmware_upgrading := True\<rparr>"

definition witness_env :: sim_env where
  "witness_env = \<lparr>en_clock = Some (1, 0), en_write_clock = Some (1, 0), en_malloc = (\<lambda>n. Some (replicate n 0)),
     en_writes = [Write_EINTR, Wrote 3, Write_EAGAIN True, Wrote 5000]\<rparr>"

definition witness_data :: devmgr_frame where
  "witness_data = \<lparr>fr_type = DEVMGR_MSG_FW_DATA, fr_flags = DEVMGR_FRAME_ACK_REQUIRED, fr_sequence = 9,
     fr_payload_length = 10, fr_payload = [1, 0, 0, 0, 0, 0, 0, 0, 7, 8]\<rparr>"

lemma witness_laws:
  "malloc_law witness_env" "frame_wf witness_data" "sim_inv open_simulator"
  "fr_type witness_data = DEVMGR_MSG_FW_DATA"
  by (simp_all add: malloc_law_def witness_env_def frame_wf_def witness_data_def sim_inv_def flash_ok_def
      open_simulator_def zero_simulator_def)


lemma witness_data_handled:
  "fst (sim_handle witness_env open_simulator witness_data) = sim_reply witness_data [2, 0, 0, 0]"
  "sm_flash (snd (sim_handle witness_env open_simulator witness_data)) = Some [7, 8, 0, 0]"
  "sm_firmware_offset (snd (sim_handle witness_env open_simulator witness_data)) = 2"
  by code_simp+


text \<open>
  C35. Retransmitted data is harmless. When the simulated device has accepted a \<open>FW_DATA\<close> request
  and receives the same request again, as it does when its acknowledgement was lost, it sends
  the same acknowledgement and neither the flash nor the offset changes.
\<close>

theorem sim_fw_data_idempotent:
  assumes "sim_inv s" and "frame_wf q" and "fr_type q = DEVMGR_MSG_FW_DATA"
    and "sim_handle env s q = (r, s1)" and "fr_type r \<noteq> DEVMGR_MSG_NACK"
  shows "\<exists>s2. sim_handle env2 s1 q = (r, s2) \<and> committed s2 = committed s1 \<and>
    sm_flash s2 = sm_flash s1 \<and> sm_firmware_offset s2 = sm_firmware_offset s1"
proof -
  have "sim_handle env2 s1 q = (r, inject_outage env2 s1)"
    using fw_data_twice [OF assms(1,2) _ assms(5)] assms(3,4) by (simp add: sim_handle_data)
  then show ?thesis using inject_outage_flash(1) [of s1 env2] by (simp add: same_flash_def)
qed

theorem sim_fw_data_idempotent_witness:
  "fst (sim_handle witness_env (snd (sim_handle witness_env open_simulator witness_data)) witness_data) =
   fst (sim_handle witness_env open_simulator witness_data)"
proof -
  let ?h = "sim_handle witness_env open_simulator witness_data"
  have "fr_type (fst ?h) \<noteq> DEVMGR_MSG_NACK" by (simp add: witness_data_handled witness_laws)
  then show ?thesis
    using sim_fw_data_idempotent [of open_simulator witness_data witness_env "fst ?h" "snd ?h" witness_env]
      witness_laws by (auto simp del: sim_handle_data)
qed

lemma simulator_random_eq:
  obtains d v where "simulator_random s = (d, s\<lparr>sm_random_state := v\<rparr>)" "0 \<le> d"
proof -
  have "0 \<le> (of_nat n / 4294967296 :: rat)" for n by simp
  then show ?thesis using that [OF simulator_random_def [unfolded Let_def]] by blast
qed

lemma write_frame_cases:
  assumes "frame_wf f" and "write_frame env s f = (DEVMGR_OK, s', out)"
  obtains (silent) "out = []" "simulator_now_ns (en_write_clock env) < sm_outage_until_ns s \<or> 0 < sm_drop_rate s"
  | (damaged) "out = corrupt_byte (frame_wire f)" "0 < sm_corrupt_rate s"
  | (sent) "out = frame_wire f"
proof -
  obtain d v where r1: "simulator_random s = (d, s\<lparr>sm_random_state := v\<rparr>)" "0 \<le> d"
    by (rule simulator_random_eq)
  obtain d2 v2 where r2: "simulator_random (s\<lparr>sm_random_state := v\<rparr>) =
      (d2, s\<lparr>sm_random_state := v\<rparr>\<lparr>sm_random_state := v2\<rparr>)" "0 \<le> d2"
    by (rule simulator_random_eq)
  let ?wire = "if d2 < sm_corrupt_rate s then corrupt_byte (frame_wire f) else frame_wire f"
  have len: "12 < length (frame_wire f)" using assms(1) by simp
  consider "simulator_now_ns (en_write_clock env) < sm_outage_until_ns s" "out = []"
    | "d < sm_drop_rate s" "out = []" | "write_loop (en_writes env) ?wire = (DEVMGR_OK, out)"
    using assms(2) unfolding write_frame_def r1(1) r2(1) frame_encode_max [OF assms(1)]
    by (auto simp: r2(1) len Let_def split: if_splits prod.splits)
  then show ?thesis
  proof cases
    case 3
    then have "out = ?wire" by (rule write_loop_all)
    then show ?thesis using damaged sent r2(2) by (auto split: if_splits)
  qed (use silent r1(2) in auto)
qed

text \<open>
  C36. What the simulated device puts on the wire. When sending a well-formed frame succeeds, the
  bytes that went out, whatever partial writes and retries it took, are none, the exact encoding
  of the frame, or an encoding damaged by fault injection, which the frame decoder rejects with a
  checksum error. Without fault injection and outside an outage it is the exact encoding.
\<close>

theorem sim_write_frame_effect:
  assumes "frame_wf f" and "write_frame env s f = (DEVMGR_OK, s', out)"
  shows "(out = [] \<or> out = frame_wire f \<or> devmgr_frame_decode out = Inl DEVMGR_ERROR_CRC) \<and>
    (sm_drop_rate s \<le> 0 \<and> sm_corrupt_rate s \<le> 0 \<and>
       sm_outage_until_ns s \<le> simulator_now_ns (en_write_clock env) \<longrightarrow> out = frame_wire f)"
  using assms
proof (cases rule: write_frame_cases)
  case damaged
  then show ?thesis using corrupt_byte_rejected [OF assms(1)] by simp
qed auto

theorem sim_write_frame_effect_witness:
  "snd (snd (write_frame witness_env zero_simulator zero_frame)) = frame_wire zero_frame"
proof -
  have wf: "frame_wf zero_frame" by (simp add: frame_wf_def zero_frame_def)
  have len: "length (frame_wire zero_frame) = 16" using length_frame_wire [OF wf] by (simp add: zero_frame_def)
  then obtain b1 b2 b3 b4 bs where w: "frame_wire zero_frame = b1 # b2 # b3 # b4 # bs" "length bs = 12"
    by (auto simp: numeral_eq_Suc length_Suc_conv)
  obtain d v where r1: "simulator_random zero_simulator = (d, zero_simulator\<lparr>sm_random_state := v\<rparr>)" "0 \<le> d"
    by (rule simulator_random_eq)
  obtain d2 v2 where r2: "simulator_random (zero_simulator\<lparr>sm_random_state := v\<rparr>) =
      (d2, zero_simulator\<lparr>sm_random_state := v\<rparr>\<lparr>sm_random_state := v2\<rparr>)" "0 \<le> d2"
    by (rule simulator_random_eq)
  have z: "sm_drop_rate zero_simulator = 0" "sm_corrupt_rate zero_simulator = 0" "sm_outage_until_ns zero_simulator = 0"
    by (simp_all add: zero_simulator_def)
  let ?w = "write_frame witness_env zero_simulator zero_frame"
  have l: "fst (write_loop (en_writes witness_env) (frame_wire zero_frame)) = DEVMGR_OK"
    unfolding w(1) witness_env_def using w(2) by (simp add: split_def)
  have "fst ?w = DEVMGR_OK"
    unfolding write_frame_def r1(1) frame_encode_max [OF wf] using l r1(2) r2
    by (simp add: Let_def z split_def)
  then have "?w = (DEVMGR_OK, fst (snd ?w), snd (snd ?w))" by (metis prod.collapse)
  then show ?thesis
    using sim_write_frame_effect [OF wf, of witness_env zero_simulator "fst (snd ?w)" "snd (snd ?w)"]
    by (simp add: z)
qed

text \<open>
  C24. The simulated device survives every input. From initialisation on, whatever bytes arrive,
  however reads, polls, clocks, memory allocation and writes turn out, at every point of the run
  the upgrade session is consistent (the flash buffer has the announced size, which is within the
  16 MiB limit, the offset is within it, the session id is not 0, verified implies an open session)
  and the parser's ring buffer is well formed.
\<close>

theorem simulator_run_invariant:
  assumes "0 \<le> fd" and "\<forall>it \<in> set its. iter_malloc_law it"
  shows "case simulator_run its (snd (simulator_init fd cfg t0 old)) of
    (r, s, out) \<Rightarrow> sim_inv s \<and> parser_inv (sm_parser s)"
  using simulator_run_keeps [OF assms(2) simulator_init_reachable [OF assms(1), of cfg t0 old]]
  by (auto simp: sim_reachable_def)

definition witness_iter :: sim_iter where
  "witness_iter = \<lparr>it_stop_requested = False, it_poll = Poll_ready False True, it_clock = Some (1, 0),
     it_read = Read_bytes (frame_wire zero_frame @ [0x55, 0xAA, 0x01]), it_telemetry_env = witness_env,
     it_frame_envs = (\<lambda>_. witness_env)\<rparr>"

theorem simulator_run_invariant_witness:
  "case simulator_run [witness_iter, witness_iter] (snd (simulator_init 3 None (1, 0) zero_simulator)) of
    (r, s, out) \<Rightarrow> sim_inv s \<and> parser_inv (sm_parser s)"
  by (rule simulator_run_invariant) (simp_all add: iter_malloc_law_def witness_iter_def witness_laws)

text \<open>
  Every request is answered once and to the point: the response is a well-formed frame with
  the response flag and the request's sequence number, and its type is the request's or NACK.
\<close>

theorem sim_reply_proper:
  assumes "frame_wf q" and "sim_handle env s q = (r, s')"
  shows "frame_wf r \<and> fr_flags r = DEVMGR_FRAME_RESPONSE \<and> fr_sequence r = fr_sequence q \<and>
    (fr_type r = fr_type q \<or> fr_type r = DEVMGR_MSG_NACK)"
  using sim_handle_reply [OF assms(1), of env s] assms(2) by (simp add: proper_reply_def)

theorem sim_reply_proper_witness:
  "fr_sequence (fst (sim_handle witness_env open_simulator witness_data)) = 9"
  using sim_reply_proper [of witness_data witness_env open_simulator, OF _ prod.collapse [symmetric]] witness_laws
  by (simp add: witness_data_def)

text \<open>
  A refused \<open>START_TELEMETRY\<close> still takes effect. The handler stores the requested interval
  before it checks the range: for a stream that is already running, a request with an interval
  outside 100..60000 ms is answered with NACK 3, yet the stream goes on with that interval (0 ms
  makes the next deadline the present).
\<close>

theorem sim_refused_interval_applies:
  assumes "fr_type q = DEVMGR_MSG_START_TELEMETRY" and "fr_payload_length q = 4"
    and "v = devmgr_get_le32 (fr_payload q)" and "v < 100 \<or> 60000 < v"
  shows "sim_handle env s q = (sim_nack q 3, s\<lparr>sm_telemetry_interval_ms := v\<rparr>)"
  using assms by (simp add: sim_handle_def sim_start_telemetry_def Let_def)

theorem sim_refused_interval_applies_witness:
  "snd (sim_handle witness_env (open_simulator\<lparr>sm_telemetry_enabled := True, sm_telemetry_interval_ms := 500\<rparr>)
     \<lparr>fr_type = DEVMGR_MSG_START_TELEMETRY, fr_flags = 0, fr_sequence = 1, fr_payload_length = 4,
      fr_payload = [0, 0, 0, 0]\<rparr>) =
   open_simulator\<lparr>sm_telemetry_enabled := True, sm_telemetry_interval_ms := 0\<rparr>"
  by (subst sim_refused_interval_applies [where v = 0]) (simp_all add: devmgr_get_le32_def)

subsection \<open>The simulator as a firmware device\<close>

definition sim_answer :: "sim_env \<Rightarrow> simulator_state \<Rightarrow> devmgr_frame \<Rightarrow> devmgr_frame option \<times> simulator_state" where
  "sim_answer env s q = (case sim_handle env s q of (r, s') \<Rightarrow> (Some r, s'))"

definition sim_announced :: "simulator_state \<Rightarrow> u32 \<times> u32 \<times> bytes" where
  "sim_announced s = (of_nat (sm_flash_size s), sm_expected_firmware_crc s, sm_pending_version s)"

lemma sim_answer_handle: "sim_answer env s q = (ro, s') \<Longrightarrow> \<exists>r. ro = Some r \<and> sim_handle env s q = (r, s')"
  by (auto simp: sim_answer_def split: prod.splits)

lemma same_flash_device:
  "same_flash s t \<Longrightarrow> committed t = committed s \<and> sim_announced t = sim_announced s"
  using same_flash_committed [of s t] by (simp add: same_flash_def sim_announced_def)

lemma open_session_device:
  assumes "begin_ok p"
  shows "sim_announced (open_session s b p (begin_version_length p)) = begin_payload p"
    "committed (open_session s b p (begin_version_length p)) = []"
proof -
  have "take (begin_version_length p) (drop 10 p) = cstr (drop 10 p)"
    using assms memchr0_cstr by (auto simp: begin_ok_def begin_version_length_def split: option.splits)
  then show "sim_announced (open_session s b p (begin_version_length p)) = begin_payload p"
    by (simp add: sim_announced_def begin_payload_def begin_size_def begin_crc_def)
  show "committed (open_session s b p (begin_version_length p)) = []" by (simp add: committed_def)
qed

lemma sim_begin_law:
  assumes "sim_inv s" "malloc_law e" "frame_wf q" "fr_type q = DEVMGR_MSG_FW_BEGIN" "sim_answer e s q = (ro, s')"
  shows "sim_inv s' \<and> sm_firmware_version s' = sm_firmware_version s \<and>
    (sm_firmware_upgrading s' = sm_firmware_upgrading s \<and> sim_announced s' = sim_announced s \<and> committed s' = committed s \<or>
     sm_firmware_upgrading s' \<and> sim_announced s' = begin_payload (fr_payload q) \<and> committed s' = [])"
proof -
  obtain r where h: "sim_handle e s q = (r, s')" using sim_answer_handle [OF assms(5)] by blast
  have "sim_fw_begin e s q = (r, s')" using h assms(4) by (simp add: sim_handle_def)
  then consider "s' = s" | b where "begin_ok (fr_payload q)"
      "s' = open_session s b (fr_payload q) (begin_version_length (fr_payload q))"
    unfolding fw_begin_alt by (auto simp: Let_def split: if_splits option.splits)
  then show ?thesis
    using sim_handle_inv [OF assms(1,3,2) h] open_session_device by cases auto
qed

lemma sim_data_law:
  assumes "sim_inv s" "malloc_law e" "frame_wf q" "fr_type q = DEVMGR_MSG_FW_DATA" "sim_answer e s q = (ro, s')"
  shows "sim_inv s' \<and> sm_firmware_upgrading s' = sm_firmware_upgrading s \<and> sim_announced s' = sim_announced s \<and>
    sm_firmware_version s' = sm_firmware_version s \<and>
    (committed s' = committed s \<or>
     unat (data_offset q) = length (committed s) \<and> committed s' = committed s @ data_part q)"
proof -
  obtain r where h: "sim_handle e s q = (r, s')" using sim_answer_handle [OF assms(5)] by blast
  have "sim_fw_data e s q = (r, s')" using h assms(4) by (simp add: sim_handle_data)
  with assms(1,3) show ?thesis
  proof (cases rule: fw_data_effect)
    case (appended d)
    have "length (committed s) = unat (sm_firmware_offset s)"
      using appended(1) by (auto simp: flash_ok_def committed_def)
    then show ?thesis
      using appended sim_handle_inv [OF assms(1,3,2) h] append_flash_props(3) [OF appended(1,5)]
        same_flash_device [of "append_flash s d" s']
      by (simp add: data_part_def data_offset_def sim_announced_def)
  next
    case (repeated off n)
    then show ?thesis
      using sim_handle_inv [OF assms(1,3,2) h] same_flash_device [of s s'] by simp
  qed (use assms in simp)
qed

lemma sim_simple_law:
  assumes "sim_inv s" "malloc_law e" "frame_wf q" "simple_request (fr_type q)" "sim_answer e s q = (ro, s')"
  shows "sim_inv s' \<and> (sm_firmware_upgrading s' \<longrightarrow> sm_firmware_upgrading s) \<and>
    sim_announced s' = sim_announced s \<and> committed s' = committed s \<and>
    (sm_firmware_version s' = sm_firmware_version s \<or>
     fr_type q = DEVMGR_MSG_FW_ACTIVATE \<and> sm_firmware_version s' = snd (snd (sim_announced s)))"
proof -
  obtain r where h: "sim_handle e s q = (r, s')" using sim_answer_handle [OF assms(5)] by blast
  have "same_flash s s' \<and> (sm_firmware_upgrading s' \<longrightarrow> sm_firmware_upgrading s) \<and>
    (sm_firmware_version s' = sm_firmware_version s \<or>
     fr_type q = DEVMGR_MSG_FW_ACTIVATE \<and> sm_firmware_version s' = sm_pending_version s)"
    using h assms(4) unfolding sim_handle_def Let_def simple_request_def
    by (elim disjE) (auto simp: same_flash_def sim_enter_bootloader_def sim_fw_verify_def sim_fw_activate_def
        sim_reboot_def Let_def split: if_splits)
  then show ?thesis
    using sim_handle_inv [OF assms(1,3,2) h] same_flash_device [of s s'] by (auto simp: sim_announced_def)
qed

lemma sim_end_law:
  assumes "sim_inv s" "fr_type q = DEVMGR_MSG_FW_END" "sim_answer e s q = (Some r, s')" "fr_type r = DEVMGR_MSG_FW_END"
  shows "sm_firmware_upgrading s \<and> length (committed s) = unat (fst (sim_announced s))"
proof -
  have "sim_fw_end s q = r" using assms(2,3) by (auto simp: sim_answer_def sim_handle_def)
  then have s: "sm_firmware_upgrading s" "unat (sm_firmware_offset s) = sm_flash_size s"
    using assms(4) by (auto simp: sim_fw_end_def split: if_splits)
  then have "flash_ok s" using assms(1) by (simp add: sim_inv_def)
  then show ?thesis
    using s unat_of_nat_u32 [of "sm_flash_size s"] by (auto simp: flash_ok_def committed_def sim_announced_def)
qed

lemma sim_activate_law:
  assumes "fr_type q = DEVMGR_MSG_FW_ACTIVATE" "sim_answer e s q = (Some r, s')" "fr_type r = DEVMGR_MSG_FW_ACTIVATE"
  shows "sm_firmware_version s' = snd (snd (sim_announced s))"
proof -
  have "sim_fw_activate s q = (r, s')" using assms(1,2) by (auto simp: sim_answer_def sim_handle_def split: prod.splits)
  then show ?thesis using assms(3) by (auto simp: sim_fw_activate_def sim_announced_def split: if_splits)
qed

interpretation simdev: fw_device sim_answer malloc_law sim_inv sm_firmware_upgrading "\<lambda>_. False" sim_announced
  committed sm_firmware_version
  apply unfold_locales
  subgoal for s e q r s'
    using sim_handle_reply [of q e s] by (auto simp: sim_answer_def proper_reply_def split: prod.splits)
  subgoal for s e q ro s' using sim_begin_law [of s e q ro s'] by auto
  subgoal for s e q ro s' using sim_data_law [of s e q ro s'] by simp
  subgoal for s e q ro s' using sim_simple_law [of s e q ro s'] by simp
  subgoal for s e q r s' using sim_end_law [of s q e r s'] by simp
  subgoal for s e q r s' using sim_activate_law [of q e s r s'] by simp
  done

end
