(* ===== verification/Sim_Upgrade.thy ===== *)
theory Sim_Upgrade
  imports Simulator
begin

section \<open>Upgrading the simulated device\<close>

text \<open>
  The host's upgrade machine and session (\<open>Upgrade\<close>, \<open>Session\<close>) against the simulator's request
  handlers (\<open>Simulator\<close>) over the link of \<open>Fw_Device\<close>: what a completed upgrade has done, from the
  simulator's interpretation of \<open>fw_device\<close>, and that on a perfect link every upgrade completes,
  by rounds in which host and device stay in step.
\<close>

subsection \<open>Upgrades over a perfect link\<close>

lemma fw_data_append:
  assumes "data_admitted s q" "data_offset q = sm_firmware_offset s" "frame_wf q"
  shows "sim_fw_data env s q = (sim_reply q (devmgr_put_le32 (sm_firmware_offset (append_flash s (data_part q)))),
    inject_outage env (append_flash s (data_part q)))"
proof -
  let ?n = "unat (fr_payload_length q) - 8"
  have a: "sm_firmware_upgrading s" "\<not> fr_payload_length q \<le> 8" "devmgr_get_le32 (fr_payload q) = sm_firmware_session_id s"
    "\<not> ?n > unat (sm_firmware_chunk_size s)" "\<not> unat (data_offset q) > sm_flash_size s"
    "\<not> ?n > sm_flash_size s - unat (data_offset q)"
    using assms(1) by (simp_all add: data_admitted_def data_offset_def Let_def)
  have "0 < ?n" using a(2) by (simp add: word_le_nat_alt)
  then have d: "length (data_part q) = ?n" using data_bytes_length [OF assms(3) refl] by (simp add: data_part_def)
  show ?thesis
    unfolding sim_fw_data_def Let_def data_offset_def [symmetric] data_part_def [symmetric] append_flash_def d
    using a assms(2) by simp
qed

definition in_session :: "devmgr_upgrade \<Rightarrow> simulator_state \<Rightarrow> bool" where
  "in_session u s \<longleftrightarrow> sm_firmware_upgrading s \<and> sm_firmware_session_id s = up_session_id u \<and>
     sm_firmware_offset s = up_offset u \<and> sm_flash_size s = up_image_size u \<and>
     sm_firmware_chunk_size s = up_chunk_size u \<and> sm_expected_firmware_crc s = up_image_crc u \<and>
     committed s = take (unat (up_offset u)) (up_image u)"

text \<open>Host and device in step, between two rounds.\<close>

definition in_step :: "devmgr_upgrade \<Rightarrow> simulator_state \<Rightarrow> bool" where
  "in_step u s \<longleftrightarrow> job_ok u \<and> sim_inv s \<and> \<not> sm_fail_verify s \<and>
     (case up_state u of
        DEVMGR_UPGRADE_ENTER_BOOTLOADER \<Rightarrow> \<not> sm_firmware_upgrading s
      | DEVMGR_UPGRADE_BEGIN \<Rightarrow> sm_bootloader_active s \<and> \<not> sm_firmware_upgrading s
      | DEVMGR_UPGRADE_TRANSFER \<Rightarrow> in_session u s
      | DEVMGR_UPGRADE_END \<Rightarrow> in_session u s
      | DEVMGR_UPGRADE_VERIFY \<Rightarrow> in_session u s
      | DEVMGR_UPGRADE_ACTIVATE \<Rightarrow> in_session u s \<and> sm_firmware_verified s
      | DEVMGR_UPGRADE_REBOOT \<Rightarrow> True
      | DEVMGR_UPGRADE_COMPLETE \<Rightarrow> True
      | _ \<Rightarrow> False)"

definition steady_env :: "sim_env \<Rightarrow> bool" where
  "steady_env e \<longleftrightarrow> malloc_law e \<and> (\<forall>n \<le> DEVMGR_FIRMWARE_MAX_SIZE. en_malloc e n \<noteq> None)"

text \<open>What one round of the link does to host and device, for a request the device accepts.\<close>

definition sim_round :: "sim_env \<Rightarrow> devmgr_upgrade \<Rightarrow> simulator_state \<Rightarrow> bool" where
  "sim_round e u s \<longleftrightarrow> (\<exists>f u'. devmgr_upgrade_build_request u = (Inr f, u') \<and>
     (\<forall>n. \<exists>p s'. sim_handle e s (f\<lparr>fr_sequence := n\<rparr>) = (sim_reply (f\<lparr>fr_sequence := n\<rparr>) p, s') \<and>
       (\<exists>u''. devmgr_upgrade_accept_response u' (fr_type f) (sim_reply (f\<lparr>fr_sequence := n\<rparr>) p) = (DEVMGR_OK, u'') \<and>
              in_step u'' s')))"

lemma sim_roundI:
  assumes "in_step u s" "devmgr_upgrade_build_request u = (Inr f, u')" "frame_wf f" "malloc_law e"
    and h: "\<And>n. sim_handle e s (f\<lparr>fr_sequence := n\<rparr>) = (sim_reply (f\<lparr>fr_sequence := n\<rparr>) p, s')"
    and a: "\<And>n. devmgr_upgrade_accept_response u' (fr_type f) (sim_reply (f\<lparr>fr_sequence := n\<rparr>) p) = (DEVMGR_OK, u'')"
    and v: "sm_fail_verify s' = sm_fail_verify s"
    and s: "job_ok u'' \<Longrightarrow> sim_inv s' \<Longrightarrow> \<not> sm_fail_verify s' \<Longrightarrow> in_step u'' s'"
  shows "sim_round e u s"
proof -
  have "sim_inv s'"
    using sim_handle_inv [OF _ _ assms(4) h [of 0]] assms(1,3) by (simp add: in_step_def frame_wf_def)
  moreover have "job_ok u''" using job_ok_accept [OF _ assms(2) a] assms(1) by (simp add: in_step_def)
  ultimately have "in_step u'' s'" using v s assms(1) by (simp add: in_step_def)
  then show ?thesis using h a assms(2) unfolding sim_round_def by blast
qed

lemma in_step_round_enter:
  assumes "in_step u s" "up_state u = DEVMGR_UPGRADE_ENTER_BOOTLOADER" "malloc_law e"
  shows "sim_round e u s"
proof (rule sim_roundI [OF assms(1) _ _ assms(3)])
  let ?f = "request_frame DEVMGR_MSG_ENTER_BOOTLOADER 0 []"
  show "devmgr_upgrade_build_request u = (Inr ?f, u)" using assms(2) by (simp add: devmgr_upgrade_build_request_def)
  show "frame_wf ?f" by (simp add: frame_wf_def request_frame_def)
  show "sim_handle e s (?f\<lparr>fr_sequence := n\<rparr>) =
      (sim_reply (?f\<lparr>fr_sequence := n\<rparr>) [], s\<lparr>sm_telemetry_enabled := False, sm_bootloader_active := True\<rparr>)" for n
    by (simp add: request_frame_def sim_handle_def sim_enter_bootloader_def)
  show "devmgr_upgrade_accept_response u (fr_type ?f) (sim_reply (?f\<lparr>fr_sequence := n\<rparr>) []) =
      (DEVMGR_OK, u\<lparr>up_state := DEVMGR_UPGRADE_BEGIN\<rparr>)" for n
    using assms(2) by (simp add: devmgr_upgrade_accept_response_def request_frame_def)
qed (use assms(1,2) in \<open>simp_all add: in_step_def\<close>)

lemma in_step_round_reboot:
  assumes "in_step u s" "up_state u = DEVMGR_UPGRADE_REBOOT" "malloc_law e"
  shows "sim_round e u s"
proof (rule sim_roundI [OF assms(1) _ _ assms(3)])
  let ?f = "request_frame DEVMGR_MSG_REBOOT 1 [0]"
  show "devmgr_upgrade_build_request u = (Inr ?f, u)" using assms(2) by (simp add: devmgr_upgrade_build_request_def)
  show "frame_wf ?f" by (simp add: frame_wf_def request_frame_def)
  show "sim_handle e s (?f\<lparr>fr_sequence := n\<rparr>) = (sim_reply (?f\<lparr>fr_sequence := n\<rparr>) [],
      s\<lparr>sm_bootloader_active := False, sm_firmware_upgrading := False, sm_firmware_verified := False\<rparr>)" for n
    by (simp add: request_frame_def sim_handle_def sim_reboot_def)
  show "devmgr_upgrade_accept_response u (fr_type ?f) (sim_reply (?f\<lparr>fr_sequence := n\<rparr>) []) =
      (DEVMGR_OK, u\<lparr>up_state := DEVMGR_UPGRADE_COMPLETE\<rparr>)" for n
    using assms(2) by (simp add: devmgr_upgrade_accept_response_def request_frame_def)
qed (use assms(1,2) in \<open>simp_all add: in_step_def\<close>)

lemma session_request_names [simp]:
  "names_session s (session_request t u\<lparr>fr_sequence := n\<rparr>) \<longleftrightarrow> up_session_id u = sm_firmware_session_id s"
  using get_put_le32 [of "up_session_id u" "[]"]
  by (simp add: session_request_def request_frame_def names_session_def)

lemma in_session_state [simp]:
  "in_session (u\<lparr>up_state := st\<rparr>) s = in_session u s"
  "in_session u (s\<lparr>sm_firmware_verified := b\<rparr>) = in_session u s"
  by (simp_all add: in_session_def up_image_def committed_def cong: option.case_cong)

lemma in_step_round_end:
  assumes "in_step u s" "up_state u = DEVMGR_UPGRADE_END" "malloc_law e"
  shows "sim_round e u s"
proof (rule sim_roundI [OF assms(1) _ session_request_simps(2) assms(3)])
  have i: "in_session u s" "upgrade_progress u"
    using assms(1,2) by (simp_all add: in_step_def job_ok_def upgrade_inv_def)
  show "devmgr_upgrade_build_request u = (Inr (session_request DEVMGR_MSG_FW_END u), u)"
    using assms(2) by (simp add: devmgr_upgrade_build_request_def session_request_def)
  show "sim_handle e s (session_request DEVMGR_MSG_FW_END u\<lparr>fr_sequence := n\<rparr>) =
      (sim_reply (session_request DEVMGR_MSG_FW_END u\<lparr>fr_sequence := n\<rparr>) [], s)" for n
    using i assms(2) by (simp add: sim_handle_def sim_fw_end_def in_session_def upgrade_progress_def)
  show "devmgr_upgrade_accept_response u (fr_type (session_request DEVMGR_MSG_FW_END u))
      (sim_reply (session_request DEVMGR_MSG_FW_END u\<lparr>fr_sequence := n\<rparr>) []) =
      (DEVMGR_OK, u\<lparr>up_state := DEVMGR_UPGRADE_VERIFY\<rparr>)" for n
    using assms(2) by (simp add: devmgr_upgrade_accept_response_def)
qed (use assms(1,2) in \<open>simp_all add: in_step_def\<close>)

lemma in_step_round_activate:
  assumes "in_step u s" "up_state u = DEVMGR_UPGRADE_ACTIVATE" "malloc_law e"
  shows "sim_round e u s"
proof (rule sim_roundI [OF assms(1) _ session_request_simps(2) assms(3)])
  show "devmgr_upgrade_build_request u = (Inr (session_request DEVMGR_MSG_FW_ACTIVATE u), u)"
    using assms(2) by (simp add: devmgr_upgrade_build_request_def session_request_def)
  show "sim_handle e s (session_request DEVMGR_MSG_FW_ACTIVATE u\<lparr>fr_sequence := n\<rparr>) =
      (sim_reply (session_request DEVMGR_MSG_FW_ACTIVATE u\<lparr>fr_sequence := n\<rparr>) [],
       s\<lparr>sm_firmware_version := sm_pending_version s\<rparr>)" for n
    using assms(1,2) by (simp add: sim_handle_def sim_fw_activate_def in_step_def in_session_def)
  show "devmgr_upgrade_accept_response u (fr_type (session_request DEVMGR_MSG_FW_ACTIVATE u))
      (sim_reply (session_request DEVMGR_MSG_FW_ACTIVATE u\<lparr>fr_sequence := n\<rparr>) []) =
      (DEVMGR_OK, u\<lparr>up_state := DEVMGR_UPGRADE_REBOOT\<rparr>)" for n
    using assms(2) by (simp add: devmgr_upgrade_accept_response_def)
qed (use assms(1,2) in \<open>simp_all add: in_step_def\<close>)

lemma in_session_crc:
  assumes "in_session u s" "sim_inv s" "job_ok u" "unat (up_offset u) = up_image_size u"
  shows "(case sm_flash s of None \<Rightarrow> 0 | Some f \<Rightarrow> devmgr_crc32 (Some (take (sm_flash_size s) f))) = up_image_crc u"
proof -
  have "flash_ok s" using assms(1,2) by (simp add: in_session_def sim_inv_def)
  then obtain f where f: "sm_flash s = Some f" "length f = sm_flash_size s" by (auto simp: flash_ok_def)
  have "length (up_image u) = up_image_size u"
    using assms(3) by (auto simp: job_ok_def upgrade_inv_def upgrade_meta_def up_image_def)
  then have "take (sm_flash_size s) f = up_image u"
    using assms(1,4) f by (auto simp: in_session_def committed_def)
  then show ?thesis using assms(3) f by (simp add: job_ok_def)
qed

lemma in_step_round_verify:
  assumes "in_step u s" "up_state u = DEVMGR_UPGRADE_VERIFY" "malloc_law e"
  shows "sim_round e u s"
proof (rule sim_roundI [OF assms(1) _ session_request_simps(2) assms(3)])
  have i: "in_session u s" "sim_inv s" "job_ok u" "upgrade_progress u" "\<not> sm_fail_verify s"
    using assms(1,2) by (simp_all add: in_step_def job_ok_def upgrade_inv_def)
  have crc: "(case sm_flash s of None \<Rightarrow> 0 | Some f \<Rightarrow> devmgr_crc32 (Some (take (sm_flash_size s) f))) = up_image_crc u"
    using i(4) assms(2) by (intro in_session_crc [OF i(1-3)]) (simp add: upgrade_progress_def)
  show "devmgr_upgrade_build_request u = (Inr (session_request DEVMGR_MSG_FW_VERIFY u), u)"
    using assms(2) by (simp add: devmgr_upgrade_build_request_def session_request_def)
  show "sim_handle e s (session_request DEVMGR_MSG_FW_VERIFY u\<lparr>fr_sequence := n\<rparr>) =
      (sim_reply (session_request DEVMGR_MSG_FW_VERIFY u\<lparr>fr_sequence := n\<rparr>) (devmgr_put_le32 (up_image_crc u)),
       s\<lparr>sm_firmware_verified := True\<rparr>)" for n
    using i by (simp add: sim_handle_def sim_fw_verify_def crc in_session_def)
  show "devmgr_upgrade_accept_response u (fr_type (session_request DEVMGR_MSG_FW_VERIFY u))
      (sim_reply (session_request DEVMGR_MSG_FW_VERIFY u\<lparr>fr_sequence := n\<rparr>) (devmgr_put_le32 (up_image_crc u))) =
      (DEVMGR_OK, u\<lparr>up_state := DEVMGR_UPGRADE_ACTIVATE\<rparr>)" for n
    using assms(2) get_put_le32 [of "up_image_crc u" "[]"] by (simp add: devmgr_upgrade_accept_response_def)
qed (use assms(1,2) in \<open>simp_all add: in_step_def\<close>)

lemma begin_request_fields:
  assumes "job_ok u" "devmgr_upgrade_build_request u = (Inr f, u')" "up_state u = DEVMGR_UPGRADE_BEGIN"
  shows "u' = u" "fr_type f = DEVMGR_MSG_FW_BEGIN" "\<not> fr_payload_length f < 11"
    "begin_size (fr_payload f) = of_nat (up_image_size u)" "begin_crc (fr_payload f) = up_image_crc u"
    "begin_chunk (fr_payload f) = up_chunk_size u" "begin_version_length (fr_payload f) = length (up_version u)"
    "begin_ok (fr_payload f)"
proof -
  have m: "0 < up_image_size u" "up_image_size u \<le> 16777216" "0 < unat (up_chunk_size u)" "unat (up_chunk_size u) \<le> 4088"
    "up_version u \<noteq> []" "length (up_version u) \<le> 31" "0 \<notin> set (up_version u)"
    using assms(1) by (auto simp: job_ok_def upgrade_inv_def upgrade_meta_def)
  have f: "f = request_frame DEVMGR_MSG_FW_BEGIN (of_nat (10 + (length (up_version u) + 1)))
      (devmgr_put_le32 (of_nat (up_image_size u)) @ devmgr_put_le32 (up_image_crc u) @
       devmgr_put_le16 (up_chunk_size u) @ up_version u @ [0])" and u': "u' = u"
    using assms(2,3) by (auto simp: devmgr_upgrade_build_request_def Let_def)
  show "u' = u" by (rule u')
  show "fr_type f = DEVMGR_MSG_FW_BEGIN" by (simp add: f request_frame_def)
  have "unat (of_nat (10 + (length (up_version u) + 1)) :: u16) = 11 + length (up_version u)"
    using m(6) by (subst unat_of_nat_u16) simp_all
  then show "\<not> fr_payload_length f < 11" by (simp add: f request_frame_def word_less_nat_alt)
  show p: "begin_size (fr_payload f) = of_nat (up_image_size u)" "begin_crc (fr_payload f) = up_image_crc u"
    "begin_chunk (fr_payload f) = up_chunk_size u" "begin_version_length (fr_payload f) = length (up_version u)"
    using m(7) by (simp_all add: f request_frame_def begin_size_def begin_crc_def begin_chunk_def begin_version_length_def)
  have "unat (of_nat (up_image_size u) :: u32) = up_image_size u" using m(2) by (simp add: unat_of_nat_u32)
  moreover then have "(of_nat (up_image_size u) :: u32) \<noteq> 0" using m(1) by (metis unat_0 less_irrefl)
  ultimately show "begin_ok (fr_payload f)" using m p by (auto simp: begin_ok_def unat_gt_0)
qed

lemma in_step_round_begin:
  assumes "in_step u s" "up_state u = DEVMGR_UPGRADE_BEGIN" "steady_env e"
  shows "sim_round e u s"
proof -
  have st: "sm_bootloader_active s" "\<not> sm_firmware_upgrading s" "job_ok u"
    using assms(1,2) by (simp_all add: in_step_def)
  then obtain f u' where b: "devmgr_upgrade_build_request u = (Inr f, u')"
    using assms(2) by (auto simp: devmgr_upgrade_build_request_def Let_def)
  note q = begin_request_fields [OF st(3) b assms(2)]
  have wf: "frame_wf f" using build_request_wf [OF _ b] st(3) by (simp add: job_ok_def)
  have sz: "up_image_size u \<le> 16777216" "0 < up_image_size u"
    using st(3) by (auto simp: job_ok_def upgrade_inv_def upgrade_meta_def)
  then have un: "unat (of_nat (up_image_size u) :: u32) = up_image_size u" by (simp add: unat_of_nat_u32)
  obtain m where m: "en_malloc e (unat (begin_size (fr_payload f))) = Some m"
    using assms(3) q(4) sz un by (auto simp: steady_env_def)
  let ?s' = "open_session s m (fr_payload f) (begin_version_length (fr_payload f))"
  let ?p = "devmgr_put_le32 (sm_firmware_session_id ?s') @ devmgr_put_le32 (sm_firmware_offset ?s')"
  let ?u = "u\<lparr>up_session_id := sm_firmware_session_id ?s', up_offset := 0, up_state := DEVMGR_UPGRADE_TRANSFER\<rparr>"
  show ?thesis
  proof (rule sim_roundI [OF assms(1) b wf])
    show "malloc_law e" using assms(3) by (simp add: steady_env_def)
    show "sim_handle e s (f\<lparr>fr_sequence := n\<rparr>) = (sim_reply (f\<lparr>fr_sequence := n\<rparr>) ?p, ?s')" for n
      using q(2,3,8) st(1,2) m by (simp add: sim_handle_def fw_begin_alt resumes_def Let_def)
    show "devmgr_upgrade_accept_response u' (fr_type f) (sim_reply (f\<lparr>fr_sequence := n\<rparr>) ?p) = (DEVMGR_OK, ?u)" for n
      using q(1,2) assms(2) sz(2) get_put_le32 [of "0 :: u32" "[]"]
      by (simp add: devmgr_upgrade_accept_response_def Let_def after_offset_def)
    show "in_step ?u ?s'" if "job_ok ?u" "sim_inv ?s'" "\<not> sm_fail_verify ?s'"
      using that q un open_session_device(2) [of "fr_payload f" s m]
      by (simp add: in_step_def in_session_def)
  qed simp
qed

lemma in_step_round_transfer:
  assumes "in_step u s" "up_state u = DEVMGR_UPGRADE_TRANSFER" "malloc_law e"
  shows "sim_round e u s"
proof -
  have st: "in_session u s" "job_ok u" "sim_inv s" "upgrade_inv u" using assms(1,2) by (simp_all add: in_step_def job_ok_def)
  note c = chunk_len_bounds [OF st(4) assms(2)] and b = build_transfer [OF st(4) assms(2)]
  let ?n = "chunk_len u" and ?d = "region (the (up_image_data u)) (unat (up_offset u)) (chunk_len u)"
  let ?f = "request_frame DEVMGR_MSG_FW_DATA (of_nat (8 + ?n)) (devmgr_put_le32 (up_session_id u) @ devmgr_put_le32 (up_offset u) @ ?d)"
  let ?u' = "u\<lparr>up_last_chunk_end := up_offset u + of_nat ?n, up_chunks_sent := up_chunks_sent u + 1\<rparr>"
  let ?s' = "inject_outage e (append_flash s ?d)"
  have wf: "frame_wf ?f" using build_request_wf [OF st(4) b] .
  have img: "up_image_size u \<le> length (the (up_image_data u))" using st(4) by (auto simp: upgrade_inv_def upgrade_meta_def)
  then have d: "length ?d = ?n" using c(4) by simp
  have part: "data_part (?f\<lparr>fr_sequence := n\<rparr>) = ?d" "data_offset (?f\<lparr>fr_sequence := n\<rparr>) = up_offset u" for n
    using data_request [of "devmgr_put_le32 (up_session_id u)" "devmgr_put_le32 (up_offset u)" "?f\<lparr>fr_sequence := n\<rparr>" ?d]
      wf get_put_le32 [of "up_offset u" "[]"] by (simp_all add: request_frame_def frame_wf_def)
  have fo: "flash_ok s" using st(1,3) by (simp add: in_session_def sim_inv_def)
  have room: "length ?d \<le> sm_flash_size s - unat (sm_firmware_offset s)" using st(1) c(4) d by (simp add: in_session_def)
  have adm: "data_admitted s (?f\<lparr>fr_sequence := n\<rparr>)" for n
    using st(1) c d get_put_le32 [of "up_offset u" ?d]
    by (simp add: data_admitted_def in_session_def request_frame_def word_le_nat_alt Let_def)
  let ?o = "sm_firmware_offset (append_flash s ?d)"
  have o: "?o = up_offset u + of_nat ?n" using st(1) d by (simp add: append_flash_def in_session_def)
  let ?v = "after_offset (?u'\<lparr>up_offset := ?o\<rparr>)"
  show ?thesis
  proof (rule sim_roundI [OF assms(1) b wf assms(3)])
    show "sim_handle e s (?f\<lparr>fr_sequence := n\<rparr>) = (sim_reply (?f\<lparr>fr_sequence := n\<rparr>) (devmgr_put_le32 ?o), ?s')" for n
    proof -
      have "fr_type (?f\<lparr>fr_sequence := n\<rparr>) = DEVMGR_MSG_FW_DATA" by (simp add: request_frame_def)
      moreover have "data_offset (?f\<lparr>fr_sequence := n\<rparr>) = sm_firmware_offset s"
        using st(1) unfolding part(2) by (simp add: in_session_def)
      moreover have "frame_wf (?f\<lparr>fr_sequence := n\<rparr>)" using wf by (simp add: frame_wf_def)
      ultimately show ?thesis using fw_data_append [OF adm, of n e] by (simp only: sim_handle_data part(1))
    qed
    show "devmgr_upgrade_accept_response ?u' (fr_type ?f) (sim_reply (?f\<lparr>fr_sequence := n\<rparr>) (devmgr_put_le32 ?o)) =
        (DEVMGR_OK, ?v)" for n
      using assms(2) o c(4,5) get_put_le32 [of ?o "[]"]
      by (simp add: devmgr_upgrade_accept_response_def request_frame_def Let_def)
    show "in_step ?v ?s'" if "job_ok ?v" "sim_inv ?s'" "\<not> sm_fail_verify ?s'"
    proof -
      have "unat ?o = unat (up_offset u) + ?n" using o c(5) by simp
      moreover have "?d = region (up_image u) (unat (up_offset u)) ?n"
        using c(4) by (simp add: up_image_def region_def drop_take min_def)
      ultimately have "committed (append_flash s ?d) = take (unat ?o) (up_image u)"
        using append_flash_props(3) [OF fo room] st(1) take_add_region [of "unat (up_offset u)" ?n "up_image u"]
        by (simp add: in_session_def)
      then have "in_session (?u'\<lparr>up_offset := ?o\<rparr>) (append_flash s ?d)"
        using st(1) by (simp add: in_session_def up_image_def)
      then have "in_session ?v ?s'"
        using same_flash_device [OF inject_outage_flash(1) [of "append_flash s ?d" e]]
          inject_outage_flash(1) [of "append_flash s ?d" e]
        by (simp add: after_offset_def in_session_def same_flash_def up_image_def)
      then show ?thesis using that by (simp add: in_step_def after_offset_def)
    qed
  qed (simp add: inject_outage_def append_flash_def)
qed

lemma in_step_round:
  assumes "in_step u s" "steady_env e" "up_state u \<noteq> DEVMGR_UPGRADE_COMPLETE"
  shows "sim_round e u s"
proof -
  have e: "malloc_law e" using assms(2) by (simp add: steady_env_def)
  show ?thesis
    using in_step_round_enter [OF assms(1) _ e] in_step_round_begin [OF assms(1) _ assms(2)]
      in_step_round_transfer [OF assms(1) _ e] in_step_round_end [OF assms(1) _ e]
      in_step_round_verify [OF assms(1) _ e] in_step_round_activate [OF assms(1) _ e]
      in_step_round_reboot [OF assms(1) _ e] assms(1,3)
    by (cases "up_state u") (simp_all add: in_step_def)
qed

lemma in_step_answers:
  assumes "in_step u s" "steady_env e" "up_state u \<noteq> DEVMGR_UPGRADE_COMPLETE"
  shows "\<exists>f u1. devmgr_upgrade_build_request u = (Inr f, u1) \<and> (\<forall>n. answers sim_answer e in_step f u1 s n)"
proof -
  obtain f u1 where b: "devmgr_upgrade_build_request u = (Inr f, u1)"
    and r: "\<And>n. \<exists>p s'. sim_handle e s (f\<lparr>fr_sequence := n\<rparr>) = (sim_reply (f\<lparr>fr_sequence := n\<rparr>) p, s') \<and>
     (\<exists>u''. devmgr_upgrade_accept_response u1 (fr_type f) (sim_reply (f\<lparr>fr_sequence := n\<rparr>) p) = (DEVMGR_OK, u'') \<and> in_step u'' s')"
    using in_step_round [OF assms] unfolding sim_round_def by blast
  have "answers sim_answer e in_step f u1 s n" for n
  proof -
    obtain p s' u'' where h: "sim_handle e s (f\<lparr>fr_sequence := n\<rparr>) = (sim_reply (f\<lparr>fr_sequence := n\<rparr>) p, s')"
      "devmgr_upgrade_accept_response u1 (fr_type f) (sim_reply (f\<lparr>fr_sequence := n\<rparr>) p) = (DEVMGR_OK, u'')" "in_step u'' s'"
      using r by blast
    have "sim_answer e s (f\<lparr>fr_sequence := n\<rparr>) = (Some (sim_reply (f\<lparr>fr_sequence := n\<rparr>) p), s')"
      by (simp add: sim_answer_def h(1))
    then show ?thesis using h(2,3) by (auto simp: answers_def)
  qed
  then show ?thesis using b by blast
qed

lemma in_step_inv: "in_step u s \<Longrightarrow> upgrade_inv u"
  by (simp add: in_step_def job_ok_def)

lemma steady_malloc: "steady_env e \<Longrightarrow> malloc_law e"
  by (simp add: steady_env_def)

lemma in_step_completes:
  assumes "in_step u s" "steady_env e" "\<not> pe_active (se_pending se)"
  shows "\<exists>u' se' s'. up_state u' = DEVMGR_UPGRADE_COMPLETE \<and>
     reach (link_step sim_answer malloc_law) \<lparr>lk_upgrade = u, lk_session = se, lk_out = [], lk_device = s, lk_in = []\<rparr>
       \<lparr>lk_upgrade = u', lk_session = se', lk_out = [], lk_device = s', lk_in = []\<rparr>"
  by (rule rounds_complete [of in_step sim_answer e malloc_law u s se, OF in_step_inv in_step_answers [OF _ assms(2)] steady_malloc [OF assms(2)] assms(1,3)])

subsection \<open>End to end\<close>

lemma sim_completed:
  assumes "devmgr_upgrade_start u0 (Some img) (length img) crc (Some v) chunk = (DEVMGR_OK, u)"
    and "0 \<notin> set v" and "sim_inv s" and "\<not> sm_firmware_upgrading s"
    and "reach (link_step sim_answer malloc_law) (fresh_link u s) l"
    and "up_state (lk_upgrade l) = DEVMGR_UPGRADE_COMPLETE"
  shows "committed (lk_device l) = img \<and> sm_firmware_version (lk_device l) = v"
proof -
  have "simdev.link_good (fresh_link u s)"
    by (rule simdev.link_start_good) (use assms in \<open>auto simp: devmgr_session_init_def zero_pending_def\<close>)
  then have "committed (lk_device l) = up_image (lk_upgrade l)" "sm_firmware_version (lk_device l) = up_version (lk_upgrade l)"
    using simdev.completed_installs [OF _ assms(5,6)] by simp_all
  moreover have "up_image (lk_upgrade l) = up_image u \<and> up_version (lk_upgrade l) = up_version u"
    using link_reach_meta [OF assms(5)] by simp
  ultimately show ?thesis using upgrade_start_fields [OF assms(1)] by (simp add: up_image_def)
qed

lemma sim_completes:
  assumes "devmgr_upgrade_start u0 (Some img) (length img) (devmgr_crc32 (Some img)) (Some v) chunk = (DEVMGR_OK, u)"
    and "length img \<le> DEVMGR_FIRMWARE_MAX_SIZE" and "0 \<notin> set v" and "sim_inv s" and "\<not> sm_firmware_upgrading s"
    and "\<not> sm_fail_verify s" and "steady_env e"
  shows "\<exists>l. reach (link_step sim_answer malloc_law) (fresh_link u s) l \<and> up_state (lk_upgrade l) = DEVMGR_UPGRADE_COMPLETE"
proof -
  note f = upgrade_start_fields [OF assms(1)]
  have "upgrade_inv u" using upgrade_start_inv [OF assms(1)] by simp
  then have "in_step u s" using assms f by (simp add: in_step_def job_ok_def up_image_def)
  moreover have "\<not> pe_active (se_pending devmgr_session_init)" by (simp add: devmgr_session_init_def zero_pending_def)
  ultimately obtain u' se' s' where "up_state u' = DEVMGR_UPGRADE_COMPLETE"
    "reach (link_step sim_answer malloc_law) (fresh_link u s)
       \<lparr>lk_upgrade = u', lk_session = se', lk_out = [], lk_device = s', lk_in = []\<rparr>"
    using in_step_completes [OF _ assms(7)] by blast
  then show ?thesis by force
qed

text \<open>
  Upgrades of the simulated device are correct end to end. The daemon's upgrade machine and
  session talk to the device over lines that deliver in order but may lose frames; requests are
  retransmitted, time out and recover, memory allocation and clocks behave in any way. If the host
  reaches \<open>COMPLETE\<close>, then the device's flash holds exactly the firmware image and the device
  will run the requested version, provided the upgrade was started properly on a device with no
  upgrade session left over.
\<close>

theorem sim_upgrade_installs:
  assumes "devmgr_upgrade_start u0 (Some img) (length img) crc (Some v) chunk = (DEVMGR_OK, u)"
    and "0 \<notin> set v" and "sim_inv s" and "\<not> sm_firmware_upgrading s"
    and "reach (link_step sim_answer malloc_law) (fresh_link u s) l"
    and "up_state (lk_upgrade l) = DEVMGR_UPGRADE_COMPLETE"
  shows "committed (lk_device l) = img \<and> sm_firmware_version (lk_device l) = v"
  by (rule sim_completed [OF assms])

text \<open>
  Upgrades can be completed. With a device that has memory for the image, no injected
  verification failure and a link that loses nothing, an upgrade of any image up to 16 MiB, with
  any chunk size and version the upgrade machine admits, runs to \<open>COMPLETE\<close> with the image in
  the device's flash and the new version running.
\<close>

theorem sim_upgrade_completes:
  assumes "devmgr_upgrade_start u0 (Some img) (length img) (devmgr_crc32 (Some img)) (Some v) chunk = (DEVMGR_OK, u)"
    and "length img \<le> DEVMGR_FIRMWARE_MAX_SIZE" and "0 \<notin> set v" and "sim_inv s" and "\<not> sm_firmware_upgrading s"
    and "\<not> sm_fail_verify s" and "steady_env e"
  shows "\<exists>l. reach (link_step sim_answer malloc_law) (fresh_link u s) l \<and>
    up_state (lk_upgrade l) = DEVMGR_UPGRADE_COMPLETE \<and> committed (lk_device l) = img \<and> sm_firmware_version (lk_device l) = v"
  using sim_completes [OF assms] sim_completed [OF assms(1,3,4,5)] by blast

definition witness_job :: devmgr_upgrade where
  "witness_job = snd (devmgr_upgrade_start devmgr_upgrade_init (Some [1, 2, 3]) 3 (devmgr_crc32 (Some [1, 2, 3]))
     (Some [0x32]) 2)"

lemma witness_job_start:
  "devmgr_upgrade_start devmgr_upgrade_init (Some [1, 2, 3]) (length [1, 2, 3 :: byte]) (devmgr_crc32 (Some [1, 2, 3]))
     (Some [0x32]) 2 = (DEVMGR_OK, witness_job)"
  by (simp add: witness_job_def devmgr_upgrade_start_def)

lemma witness_sim_facts:
  "sim_inv zero_simulator" "\<not> sm_firmware_upgrading zero_simulator" "\<not> sm_fail_verify zero_simulator" "steady_env witness_env"
  by (simp_all add: sim_inv_def zero_simulator_def steady_env_def malloc_law_def witness_env_def)

theorem sim_upgrade_installs_witness:
  "\<exists>l. reach (link_step sim_answer malloc_law) (fresh_link witness_job zero_simulator) l \<and>
    committed (lk_device l) = [1, 2, 3] \<and> sm_firmware_version (lk_device l) = [0x32]"
proof -
  have v: "0 \<notin> set [0x32 :: byte]" "length [1, 2, 3 :: byte] \<le> DEVMGR_FIRMWARE_MAX_SIZE" by simp_all
  obtain l where l: "reach (link_step sim_answer malloc_law) (fresh_link witness_job zero_simulator) l"
    "up_state (lk_upgrade l) = DEVMGR_UPGRADE_COMPLETE"
    using sim_completes [OF witness_job_start v(2,1) witness_sim_facts] by blast
  then show ?thesis
    using sim_upgrade_installs [OF witness_job_start v(1) witness_sim_facts(1,2) l] by blast
qed

theorem sim_upgrade_completes_witness:
  "\<exists>l. reach (link_step sim_answer malloc_law) (fresh_link witness_job zero_simulator) l \<and>
    up_state (lk_upgrade l) = DEVMGR_UPGRADE_COMPLETE \<and> committed (lk_device l) = [1, 2, 3] \<and>
    sm_firmware_version (lk_device l) = [0x32]"
  by (rule sim_upgrade_completes [OF witness_job_start _ _ witness_sim_facts]) simp_all

end
