(* ===== verification/Stm32.thy ===== *)
theory Stm32
  imports Fw_Device
begin

section \<open>STM32 reference port (firmware/stm32f103)\<close>

text \<open>
  The device side for the STM32F103: its own frame codec (\<open>common/protocol.c\<close>), the bootloader's
  update state machine (\<open>bootloader/update.c\<close>) and the application's request handler
  (\<open>application/device_app.c\<close>). A frame view is the frame with the payload bytes it points to.
  The flash driver is supplied by the board: \<open>stm32_flash_ops\<close> holds its functions, each taking and
  returning the driver's context; \<open>flash_law\<close> below states what a driver is expected to do. The C
  result codes are integers, an encoder returns its code (\<open>Inl\<close>) or the bytes written (\<open>Inr\<close>).
\<close>

subsection \<open>Frame codec (common/protocol.h, common/protocol.c)\<close>

abbreviation (input) STM32_DEVMGR_MAGIC :: u16 where "STM32_DEVMGR_MAGIC \<equiv> 0x4D44"
abbreviation (input) STM32_DEVMGR_VERSION :: u8 where "STM32_DEVMGR_VERSION \<equiv> 1"
abbreviation (input) STM32_DEVMGR_HEADER_SIZE :: nat where "STM32_DEVMGR_HEADER_SIZE \<equiv> 12"
abbreviation (input) STM32_DEVMGR_CRC_SIZE :: nat where "STM32_DEVMGR_CRC_SIZE \<equiv> 4"
abbreviation (input) STM32_DEVMGR_MAX_PAYLOAD :: nat where "STM32_DEVMGR_MAX_PAYLOAD \<equiv> 4096"

abbreviation (input) STM32_MSG_PING :: u8 where "STM32_MSG_PING \<equiv> 0x01"
abbreviation (input) STM32_MSG_GET_INFO :: u8 where "STM32_MSG_GET_INFO \<equiv> 0x02"
abbreviation (input) STM32_MSG_ENTER_BOOTLOADER :: u8 where "STM32_MSG_ENTER_BOOTLOADER \<equiv> 0x10"
abbreviation (input) STM32_MSG_FW_BEGIN :: u8 where "STM32_MSG_FW_BEGIN \<equiv> 0x11"
abbreviation (input) STM32_MSG_FW_DATA :: u8 where "STM32_MSG_FW_DATA \<equiv> 0x12"
abbreviation (input) STM32_MSG_FW_STATUS :: u8 where "STM32_MSG_FW_STATUS \<equiv> 0x13"
abbreviation (input) STM32_MSG_FW_END :: u8 where "STM32_MSG_FW_END \<equiv> 0x14"
abbreviation (input) STM32_MSG_FW_VERIFY :: u8 where "STM32_MSG_FW_VERIFY \<equiv> 0x15"
abbreviation (input) STM32_MSG_FW_ACTIVATE :: u8 where "STM32_MSG_FW_ACTIVATE \<equiv> 0x16"
abbreviation (input) STM32_MSG_REBOOT :: u8 where "STM32_MSG_REBOOT \<equiv> 0x17"
abbreviation (input) STM32_MSG_NACK :: u8 where "STM32_MSG_NACK \<equiv> 0x81"
abbreviation (input) STM32_FRAME_RESPONSE :: u8 where "STM32_FRAME_RESPONSE \<equiv> 1"

record stm32_frame_view =
  vw_type :: u8
  vw_flags :: u8
  vw_sequence :: u32
  vw_payload :: bytes
  vw_payload_length :: u16

definition stm32_put_le16 :: "u16 \<Rightarrow> bytes" where
  "stm32_put_le16 v = [ucast v, ucast (drop_bit 8 v)]"

definition stm32_put_le32 :: "u32 \<Rightarrow> bytes" where
  "stm32_put_le32 v = [ucast v, ucast (drop_bit 8 v), ucast (drop_bit 16 v), ucast (drop_bit 24 v)]"

definition stm32_get_le16 :: "bytes \<Rightarrow> u16" where
  "stm32_get_le16 p = ucast (p ! 0) OR push_bit 8 (ucast (p ! 1))"

definition stm32_get_le32 :: "bytes \<Rightarrow> u32" where
  "stm32_get_le32 p =
    ucast (p ! 0) OR push_bit 8 (ucast (p ! 1)) OR push_bit 16 (ucast (p ! 2)) OR push_bit 24 (ucast (p ! 3))"

text \<open>The two loops of \<open>stm32_crc32\<close>: over the bits of a byte and over the bytes.\<close>

fun stm32_crc_bits :: "nat \<Rightarrow> u32 \<Rightarrow> u32" where
  "stm32_crc_bits 0 crc = crc"
| "stm32_crc_bits (Suc n) crc =
    (let mask = 0 - (crc AND 1) in stm32_crc_bits n (drop_bit 1 crc XOR (0xEDB88320 AND mask)))"

fun stm32_crc_bytes :: "u32 \<Rightarrow> bytes \<Rightarrow> u32" where
  "stm32_crc_bytes crc [] = crc"
| "stm32_crc_bytes crc (b # bs) = stm32_crc_bytes (stm32_crc_bits 8 (crc XOR ucast b)) bs"

definition stm32_crc32 :: "bytes \<Rightarrow> u32" where
  "stm32_crc32 data = stm32_crc_bytes 0xFFFFFFFF data XOR 0xFFFFFFFF"

definition stm32_frame_decode :: "bytes \<Rightarrow> int + stm32_frame_view" where
  "stm32_frame_decode data =
    (if length data < STM32_DEVMGR_HEADER_SIZE + STM32_DEVMGR_CRC_SIZE then Inl (-1)
     else if stm32_get_le16 data \<noteq> STM32_DEVMGR_MAGIC \<or> data ! 2 \<noteq> STM32_DEVMGR_VERSION \<or> data ! 5 \<noteq> 0
     then Inl (-2)
     else
       let payload_length = stm32_get_le16 (drop 10 data) in
       if unat payload_length > STM32_DEVMGR_MAX_PAYLOAD \<or>
          length data \<noteq> STM32_DEVMGR_HEADER_SIZE + unat payload_length + STM32_DEVMGR_CRC_SIZE
       then Inl (-3)
       else
         let expected = stm32_get_le32 (drop (STM32_DEVMGR_HEADER_SIZE + unat payload_length) data) in
         if stm32_crc32 (take (STM32_DEVMGR_HEADER_SIZE + unat payload_length) data) \<noteq> expected then Inl (-4)
         else Inr \<lparr>vw_type = data ! 3, vw_flags = data ! 4, vw_sequence = stm32_get_le32 (drop 6 data),
                   vw_payload = region data STM32_DEVMGR_HEADER_SIZE (unat payload_length),
                   vw_payload_length = payload_length\<rparr>)"

definition stm32_frame_encode ::
  "u8 \<Rightarrow> u8 \<Rightarrow> u32 \<Rightarrow> bytes ptr \<Rightarrow> u16 \<Rightarrow> nat \<Rightarrow> int + bytes" where
  "stm32_frame_encode type flags sequence payload payload_length capacity =
    (let total = STM32_DEVMGR_HEADER_SIZE + unat payload_length + STM32_DEVMGR_CRC_SIZE in
     if payload = None \<and> payload_length \<noteq> 0 \<or> unat payload_length > STM32_DEVMGR_MAX_PAYLOAD \<or>
        capacity < total
     then Inl (-1)
     else
       let body = stm32_put_le16 STM32_DEVMGR_MAGIC @ [STM32_DEVMGR_VERSION, type, flags, 0] @
                  stm32_put_le32 sequence @ stm32_put_le16 payload_length @
                  (if payload_length \<noteq> 0 then take (unat payload_length) (the payload) else [])
       in Inr (body @ stm32_put_le32 (stm32_crc32 body)))"

text \<open>The guards on the \<open>NULL\<close> pointers among the arguments.\<close>

definition stm32_frame_decode_ptr :: "bytes ptr \<Rightarrow> bool \<Rightarrow> int + stm32_frame_view" where
  "stm32_frame_decode_ptr data frame_null =
    (case data of None \<Rightarrow> Inl (-1) | Some d \<Rightarrow> if frame_null then Inl (-1) else stm32_frame_decode d)"

definition stm32_frame_encode_ptr ::
  "u8 \<Rightarrow> u8 \<Rightarrow> u32 \<Rightarrow> bytes ptr \<Rightarrow> u16 \<Rightarrow> bool \<Rightarrow> nat \<Rightarrow> bool \<Rightarrow> int + bytes" where
  "stm32_frame_encode_ptr type flags sequence payload payload_length output_null capacity length_null =
    (if output_null \<or> length_null then Inl (-1)
     else stm32_frame_encode type flags sequence payload payload_length capacity)"

subsection \<open>Update state machine (bootloader/update.h, bootloader/update.c)\<close>

abbreviation (input) NACK_INVALID_STATE :: u16 where "NACK_INVALID_STATE \<equiv> 2"
abbreviation (input) NACK_INVALID_PAYLOAD :: u16 where "NACK_INVALID_PAYLOAD \<equiv> 3"
abbreviation (input) NACK_OFFSET :: u16 where "NACK_OFFSET \<equiv> 5"
abbreviation (input) NACK_STORAGE :: u16 where "NACK_STORAGE \<equiv> 6"
abbreviation (input) NACK_VERIFY :: u16 where "NACK_VERIFY \<equiv> 7"

datatype stm32_update_state =
    STM32_UPDATE_IDLE | STM32_UPDATE_RECEIVING | STM32_UPDATE_TRANSFERRED | STM32_UPDATE_VERIFIED

text \<open>
  The driver's functions, which may be \<open>NULL\<close>; each takes the driver's context and returns the
  context it leaves behind.
\<close>

record 'c stm32_flash_ops =
  fo_erase :: "('c \<Rightarrow> u32 \<Rightarrow> int \<times> 'c) ptr"
  fo_write :: "('c \<Rightarrow> u32 \<Rightarrow> bytes \<Rightarrow> int \<times> 'c) ptr"
  fo_read :: "('c \<Rightarrow> u32 \<Rightarrow> u16 \<Rightarrow> int \<times> bytes \<times> 'c) ptr"
  fo_crc32 :: "('c \<Rightarrow> u32 \<Rightarrow> u32 \<times> 'c) ptr"
  fo_activate :: "('c \<Rightarrow> u32 \<Rightarrow> u32 \<Rightarrow> bytes \<Rightarrow> int \<times> 'c) ptr"
  fo_reboot :: "('c \<Rightarrow> 'c) ptr"

record 'c stm32_update_context =
  uc_flash :: "'c stm32_flash_ops"
  uc_flash_context :: 'c
  uc_state :: stm32_update_state
  uc_session_id :: u32
  uc_image_size :: u32
  uc_image_crc :: u32
  uc_next_offset :: u32
  uc_chunk_size :: u16
  uc_pending_version :: bytes

text \<open>An operation on the update context: its result code or response, and the context after it.\<close>

type_synonym 'c update_result = "(int + bytes) \<times> 'c stm32_update_context"

definition respond :: "stm32_frame_view \<Rightarrow> u8 \<Rightarrow> bytes ptr \<Rightarrow> u16 \<Rightarrow> nat \<Rightarrow> int + bytes" where
  "respond request type payload payload_length capacity =
    stm32_frame_encode type STM32_FRAME_RESPONSE (vw_sequence request) payload payload_length capacity"

definition nack :: "stm32_frame_view \<Rightarrow> u16 \<Rightarrow> nat \<Rightarrow> int + bytes" where
  "nack request error capacity = respond request STM32_MSG_NACK (Some (stm32_put_le16 error)) 2 capacity"

definition stm32_update_init :: "'c stm32_flash_ops \<Rightarrow> 'c \<Rightarrow> 'c stm32_update_context option" where
  "stm32_update_init flash flash_context =
    (if fo_erase flash = None \<or> fo_write flash = None \<or> fo_read flash = None \<or> fo_crc32 flash = None \<or>
        fo_activate flash = None \<or> fo_reboot flash = None
     then None
     else Some \<lparr>uc_flash = flash, uc_flash_context = flash_context, uc_state = STM32_UPDATE_IDLE,
                uc_session_id = 1, uc_image_size = 0, uc_image_crc = 0, uc_next_offset = 0,
                uc_chunk_size = 0, uc_pending_version = []\<rparr>)"

text \<open>
  The comparison loop of \<open>duplicate_matches\<close>, 32 bytes at a time, with the number of bytes
  checked so far.
\<close>

function duplicate_loop ::
  "('c \<Rightarrow> u32 \<Rightarrow> u16 \<Rightarrow> int \<times> bytes \<times> 'c) \<Rightarrow> u32 \<Rightarrow> bytes \<Rightarrow> nat \<Rightarrow> 'c \<Rightarrow> bool \<times> 'c" where
  "duplicate_loop rd offset data checked c =
    (if checked < length data then
       let remaining = length data - checked;
           count = (if remaining < 32 then remaining else 32)
       in case rd c (offset + of_nat checked) (of_nat count) of
            (rc, scratch, c1) \<Rightarrow>
              if rc \<noteq> 0 \<or> take count scratch \<noteq> region data checked count then (False, c1)
              else duplicate_loop rd offset data (checked + count) c1
     else (True, c))"
  by pat_completeness auto
termination
  by (relation "measure (\<lambda>(rd, offset, data, checked, c). length data - checked)")
     (auto split: if_splits)

declare duplicate_loop.simps [simp del]

definition duplicate_matches ::
  "'c stm32_update_context \<Rightarrow> u32 \<Rightarrow> bytes \<Rightarrow> bool \<times> 'c stm32_update_context" where
  "duplicate_matches update offset data =
    (case duplicate_loop (the (fo_read (uc_flash update))) offset data 0 (uc_flash_context update) of
       (matches, c) \<Rightarrow> (matches, update\<lparr>uc_flash_context := c\<rparr>))"

definition handle_begin ::
  "'c stm32_update_context \<Rightarrow> stm32_frame_view \<Rightarrow> nat \<Rightarrow> 'c update_result" where
  "handle_begin update request capacity =
    (if vw_payload_length request < 11 then (nack request NACK_INVALID_PAYLOAD capacity, update)
     else
       let p = vw_payload request;
           sz = stm32_get_le32 p;
           crc = stm32_get_le32 (drop 4 p);
           chunk = stm32_get_le16 (drop 8 p);
           version_length = (case memchr0 (drop 10 p) of None \<Rightarrow> 0 | Some n \<Rightarrow> n)
       in if sz = 0 \<or> chunk = 0 \<or> version_length = 0 \<or> version_length \<ge> 32
          then (nack request NACK_INVALID_PAYLOAD capacity, update)
          else if uc_state update = STM32_UPDATE_RECEIVING \<and> sz = uc_image_size update \<and>
                  crc = uc_image_crc update \<and> cstr (drop 10 p) = uc_pending_version update
          then (respond request (vw_type request)
                  (Some (stm32_put_le32 (uc_session_id update) @ stm32_put_le32 (uc_next_offset update)))
                  8 capacity, update)
          else
            case the (fo_erase (uc_flash update)) (uc_flash_context update) sz of
              (rc, c) \<Rightarrow>
                let u1 = update\<lparr>uc_flash_context := c\<rparr> in
                if rc \<noteq> 0 then (nack request NACK_STORAGE capacity, u1)
                else
                  let sid = uc_session_id u1 + 1;
                      u2 = u1\<lparr>uc_session_id := if sid = 0 then 1 else sid, uc_image_size := sz,
                              uc_image_crc := crc, uc_chunk_size := chunk, uc_next_offset := 0,
                              uc_pending_version := take version_length (drop 10 p),
                              uc_state := STM32_UPDATE_RECEIVING\<rparr>
                  in (respond request (vw_type request)
                        (Some (stm32_put_le32 (uc_session_id u2) @ stm32_put_le32 0)) 8 capacity, u2))"

definition handle_data ::
  "'c stm32_update_context \<Rightarrow> stm32_frame_view \<Rightarrow> nat \<Rightarrow> 'c update_result" where
  "handle_data update request capacity =
    (if uc_state update \<noteq> STM32_UPDATE_RECEIVING \<or> vw_payload_length request \<le> 8 \<or>
        stm32_get_le32 (vw_payload request) \<noteq> uc_session_id update
     then (nack request NACK_INVALID_STATE capacity, update)
     else
       let offset = stm32_get_le32 (drop 4 (vw_payload request));
           data_length = vw_payload_length request - 8;
           data = region (vw_payload request) 8 (unat data_length);
           ack = (\<lambda>u. (respond request (vw_type request) (Some (stm32_put_le32 (uc_next_offset u))) 4 capacity, u))
       in if data_length > uc_chunk_size update \<or> offset > uc_image_size update \<or>
             ucast data_length > uc_image_size update - offset
          then (nack request NACK_OFFSET capacity, update)
          else if offset < uc_next_offset update then
            if offset + ucast data_length > uc_next_offset update then (nack request NACK_OFFSET capacity, update)
            else
              case duplicate_matches update offset data of
                (matches, u1) \<Rightarrow> if matches then ack u1 else (nack request NACK_OFFSET capacity, u1)
          else if offset = uc_next_offset update then
            case the (fo_write (uc_flash update)) (uc_flash_context update) offset data of
              (rc, c) \<Rightarrow>
                let u1 = update\<lparr>uc_flash_context := c\<rparr> in
                if rc \<noteq> 0 then (nack request NACK_STORAGE capacity, u1)
                else ack (u1\<lparr>uc_next_offset := uc_next_offset u1 + ucast data_length\<rparr>)
          else (nack request NACK_OFFSET capacity, update))"

text \<open>The cases of the \<open>switch\<close> that are written out in \<open>stm32_update_handle\<close>.\<close>

definition update_status ::
  "'c stm32_update_context \<Rightarrow> stm32_frame_view \<Rightarrow> nat \<Rightarrow> 'c update_result" where
  "update_status update request capacity =
    (if vw_payload_length request \<noteq> 4 \<or> stm32_get_le32 (vw_payload request) \<noteq> uc_session_id update
     then (nack request NACK_INVALID_STATE capacity, update)
     else (respond request (vw_type request)
             (Some (stm32_put_le32 (uc_session_id update) @ stm32_put_le32 (uc_next_offset update))) 8 capacity,
           update))"

definition update_end ::
  "'c stm32_update_context \<Rightarrow> stm32_frame_view \<Rightarrow> nat \<Rightarrow> 'c update_result" where
  "update_end update request capacity =
    (if uc_state update \<noteq> STM32_UPDATE_RECEIVING \<or> uc_next_offset update \<noteq> uc_image_size update
     then (nack request NACK_OFFSET capacity, update)
     else (respond request (vw_type request) None 0 capacity, update\<lparr>uc_state := STM32_UPDATE_TRANSFERRED\<rparr>))"

definition update_verify ::
  "'c stm32_update_context \<Rightarrow> stm32_frame_view \<Rightarrow> nat \<Rightarrow> 'c update_result" where
  "update_verify update request capacity =
    (if uc_state update \<noteq> STM32_UPDATE_TRANSFERRED then (nack request NACK_VERIFY capacity, update)
     else
       case the (fo_crc32 (uc_flash update)) (uc_flash_context update) (uc_image_size update) of
         (actual, c) \<Rightarrow>
           let u1 = update\<lparr>uc_flash_context := c\<rparr> in
           if actual \<noteq> uc_image_crc u1 then (nack request NACK_VERIFY capacity, u1)
           else (respond request (vw_type request) (Some (stm32_put_le32 (uc_image_crc u1))) 4 capacity,
                 u1\<lparr>uc_state := STM32_UPDATE_VERIFIED\<rparr>))"

definition update_activate ::
  "'c stm32_update_context \<Rightarrow> stm32_frame_view \<Rightarrow> nat \<Rightarrow> 'c update_result" where
  "update_activate update request capacity =
    (if uc_state update \<noteq> STM32_UPDATE_VERIFIED then (nack request NACK_INVALID_STATE capacity, update)
     else
       case the (fo_activate (uc_flash update)) (uc_flash_context update) (uc_image_size update)
              (uc_image_crc update) (uc_pending_version update) of
         (rc, c) \<Rightarrow>
           let u1 = update\<lparr>uc_flash_context := c\<rparr> in
           if rc \<noteq> 0 then (nack request NACK_INVALID_STATE capacity, u1)
           else (respond request (vw_type request) None 0 capacity, u1))"

definition update_reboot ::
  "'c stm32_update_context \<Rightarrow> stm32_frame_view \<Rightarrow> nat \<Rightarrow> 'c update_result" where
  "update_reboot update request capacity =
    (let result = respond request (vw_type request) None 0 capacity in
     case result of
       Inl e \<Rightarrow> (result, update)
     | Inr _ \<Rightarrow> (result, update\<lparr>uc_flash_context := the (fo_reboot (uc_flash update)) (uc_flash_context update)\<rparr>))"

definition stm32_update_handle ::
  "'c stm32_update_context \<Rightarrow> stm32_frame_view \<Rightarrow> nat \<Rightarrow> 'c update_result" where
  "stm32_update_handle update request capacity =
    (let t = vw_type request in
     if t = STM32_MSG_ENTER_BOOTLOADER then (respond request t None 0 capacity, update)
     else if t = STM32_MSG_FW_BEGIN then handle_begin update request capacity
     else if t = STM32_MSG_FW_DATA then handle_data update request capacity
     else if t = STM32_MSG_FW_STATUS then update_status update request capacity
     else if t = STM32_MSG_FW_END then update_end update request capacity
     else if t = STM32_MSG_FW_VERIFY then update_verify update request capacity
     else if t = STM32_MSG_FW_ACTIVATE then update_activate update request capacity
     else if t = STM32_MSG_REBOOT then update_reboot update request capacity
     else (nack request NACK_INVALID_PAYLOAD capacity, update))"

definition stm32_update_handle_ptr ::
  "'c stm32_update_context ptr \<Rightarrow> stm32_frame_view ptr \<Rightarrow> bool \<Rightarrow> nat \<Rightarrow> bool \<Rightarrow>
   (int + bytes) \<times> 'c stm32_update_context ptr" where
  "stm32_update_handle_ptr update request response_null capacity length_null =
    (if request = None \<or> response_null \<or> length_null then (Inl (-1), update)
     else call_ptr (Inl (-1)) (\<lambda>u. stm32_update_handle u (the request) capacity) update)"

definition stm32_update_init_ptr ::
  "bool \<Rightarrow> 'c stm32_flash_ops ptr \<Rightarrow> 'c \<Rightarrow> 'c stm32_update_context option" where
  "stm32_update_init_ptr update_null flash flash_context =
    (case flash of None \<Rightarrow> None | Some f \<Rightarrow> if update_null then None else stm32_update_init f flash_context)"

subsection \<open>Application requests (application/device_app.c)\<close>

definition stm32_info :: bytes where
  "stm32_info = [0x30, 0x4D, 0x49, 0x53,
     0x53, 0x54, 0x4D, 0x33, 0x32, 0x2D, 0x52, 0x45, 0x46, 0,
     0x48, 0x57, 0x2D, 0x31, 0x2E, 0x30, 0,
     0x31, 0x2E, 0x30, 0x2E, 0x30, 0,
     0x42, 0x4C, 0x2D, 0x31, 0x2E, 0x30, 0x2E, 0x30, 0,
     0x52, 0x45, 0x46, 0x30, 0x30, 0x30, 0x30, 0x30, 0x30, 0x30, 0x31, 0]"

definition stm32_application_handle :: "stm32_frame_view ptr \<Rightarrow> nat \<Rightarrow> int + bytes" where
  "stm32_application_handle request capacity =
    (case request of
       None \<Rightarrow> Inl (-1)
     | Some q \<Rightarrow>
         if vw_type q = STM32_MSG_PING then
           stm32_frame_encode (vw_type q) STM32_FRAME_RESPONSE (vw_sequence q) (Some (vw_payload q))
             (vw_payload_length q) capacity
         else if vw_type q = STM32_MSG_GET_INFO then
           stm32_frame_encode (vw_type q) STM32_FRAME_RESPONSE (vw_sequence q) (Some stm32_info)
             (of_nat (length stm32_info)) capacity
         else
           stm32_frame_encode STM32_MSG_NACK STM32_FRAME_RESPONSE (vw_sequence q) (Some (stm32_put_le16 1))
             2 capacity)"

subsection \<open>Agreement with the host's codec\<close>

lemma stm32_put_le [simp]:
  "stm32_put_le16 v = devmgr_put_le16 v" "stm32_put_le32 w = devmgr_put_le32 w"
proof -
  have m: "ucast (x AND 255) = (ucast x :: u8)" for x :: "'a::len word"
    by (rule bit_word_eqI) (auto simp: bit_simps and_255)
  show "stm32_put_le16 v = devmgr_put_le16 v" by (simp add: stm32_put_le16_def devmgr_put_le16_def m)
  show "stm32_put_le32 w = devmgr_put_le32 w" by (simp add: stm32_put_le32_def devmgr_put_le32_def m)
qed

lemma stm32_get_le [simp]:
  "stm32_get_le16 p = devmgr_get_le16 p" "stm32_get_le32 p = devmgr_get_le32 p"
  by (simp_all add: stm32_get_le16_def devmgr_get_le16_def stm32_get_le32_def devmgr_get_le32_def)

lemma stm32_crc_bits_eq: "stm32_crc_bits n crc = crc32_bits n crc"
  by (induction n arbitrary: crc) (simp_all add: crc32_bit_def Let_def)

lemma stm32_crc_bytes_eq: "stm32_crc_bytes crc bs = crc32_run crc bs"
  by (induction bs arbitrary: crc) (simp_all add: crc32_byte_def stm32_crc_bits_eq)

lemma stm32_crc32_eq [simp]: "stm32_crc32 data = devmgr_crc32 (Some data)"
  by (simp add: stm32_crc32_def stm32_crc_bytes_eq devmgr_crc32_def devmgr_crc32_update_def
      devmgr_crc32_finish_def DEVMGR_CRC32_INIT_def DEVMGR_CRC32_XOR_OUT_def)

definition frame_view :: "devmgr_frame \<Rightarrow> stm32_frame_view" where
  "frame_view f = \<lparr>vw_type = fr_type f, vw_flags = fr_flags f, vw_sequence = fr_sequence f,
     vw_payload = fr_payload f, vw_payload_length = fr_payload_length f\<rparr>"

lemma frame_view_fields [simp]:
  "vw_type (frame_view f) = fr_type f" "vw_flags (frame_view f) = fr_flags f"
  "vw_sequence (frame_view f) = fr_sequence f" "vw_payload (frame_view f) = fr_payload f"
  "vw_payload_length (frame_view f) = fr_payload_length f"
  by (simp_all add: frame_view_def)

lemma stm32_decode_host:
  "(case devmgr_frame_decode data of Inl e \<Rightarrow> \<exists>n. stm32_frame_decode data = Inl n
    | Inr f \<Rightarrow> stm32_frame_decode data = Inr (frame_view f))"
proof -
  obtain n where n: "unat (devmgr_get_le16 (drop 10 data)) = n" by blast
  show ?thesis
    unfolding devmgr_frame_decode_def stm32_frame_decode_def Let_def stm32_get_le stm32_crc32_eq n
    by (simp add: frame_view_def)
qed

definition reply_frame :: "u8 \<Rightarrow> u8 \<Rightarrow> u32 \<Rightarrow> bytes \<Rightarrow> devmgr_frame" where
  "reply_frame type flags sequence payload =
    \<lparr>fr_type = type, fr_flags = flags, fr_sequence = sequence, fr_payload_length = of_nat (length payload),
     fr_payload = payload\<rparr>"

lemma reply_frame_wf: "length p \<le> 4096 \<Longrightarrow> frame_wf (reply_frame t fl n p)"
  by (simp add: reply_frame_def frame_wf_def unat_of_nat_u16)

lemma stm32_encode_host:
  assumes "length p \<le> 4096" "length p + 16 \<le> capacity" "n = of_nat (length p)"
  shows "stm32_frame_encode t fl sq (Some p) n capacity = Inr (frame_wire (reply_frame t fl sq p))"
    and "p = [] \<Longrightarrow> stm32_frame_encode t fl sq None n capacity = Inr (frame_wire (reply_frame t fl sq p))"
proof -
  have n: "unat n = length p" using assms(1,3) by (simp add: unat_of_nat_u16)
  then have z: "n = 0 \<longleftrightarrow> p = []" by (metis length_0_conv unat_eq_zero)
  show "stm32_frame_encode t fl sq (Some p) n capacity = Inr (frame_wire (reply_frame t fl sq p))"
    using assms n z by (auto simp: stm32_frame_encode_def frame_wire_def frame_body_def reply_frame_def Let_def)
  show "stm32_frame_encode t fl sq None n capacity = Inr (frame_wire (reply_frame t fl sq p))" if "p = []"
    using assms n z that by (auto simp: stm32_frame_encode_def frame_wire_def frame_body_def reply_frame_def Let_def)
qed

subsection \<open>The bootloader as a device\<close>

text \<open>
  Requests and responses as host frames: the request is the view of a decoded frame, and the
  response is what the host's decoder makes of the bytes (\<open>None\<close> when there are none), with a
  response buffer of the largest frame.
\<close>

definition stm32_answer ::
  "'c stm32_update_context \<Rightarrow> devmgr_frame \<Rightarrow> devmgr_frame option \<times> 'c stm32_update_context" where
  "stm32_answer u q =
    (case stm32_update_handle u (frame_view q) DEVMGR_PROTOCOL_MAX_FRAME of
       (Inl e, u1) \<Rightarrow> (None, u1)
     | (Inr w, u1) \<Rightarrow> (case devmgr_frame_decode w of Inl e \<Rightarrow> (None, u1) | Inr r \<Rightarrow> (Some r, u1)))"

definition ok_reply :: "devmgr_frame \<Rightarrow> bytes \<Rightarrow> devmgr_frame" where
  "ok_reply q p = reply_frame (fr_type q) DEVMGR_FRAME_RESPONSE (fr_sequence q) p"

definition nack_reply :: "devmgr_frame \<Rightarrow> u16 \<Rightarrow> devmgr_frame" where
  "nack_reply q c = reply_frame DEVMGR_MSG_NACK DEVMGR_FRAME_RESPONSE (fr_sequence q) (devmgr_put_le16 c)"

lemma reply_fields [simp]:
  "fr_type (ok_reply q p) = fr_type q" "fr_type (nack_reply q c) = DEVMGR_MSG_NACK"
  "fr_payload (ok_reply q p) = p" "fr_flags (ok_reply q p) = DEVMGR_FRAME_RESPONSE"
  "fr_flags (nack_reply q c) = DEVMGR_FRAME_RESPONSE" "fr_sequence (ok_reply q p) = fr_sequence q"
  "fr_sequence (nack_reply q c) = fr_sequence q" "fr_payload_length (ok_reply q p) = of_nat (length p)"
  by (simp_all add: ok_reply_def nack_reply_def reply_frame_def)

lemma reply_wf [simp]: "length p \<le> 4096 \<Longrightarrow> frame_wf (ok_reply q p)" "frame_wf (nack_reply q c)"
  by (simp_all add: ok_reply_def nack_reply_def reply_frame_wf)

lemma respond_wire [simp]:
  "length p \<le> 8 \<Longrightarrow> n = of_nat (length p) \<Longrightarrow>
   respond (frame_view q) (fr_type q) (Some p) n 4112 = Inr (frame_wire (ok_reply q p))"
  "respond (frame_view q) (fr_type q) None 0 4112 = Inr (frame_wire (ok_reply q []))"
  "nack (frame_view q) c 4112 = Inr (frame_wire (nack_reply q c))"
  by (simp_all add: respond_def nack_def ok_reply_def nack_reply_def stm32_encode_host)

lemma stm32_answer_eq:
  "frame_wf r \<Longrightarrow> stm32_update_handle u (frame_view q) 4112 = (Inr (frame_wire r), u1) \<Longrightarrow>
   stm32_answer u q = (Some r, u1)"
  by (simp add: stm32_answer_def frame_decode_wire)

subsection \<open>What a flash driver does\<close>

text \<open>
  The behaviour expected of a driver, on an abstract view of its context: \<open>fl c\<close> are the bytes of
  the image area and \<open>inst c\<close> is the version that boots next. Reading and checksumming return the
  stored bytes and change nothing; a successful write stores its bytes, and no write touches bytes
  outside its range; a successful activation makes the given version the one that boots; erasing
  and rebooting keep the version. Nothing is said about the contents after an erase.
\<close>

definition read_law :: "('c \<Rightarrow> u32 \<Rightarrow> u16 \<Rightarrow> int \<times> bytes \<times> 'c) \<Rightarrow> ('c \<Rightarrow> nat \<Rightarrow> byte) \<Rightarrow> ('c \<Rightarrow> bytes) \<Rightarrow> bool" where
  "read_law rd fl inst \<longleftrightarrow> (\<forall>c off n rc d c'. rd c off n = (rc, d, c') \<longrightarrow> fl c' = fl c \<and> inst c' = inst c \<and>
     (rc = 0 \<longrightarrow> d = map (\<lambda>i. fl c (unat off + i)) [0..<unat n]))"

definition write_law :: "('c \<Rightarrow> u32 \<Rightarrow> bytes \<Rightarrow> int \<times> 'c) \<Rightarrow> ('c \<Rightarrow> nat \<Rightarrow> byte) \<Rightarrow> ('c \<Rightarrow> bytes) \<Rightarrow> bool" where
  "write_law wr fl inst \<longleftrightarrow> (\<forall>c off d rc c'. wr c off d = (rc, c') \<longrightarrow> inst c' = inst c \<and>
     (\<forall>i. i < unat off \<or> unat off + length d \<le> i \<longrightarrow> fl c' i = fl c i) \<and>
     (rc = 0 \<longrightarrow> (\<forall>i < length d. fl c' (unat off + i) = d ! i)))"

definition crc_law :: "('c \<Rightarrow> u32 \<Rightarrow> u32 \<times> 'c) \<Rightarrow> ('c \<Rightarrow> nat \<Rightarrow> byte) \<Rightarrow> ('c \<Rightarrow> bytes) \<Rightarrow> bool" where
  "crc_law f fl inst \<longleftrightarrow> (\<forall>c n v c'. f c n = (v, c') \<longrightarrow> fl c' = fl c \<and> inst c' = inst c \<and>
     v = devmgr_crc32 (Some (map (fl c) [0..<unat n])))"

definition activate_law ::
  "('c \<Rightarrow> u32 \<Rightarrow> u32 \<Rightarrow> bytes \<Rightarrow> int \<times> 'c) \<Rightarrow> ('c \<Rightarrow> nat \<Rightarrow> byte) \<Rightarrow> ('c \<Rightarrow> bytes) \<Rightarrow> bool" where
  "activate_law f fl inst \<longleftrightarrow> (\<forall>c n crc v rc c'. f c n crc v = (rc, c') \<longrightarrow> fl c' = fl c \<and>
     inst c' = (if rc = 0 then v else inst c))"

definition flash_law :: "'c stm32_flash_ops \<Rightarrow> ('c \<Rightarrow> nat \<Rightarrow> byte) \<Rightarrow> ('c \<Rightarrow> bytes) \<Rightarrow> bool" where
  "flash_law ops fl inst \<longleftrightarrow>
     (\<exists>er wr rd cr ac re. ops = \<lparr>fo_erase = Some er, fo_write = Some wr, fo_read = Some rd, fo_crc32 = Some cr,
        fo_activate = Some ac, fo_reboot = Some re\<rparr> \<and>
      (\<forall>c n. inst (snd (er c n)) = inst c) \<and> write_law wr fl inst \<and> read_law rd fl inst \<and> crc_law cr fl inst \<and>
      activate_law ac fl inst \<and> (\<forall>c. fl (re c) = fl c \<and> inst (re c) = inst c))"

lemma flash_lawD:
  assumes "flash_law ops fl inst"
  shows "write_law (the (fo_write ops)) fl inst" "read_law (the (fo_read ops)) fl inst"
    "crc_law (the (fo_crc32 ops)) fl inst" "activate_law (the (fo_activate ops)) fl inst"
    "inst (snd (the (fo_erase ops) c n)) = inst c"
    "fl (the (fo_reboot ops) c) = fl c" "inst (the (fo_reboot ops) c) = inst c"
  using assms unfolding flash_law_def by auto

text \<open>The comparison loop is right: a match means equal bytes, and it changes no byte.\<close>

definition agrees :: "(nat \<Rightarrow> byte) \<Rightarrow> nat \<Rightarrow> bytes \<Rightarrow> bool" where
  "agrees f off data \<longleftrightarrow> (\<forall>i < length data. f (off + i) = data ! i)"

lemma region_agrees:
  assumes "k + n \<le> length data" "map (\<lambda>i. f (off + k + i)) [0..<n] = region data k n"
    "k \<le> i" "i < k + n"
  shows "f (off + i) = data ! i"
proof -
  have "i - k < n" "off + k + (i - k) = off + i" using assms(3,4) by simp_all
  then have "map (\<lambda>i. f (off + k + i)) [0..<n] ! (i - k) = f (off + i)" by simp
  moreover have "region data k n ! (i - k) = data ! i" using assms(1,3,4) by (simp add: region_def)
  ultimately show ?thesis using assms(2) by simp
qed

lemma duplicate_loop_sound:
  "read_law rd fl inst \<Longrightarrow> unat off + length data < 2 ^ 32 \<Longrightarrow> duplicate_loop rd off data k c = (m, c') \<Longrightarrow>
   fl c' = fl c \<and> inst c' = inst c \<and> (m \<longrightarrow> (\<forall>i. k \<le> i \<longrightarrow> i < length data \<longrightarrow> fl c (unat off + i) = data ! i))"
proof (induction rd off data k c rule: duplicate_loop.induct)
  case (1 rd off data k c)
  show ?case
  proof (cases "k < length data")
    case False
    then show ?thesis using "1.prems"(3) by (simp add: duplicate_loop.simps [of rd off data k c])
  next
    case True
    let ?n = "if length data - k < 32 then length data - k else 32"
    obtain rc d c1 where rd: "rd c (off + of_nat k) (of_nat ?n) = (rc, d, c1)" by (metis prod_cases3)
    have keep: "fl c1 = fl c" "inst c1 = inst c"
      and d: "rc = 0 \<longrightarrow> d = map (\<lambda>i. fl c (unat (off + of_nat k) + i)) [0..<unat (of_nat ?n :: u16)]"
      using "1.prems"(1) rd unfolding read_law_def by blast+
    have "unat (off + of_nat k) = unat off + k"
      using "1.prems"(2) True by (simp add: unat_word_ariths unat_of_nat)
    moreover have "unat (of_nat ?n :: u16) = ?n" by (simp add: unat_of_nat_u16)
    ultimately have dn: "rc = 0 \<longrightarrow> d = map (\<lambda>i. fl c (unat off + k + i)) [0..<?n]" using d by simp
    show ?thesis
    proof (cases "rc \<noteq> 0 \<or> take ?n d \<noteq> region data k ?n")
      case True
      then show ?thesis
        using "1.prems"(3) \<open>k < length data\<close> rd keep
        by (simp add: duplicate_loop.simps [of rd off data k c] Let_def split: if_splits)
    next
      case False
      have next_c: "duplicate_loop rd off data (k + ?n) c1 = (m, c')"
        using "1.prems"(3) \<open>k < length data\<close> rd False
        by (simp add: duplicate_loop.simps [of rd off data k c] Let_def split: if_splits)
      have IH: "fl c' = fl c1 \<and> inst c' = inst c1 \<and>
          (m \<longrightarrow> (\<forall>i. k + ?n \<le> i \<longrightarrow> i < length data \<longrightarrow> fl c1 (unat off + i) = data ! i))"
        using "1.IH" [OF \<open>k < length data\<close> refl refl rd [symmetric] refl _ "1.prems"(1,2) next_c] False by blast
      have "map (\<lambda>i. fl c (unat off + k + i)) [0..<?n] = region data k ?n" using False dn by simp
      then have "k \<le> i \<Longrightarrow> i < k + ?n \<Longrightarrow> fl c (unat off + i) = data ! i" for i
        by (intro region_agrees [of k ?n]) (use \<open>k < length data\<close> in auto)
      then show ?thesis using IH keep by (metis not_le)
    qed
  qed
qed

lemma duplicate_matches_sound:
  assumes "flash_law (uc_flash u) fl inst" "unat off + length data < 2 ^ 32" "duplicate_matches u off data = (m, u')"
  obtains c where "u' = u\<lparr>uc_flash_context := c\<rparr>" "fl c = fl (uc_flash_context u)" "inst c = inst (uc_flash_context u)"
    "m \<Longrightarrow> agrees (fl (uc_flash_context u)) (unat off) data"
proof -
  obtain c where l: "duplicate_loop (the (fo_read (uc_flash u))) off data 0 (uc_flash_context u) = (m, c)"
    and u': "u' = u\<lparr>uc_flash_context := c\<rparr>"
    using assms(3) by (auto simp: duplicate_matches_def split: prod.splits)
  show ?thesis
    using that [OF u'] duplicate_loop_sound [OF flash_lawD(2) [OF assms(1)] assms(2) l] by (simp add: agrees_def)
qed

subsection \<open>Effects of the requests\<close>

definition stm32_announced :: "'c stm32_update_context \<Rightarrow> u32 \<times> u32 \<times> bytes" where
  "stm32_announced u = (uc_image_size u, uc_image_crc u, uc_pending_version u)"

definition begin_admitted :: "devmgr_frame \<Rightarrow> bool" where
  "begin_admitted q \<longleftrightarrow> \<not> fr_payload_length q < 11 \<and> devmgr_get_le32 (fr_payload q) \<noteq> 0 \<and>
     devmgr_get_le16 (drop 8 (fr_payload q)) \<noteq> 0 \<and>
     (\<exists>n. memchr0 (drop 10 (fr_payload q)) = Some n \<and> 0 < n \<and> n < 32)"

definition open_update :: "'c stm32_update_context \<Rightarrow> 'c \<Rightarrow> bytes \<Rightarrow> 'c stm32_update_context" where
  "open_update u c p = u\<lparr>uc_flash_context := c,
     uc_session_id := if uc_session_id u + 1 = 0 then 1 else uc_session_id u + 1,
     uc_image_size := devmgr_get_le32 p, uc_image_crc := devmgr_get_le32 (drop 4 p),
     uc_chunk_size := devmgr_get_le16 (drop 8 p), uc_next_offset := 0,
     uc_pending_version := cstr (drop 10 p), uc_state := STM32_UPDATE_RECEIVING\<rparr>"

lemma version_length_cstr:
  "memchr0 bs = Some n \<Longrightarrow> take n bs = cstr bs"
  using memchr0_cstr by metis

lemma handle_begin_alt:
  "handle_begin u (frame_view q) 4112 =
    (if \<not> begin_admitted q then (Inr (frame_wire (nack_reply q NACK_INVALID_PAYLOAD)), u)
     else if uc_state u = STM32_UPDATE_RECEIVING \<and> stm32_announced u = begin_payload (fr_payload q)
     then (Inr (frame_wire (ok_reply q (devmgr_put_le32 (uc_session_id u) @ devmgr_put_le32 (uc_next_offset u)))), u)
     else case the (fo_erase (uc_flash u)) (uc_flash_context u) (devmgr_get_le32 (fr_payload q)) of
            (rc, c) \<Rightarrow>
              if rc \<noteq> 0 then (Inr (frame_wire (nack_reply q NACK_STORAGE)), u\<lparr>uc_flash_context := c\<rparr>)
              else (Inr (frame_wire (ok_reply q (devmgr_put_le32 (uc_session_id (open_update u c (fr_payload q))) @
                      devmgr_put_le32 0))), open_update u c (fr_payload q)))"
proof -
  have len: "length (devmgr_put_le32 a @ devmgr_put_le32 b) \<le> 8"
    "(8 :: u16) = of_nat (length (devmgr_put_le32 a @ devmgr_put_le32 b))" for a b by simp_all
  have adm: "begin_admitted q \<longleftrightarrow> \<not> fr_payload_length q < 11 \<and> \<not> (devmgr_get_le32 (fr_payload q) = 0 \<or>
      devmgr_get_le16 (drop 8 (fr_payload q)) = 0 \<or>
      (case memchr0 (drop 10 (fr_payload q)) of None \<Rightarrow> 0 | Some n \<Rightarrow> n) = 0 \<or>
      32 \<le> (case memchr0 (drop 10 (fr_payload q)) of None \<Rightarrow> 0 | Some n \<Rightarrow> n))"
    unfolding begin_admitted_def by (cases "memchr0 (drop 10 (fr_payload q))") (simp_all add: not_le)
  have ver: "take (case memchr0 (drop 10 (fr_payload q)) of None \<Rightarrow> 0 | Some n \<Rightarrow> n) (drop 10 (fr_payload q)) =
      cstr (drop 10 (fr_payload q))" if "begin_admitted q"
    using that version_length_cstr unfolding begin_admitted_def by (auto simp del: take_eq_Nil)
  show ?thesis
  proof (cases "begin_admitted q")
    case False
    then show ?thesis unfolding handle_begin_def Let_def by (auto simp: adm)
  next
    case True
    then have c: "\<not> fr_payload_length q < 11" "\<not> (devmgr_get_le32 (fr_payload q) = 0 \<or>
      devmgr_get_le16 (drop 8 (fr_payload q)) = 0 \<or>
      (case memchr0 (drop 10 (fr_payload q)) of None \<Rightarrow> 0 | Some n \<Rightarrow> n) = 0 \<or>
      32 \<le> (case memchr0 (drop 10 (fr_payload q)) of None \<Rightarrow> 0 | Some n \<Rightarrow> n))" using adm by simp_all
    have same: "(uc_state u = STM32_UPDATE_RECEIVING \<and> devmgr_get_le32 (fr_payload q) = uc_image_size u \<and>
        devmgr_get_le32 (drop 4 (fr_payload q)) = uc_image_crc u \<and>
        cstr (drop 10 (fr_payload q)) = uc_pending_version u) \<longleftrightarrow>
        uc_state u = STM32_UPDATE_RECEIVING \<and> stm32_announced u = begin_payload (fr_payload q)"
      by (auto simp: stm32_announced_def begin_payload_def)
    show ?thesis
      unfolding handle_begin_def Let_def frame_view_fields stm32_get_le stm32_put_le ver [OF True] same
        if_not_P [OF c(1)] if_not_P [OF c(2)] respond_wire(1) [OF len] respond_wire(3)
      using True by (simp add: open_update_def split: prod.split)
  qed
qed

lemma unat_ucast_u16 [simp]: "unat (ucast (x :: u16) :: u32) = unat x"
proof -
  have "unat x mod 2 ^ 32 = unat x" using unat_u16_less [of x] by simp
  then show ?thesis by (simp add: unsigned_ucast_eq take_bit_eq_mod)
qed

lemma data_part_length:
  "frame_wf q \<Longrightarrow> \<not> fr_payload_length q \<le> 8 \<Longrightarrow>
   length (data_part q) = unat (fr_payload_length q - 8) \<and> unat (fr_payload_length q - 8) = unat (fr_payload_length q) - 8 \<and>
   data_part q \<noteq> [] \<and> length (data_part q) < 65536"
  unfolding data_part_def frame_wf_def
  by (auto simp: word_le_nat_alt unat_sub_if' region_def)

text \<open>The checks an accepted \<open>FW_DATA\<close> has passed.\<close>

definition data_fits :: "'c stm32_update_context \<Rightarrow> devmgr_frame \<Rightarrow> bool" where
  "data_fits u q \<longleftrightarrow> uc_state u = STM32_UPDATE_RECEIVING \<and> \<not> fr_payload_length q \<le> 8 \<and>
     devmgr_get_le32 (fr_payload q) = uc_session_id u \<and> fr_payload_length q - 8 \<le> uc_chunk_size u \<and>
     data_offset q \<le> uc_image_size u \<and> ucast (fr_payload_length q - 8) \<le> uc_image_size u - data_offset q"

lemma handle_data_alt:
  assumes "frame_wf q"
  shows "handle_data u (frame_view q) 4112 =
    (if \<not> (uc_state u = STM32_UPDATE_RECEIVING \<and> \<not> fr_payload_length q \<le> 8 \<and>
            devmgr_get_le32 (fr_payload q) = uc_session_id u)
     then (Inr (frame_wire (nack_reply q NACK_INVALID_STATE)), u)
     else if \<not> data_fits u q then (Inr (frame_wire (nack_reply q NACK_OFFSET)), u)
     else if data_offset q < uc_next_offset u then
       if data_offset q + ucast (fr_payload_length q - 8) > uc_next_offset u
       then (Inr (frame_wire (nack_reply q NACK_OFFSET)), u)
       else (case duplicate_matches u (data_offset q) (data_part q) of
               (m, u1) \<Rightarrow> if m then (Inr (frame_wire (ok_reply q (devmgr_put_le32 (uc_next_offset u1)))), u1)
                         else (Inr (frame_wire (nack_reply q NACK_OFFSET)), u1))
     else if data_offset q = uc_next_offset u then
       (case the (fo_write (uc_flash u)) (uc_flash_context u) (data_offset q) (data_part q) of
          (rc, c) \<Rightarrow>
            if rc \<noteq> 0 then (Inr (frame_wire (nack_reply q NACK_STORAGE)), u\<lparr>uc_flash_context := c\<rparr>)
            else let u2 = u\<lparr>uc_flash_context := c, uc_next_offset := uc_next_offset u + ucast (fr_payload_length q - 8)\<rparr>
                 in (Inr (frame_wire (ok_reply q (devmgr_put_le32 (uc_next_offset u2)))), u2))
     else (Inr (frame_wire (nack_reply q NACK_OFFSET)), u))"
proof -
  have len: "length (devmgr_put_le32 a) \<le> 8" "(4 :: u16) = of_nat (length (devmgr_put_le32 a))" for a by simp_all
  let ?head = "uc_state u = STM32_UPDATE_RECEIVING \<and> \<not> fr_payload_length q \<le> 8 \<and>
      devmgr_get_le32 (fr_payload q) = uc_session_id u"
  show ?thesis
  proof (cases ?head)
    case False
    then have "uc_state u \<noteq> STM32_UPDATE_RECEIVING \<or> fr_payload_length q \<le> 8 \<or>
        devmgr_get_le32 (fr_payload q) \<noteq> uc_session_id u" by blast
    then show ?thesis unfolding handle_data_def frame_view_fields stm32_get_le respond_wire(3)
      using False by (simp only: if_True not_False_eq_True)
  next
    case True
    then have n: "unat (fr_payload_length q - 8) = unat (fr_payload_length q) - 8"
      using data_part_length [OF assms] by blast
    have d: "region (fr_payload q) 8 (unat (fr_payload_length q - 8)) = data_part q"
      unfolding data_part_def n by (rule refl)
    have fits: "(fr_payload_length q - 8 > uc_chunk_size u \<or> data_offset q > uc_image_size u \<or>
        ucast (fr_payload_length q - 8) > uc_image_size u - data_offset q) \<longleftrightarrow> \<not> data_fits u q"
      using True by (auto simp: data_fits_def not_le)
    show ?thesis
      unfolding handle_data_def Let_def frame_view_fields stm32_get_le stm32_put_le d respond_wire(1) [OF len]
        respond_wire(3) data_offset_def [symmetric] fits
      using True by (simp split: prod.split)
  qed
qed

text \<open>The bytes received in the current session, as they stand in flash.\<close>

definition stored :: "('c \<Rightarrow> nat \<Rightarrow> byte) \<Rightarrow> 'c stm32_update_context \<Rightarrow> bytes" where
  "stored fl u = map (fl (uc_flash_context u)) [0..<unat (uc_next_offset u)]"

definition stm32_inv :: "'c stm32_update_context \<Rightarrow> bool" where
  "stm32_inv u \<longleftrightarrow> uc_session_id u \<noteq> 0 \<and>
     (uc_state u \<noteq> STM32_UPDATE_IDLE \<longrightarrow> uc_next_offset u \<le> uc_image_size u \<and> uc_image_size u \<noteq> 0) \<and>
     (uc_state u = STM32_UPDATE_TRANSFERRED \<or> uc_state u = STM32_UPDATE_VERIFIED \<longrightarrow>
        uc_next_offset u = uc_image_size u)"

lemma stored_same:
  "(\<And>i. i < unat (uc_next_offset u) \<Longrightarrow> fl c i = fl (uc_flash_context u) i) \<Longrightarrow>
   stored fl (u\<lparr>uc_flash_context := c\<rparr>) = stored fl u"
  by (simp add: stored_def)

lemma stored_append:
  assumes "\<And>i. i < unat (uc_next_offset u) \<Longrightarrow> fl c i = fl (uc_flash_context u) i"
    "agrees (fl c) (unat (uc_next_offset u)) d" "unat v = unat (uc_next_offset u) + length d"
  shows "stored fl (u\<lparr>uc_flash_context := c, uc_next_offset := v\<rparr>) = stored fl u @ d"
proof -
  let ?n = "unat (uc_next_offset u)"
  have "map (fl c) [?n..<?n + length d] = d"
    using assms(2) by (intro nth_equalityI) (simp_all add: agrees_def)
  moreover have "map (fl c) [0..<?n] = map (fl (uc_flash_context u)) [0..<?n]" using assms(1) by simp
  ultimately show ?thesis by (simp add: stored_def assms(3) upt_add_eq_append [of 0 ?n])
qed

lemma data_fits_bounds:
  assumes "frame_wf q" "data_fits u q"
  shows "unat (data_offset q) + length (data_part q) \<le> unat (uc_image_size u)"
    "unat (data_offset q + ucast (fr_payload_length q - 8)) = unat (data_offset q) + length (data_part q)"
    "data_part q \<noteq> []"
proof -
  have l: "length (data_part q) = unat (fr_payload_length q - 8)" "data_part q \<noteq> []"
    using data_part_length [OF assms(1)] assms(2) by (auto simp: data_fits_def)
  have o: "data_offset q \<le> uc_image_size u" "(ucast (fr_payload_length q - 8) :: u32) \<le> uc_image_size u - data_offset q"
    using assms(2) by (auto simp: data_fits_def)
  have "unat (uc_image_size u - data_offset q) = unat (uc_image_size u) - unat (data_offset q)"
    using o(1) by (simp add: unat_sub)
  then show le: "unat (data_offset q) + length (data_part q) \<le> unat (uc_image_size u)"
    using o l by (simp add: word_le_nat_alt)
  then have "unat (data_offset q) + unat (fr_payload_length q - 8) < 4294967296"
    using unat_u32_less [of "uc_image_size u"] l by simp
  then show "unat (data_offset q + ucast (fr_payload_length q - 8)) = unat (data_offset q) + length (data_part q)"
    using l by (simp add: unat_word_ariths)
  show "data_part q \<noteq> []" by (rule l(2))
qed

lemma handle_data_effect:
  assumes law: "flash_law (uc_flash u) fl inst" and wf: "frame_wf q"
    and h: "handle_data u (frame_view q) 4112 = (res, u')"
  obtains (refused) k c where "res = Inr (frame_wire (nack_reply q k))" "u' = u\<lparr>uc_flash_context := c\<rparr>"
      "inst c = inst (uc_flash_context u)" "stored fl u' = stored fl u"
  | (repeated) c where "data_fits u q" "res = Inr (frame_wire (ok_reply q (devmgr_put_le32 (uc_next_offset u))))"
      "u' = u\<lparr>uc_flash_context := c\<rparr>" "inst c = inst (uc_flash_context u)" "fl c = fl (uc_flash_context u)"
      "unat (data_offset q) + length (data_part q) \<le> unat (uc_next_offset u)"
      "agrees (fl c) (unat (data_offset q)) (data_part q)"
  | (appended) c v where "data_fits u q" "data_offset q = uc_next_offset u"
      "u' = u\<lparr>uc_flash_context := c, uc_next_offset := v\<rparr>" "res = Inr (frame_wire (ok_reply q (devmgr_put_le32 v)))"
      "inst c = inst (uc_flash_context u)" "unat v = unat (uc_next_offset u) + length (data_part q)"
      "unat v \<le> unat (uc_image_size u)" "stored fl u' = stored fl u @ data_part q"
proof -
  have upd: "u\<lparr>uc_flash_context := uc_flash_context u\<rparr> = u" by simp
  have refuse: thesis if "(res, u') = (Inr (frame_wire (nack_reply q k)), u)" for k
    using refused [of k "uc_flash_context u"] that upd by simp
  note b = data_fits_bounds [OF wf]
  show thesis
  proof (cases "data_fits u q")
    case False
    then show thesis using h refuse unfolding handle_data_alt [OF wf] by (auto split: if_splits)
  next
    case fits: True
    then have head: "\<not> \<not> (uc_state u = STM32_UPDATE_RECEIVING \<and> \<not> fr_payload_length q \<le> 8 \<and>
        devmgr_get_le32 (fr_payload q) = uc_session_id u)" and nn: "\<not> \<not> data_fits u q" by (simp_all add: data_fits_def)
    note eq = h [unfolded handle_data_alt [OF wf] if_not_P [OF head] if_not_P [OF nn]]
    consider "data_offset q < uc_next_offset u" "data_offset q + ucast (fr_payload_length q - 8) > uc_next_offset u"
      | "data_offset q < uc_next_offset u" "\<not> data_offset q + ucast (fr_payload_length q - 8) > uc_next_offset u"
      | "data_offset q = uc_next_offset u" | "uc_next_offset u < data_offset q"
      by (meson linorder_less_linear)
    then show thesis
    proof cases
      case 1
      then show thesis using eq refuse by auto
    next
      case 2
      have lt: "unat (data_offset q) + length (data_part q) < 2 ^ 32"
        using b(1) [OF fits] unat_u32_less [of "uc_image_size u"] by simp
      obtain m u1 where dm: "duplicate_matches u (data_offset q) (data_part q) = (m, u1)" by (rule prod.exhaust)
      obtain c where c: "u1 = u\<lparr>uc_flash_context := c\<rparr>" "fl c = fl (uc_flash_context u)"
        "inst c = inst (uc_flash_context u)" "m \<Longrightarrow> agrees (fl (uc_flash_context u)) (unat (data_offset q)) (data_part q)"
        using duplicate_matches_sound [OF law lt dm] by blast
      have le: "unat (data_offset q) + length (data_part q) \<le> unat (uc_next_offset u)"
        using 2(2) b(2) [OF fits] by (simp add: not_less word_le_nat_alt)
      show thesis
      proof (cases m)
        case True
        then show thesis using repeated [of c] fits eq 2 dm c le by simp
      next
        case False
        then show thesis using refused [of NACK_OFFSET c] eq 2 dm c stored_same [of u fl c] by simp
      qed
    next
      case 3
      obtain rc c where w: "the (fo_write (uc_flash u)) (uc_flash_context u) (data_offset q) (data_part q) = (rc, c)"
        by (rule prod.exhaust)
      have wl: "inst c = inst (uc_flash_context u)" "\<And>i. i < unat (data_offset q) \<Longrightarrow> fl c i = fl (uc_flash_context u) i"
        "rc = 0 \<Longrightarrow> agrees (fl c) (unat (data_offset q)) (data_part q)"
        using flash_lawD(1) [OF law] w unfolding write_law_def agrees_def by blast+
      show thesis
      proof (cases "rc = 0")
        case True
        let ?v = "uc_next_offset u + ucast (fr_payload_length q - 8)"
        have v: "unat ?v = unat (uc_next_offset u) + length (data_part q)" using b(2) [OF fits] 3 by simp
        show thesis
          using appended [of ?v c] fits 3 eq w True wl(1) v b(1) [OF fits] stored_append [of u fl c "data_part q" ?v]
            wl(2,3) by simp
      next
        case False
        then show thesis
          using refused [of NACK_STORAGE c] eq 3 w wl stored_same [of u fl c] by simp
      qed
    next
      case 4
      then have "\<not> data_offset q < uc_next_offset u" "data_offset q \<noteq> uc_next_offset u" by auto
      then show thesis using eq refuse [of NACK_OFFSET] by simp
    qed
  qed
qed

subsection \<open>The bootloader as a firmware device\<close>

definition stm32_device :: "('c \<Rightarrow> nat \<Rightarrow> byte) \<Rightarrow> ('c \<Rightarrow> bytes) \<Rightarrow> 'c stm32_update_context \<Rightarrow> bool" where
  "stm32_device fl inst u \<longleftrightarrow> stm32_inv u \<and> flash_law (uc_flash u) fl inst"

definition update_open :: "'c stm32_update_context \<Rightarrow> bool" where
  "update_open u \<longleftrightarrow> uc_state u \<noteq> STM32_UPDATE_IDLE"

definition update_sealed :: "'c stm32_update_context \<Rightarrow> bool" where
  "update_sealed u \<longleftrightarrow> uc_state u = STM32_UPDATE_TRANSFERRED \<or> uc_state u = STM32_UPDATE_VERIFIED"

definition boots :: "('c \<Rightarrow> bytes) \<Rightarrow> 'c stm32_update_context \<Rightarrow> bytes" where
  "boots inst u = inst (uc_flash_context u)"

lemma answer_of_handle:
  assumes "stm32_update_handle u (frame_view q) 4112 = (Inr (frame_wire r), u1)" "frame_wf r" "stm32_answer u q = (ro, u')"
  shows "ro = Some r" "u' = u1"
  using stm32_answer_eq [OF assms(2,1)] assms(3) by simp_all

lemma stm32_begin_law:
  assumes d: "stm32_device fl inst u" and t: "fr_type q = DEVMGR_MSG_FW_BEGIN"
    and ns: "\<not> update_sealed u" and same: "update_open u \<Longrightarrow> stm32_announced u = begin_payload (fr_payload q)"
    and a: "stm32_answer u q = (ro, u')"
  shows "stm32_device fl inst u' \<and> \<not> update_sealed u' \<and> boots inst u' = boots inst u \<and>
    (update_open u' = update_open u \<and> stm32_announced u' = stm32_announced u \<and> (update_open u \<longrightarrow> stored fl u' = stored fl u) \<or>
     update_open u' \<and> stm32_announced u' = begin_payload (fr_payload q) \<and> stored fl u' = [])"
proof -
  have h: "stm32_update_handle u (frame_view q) 4112 = handle_begin u (frame_view q) 4112"
    using t by (simp add: stm32_update_handle_def)
  obtain rc c where er: "the (fo_erase (uc_flash u)) (uc_flash_context u) (devmgr_get_le32 (fr_payload q)) = (rc, c)"
    by (rule prod.exhaust)
  have ic: "inst c = inst (uc_flash_context u)"
    using flash_lawD(5) [of "uc_flash u" fl inst "uc_flash_context u" "devmgr_get_le32 (fr_payload q)"] d er
    by (simp add: stm32_device_def)
  consider "u' = u" | "uc_state u = STM32_UPDATE_IDLE" "u' = u\<lparr>uc_flash_context := c\<rparr>"
    | "begin_admitted q" "u' = open_update u c (fr_payload q)"
  proof (cases "begin_admitted q \<and> \<not> (uc_state u = STM32_UPDATE_RECEIVING \<and> stm32_announced u = begin_payload (fr_payload q))")
    case False
    then have "u' = u"
      using h answer_of_handle [OF _ _ a] unfolding handle_begin_alt by (auto split: if_splits)
    then show ?thesis using that(1) by simp
  next
    case True
    then have idle: "uc_state u = STM32_UPDATE_IDLE"
      using same ns by (cases "uc_state u") (auto simp: update_open_def update_sealed_def)
    show ?thesis
    proof (cases "rc = 0")
      case True
      then have "u' = open_update u c (fr_payload q)"
        using h answer_of_handle [OF _ _ a] \<open>begin_admitted q \<and> _\<close> er unfolding handle_begin_alt by simp
      then show ?thesis using that(3) \<open>begin_admitted q \<and> _\<close> by simp
    next
      case False
      then have "u' = u\<lparr>uc_flash_context := c\<rparr>"
        using h answer_of_handle [OF _ _ a] \<open>begin_admitted q \<and> _\<close> er unfolding handle_begin_alt by simp
      then show ?thesis using that(2) idle by simp
    qed
  qed
  then show ?thesis
    using d ic ns by cases (auto simp: stm32_device_def stm32_inv_def update_sealed_def update_open_def boots_def
        stm32_announced_def open_update_def begin_payload_def stored_def begin_admitted_def)
qed

lemma stm32_data_law:
  assumes d: "stm32_device fl inst u" and wf: "frame_wf q" and t: "fr_type q = DEVMGR_MSG_FW_DATA"
    and a: "stm32_answer u q = (ro, u')"
  shows "stm32_device fl inst u' \<and> update_open u' = update_open u \<and> update_sealed u' = update_sealed u \<and>
    stm32_announced u' = stm32_announced u \<and> boots inst u' = boots inst u \<and>
    (stored fl u' = stored fl u \<or>
     unat (data_offset q) = length (stored fl u) \<and> stored fl u' = stored fl u @ data_part q)"
proof -
  have law: "flash_law (uc_flash u) fl inst" using d by (simp add: stm32_device_def)
  obtain res u1 where h: "handle_data u (frame_view q) 4112 = (res, u1)" by (rule prod.exhaust)
  then have h': "stm32_update_handle u (frame_view q) 4112 = (res, u1)" using t by (simp add: stm32_update_handle_def)
  from law wf h show ?thesis
  proof (cases rule: handle_data_effect)
    case (refused k c)
    then have "u' = u\<lparr>uc_flash_context := c\<rparr>" "stored fl u' = stored fl u"
      using answer_of_handle [OF h' [unfolded refused(1)] _ a] by simp_all
    then show ?thesis
      using d refused(3) by (simp add: stm32_device_def stm32_inv_def update_open_def update_sealed_def stm32_announced_def boots_def)
  next
    case (repeated c)
    then have "u' = u\<lparr>uc_flash_context := c\<rparr>"
      using answer_of_handle [OF h' [unfolded repeated(2)] _ a] by simp
    then show ?thesis
      using d repeated(4,5) by (simp add: stm32_device_def stm32_inv_def update_open_def update_sealed_def stm32_announced_def boots_def stored_def)
  next
    case (appended c v)
    then have u': "u' = u\<lparr>uc_flash_context := c, uc_next_offset := v\<rparr>" "stored fl u' = stored fl u @ data_part q"
      using answer_of_handle [OF h' [unfolded appended(4)] _ a] by simp_all
    moreover have "v \<le> uc_image_size u" "uc_state u = STM32_UPDATE_RECEIVING"
      using appended(1,7) by (simp_all add: word_le_nat_alt data_fits_def)
    ultimately show ?thesis
      using d appended(2,5) by (simp add: stm32_device_def stm32_inv_def update_open_def update_sealed_def stm32_announced_def boots_def stored_def)
  qed
qed

text \<open>The requests without an image part: one equation per case of the switch.\<close>

lemma update_status_alt:
  "update_status u (frame_view q) 4112 =
    (Inr (frame_wire (if fr_payload_length q \<noteq> 4 \<or> devmgr_get_le32 (fr_payload q) \<noteq> uc_session_id u
       then nack_reply q NACK_INVALID_STATE
       else ok_reply q (devmgr_put_le32 (uc_session_id u) @ devmgr_put_le32 (uc_next_offset u)))), u)"
  by (simp add: update_status_def)

lemma update_end_alt:
  "update_end u (frame_view q) 4112 =
    (if uc_state u \<noteq> STM32_UPDATE_RECEIVING \<or> uc_next_offset u \<noteq> uc_image_size u
     then (Inr (frame_wire (nack_reply q NACK_OFFSET)), u)
     else (Inr (frame_wire (ok_reply q [])), u\<lparr>uc_state := STM32_UPDATE_TRANSFERRED\<rparr>))"
  by (simp add: update_end_def)

lemma update_verify_alt:
  "update_verify u (frame_view q) 4112 =
    (if uc_state u \<noteq> STM32_UPDATE_TRANSFERRED then (Inr (frame_wire (nack_reply q NACK_VERIFY)), u)
     else case the (fo_crc32 (uc_flash u)) (uc_flash_context u) (uc_image_size u) of
       (actual, c) \<Rightarrow>
         if actual \<noteq> uc_image_crc u then (Inr (frame_wire (nack_reply q NACK_VERIFY)), u\<lparr>uc_flash_context := c\<rparr>)
         else (Inr (frame_wire (ok_reply q (devmgr_put_le32 (uc_image_crc u)))),
               u\<lparr>uc_flash_context := c, uc_state := STM32_UPDATE_VERIFIED\<rparr>))"
  by (simp add: update_verify_def Let_def split: prod.split)

lemma update_activate_alt:
  "update_activate u (frame_view q) 4112 =
    (if uc_state u \<noteq> STM32_UPDATE_VERIFIED then (Inr (frame_wire (nack_reply q NACK_INVALID_STATE)), u)
     else case the (fo_activate (uc_flash u)) (uc_flash_context u) (uc_image_size u) (uc_image_crc u)
            (uc_pending_version u) of
       (rc, c) \<Rightarrow>
         (Inr (frame_wire (if rc \<noteq> 0 then nack_reply q NACK_INVALID_STATE else ok_reply q [])), u\<lparr>uc_flash_context := c\<rparr>))"
  by (simp add: update_activate_def Let_def split: prod.split)

lemma update_reboot_alt:
  "update_reboot u (frame_view q) 4112 =
    (Inr (frame_wire (ok_reply q [])), u\<lparr>uc_flash_context := the (fo_reboot (uc_flash u)) (uc_flash_context u)\<rparr>)"
  by (simp add: update_reboot_def)

lemma enter_alt:
  "fr_type q = DEVMGR_MSG_ENTER_BOOTLOADER \<Longrightarrow>
   stm32_update_handle u (frame_view q) 4112 = (Inr (frame_wire (ok_reply q [])), u)"
  using respond_wire(2) [of q] by (simp add: stm32_update_handle_def)

lemma handle_dispatch:
  "fr_type q = DEVMGR_MSG_FW_STATUS \<Longrightarrow> stm32_update_handle u (frame_view q) n = update_status u (frame_view q) n"
  "fr_type q = DEVMGR_MSG_FW_END \<Longrightarrow> stm32_update_handle u (frame_view q) n = update_end u (frame_view q) n"
  "fr_type q = DEVMGR_MSG_FW_VERIFY \<Longrightarrow> stm32_update_handle u (frame_view q) n = update_verify u (frame_view q) n"
  "fr_type q = DEVMGR_MSG_FW_ACTIVATE \<Longrightarrow> stm32_update_handle u (frame_view q) n = update_activate u (frame_view q) n"
  "fr_type q = DEVMGR_MSG_REBOOT \<Longrightarrow> stm32_update_handle u (frame_view q) n = update_reboot u (frame_view q) n"
  "fr_type q = DEVMGR_MSG_FW_BEGIN \<Longrightarrow> stm32_update_handle u (frame_view q) n = handle_begin u (frame_view q) n"
  "fr_type q = DEVMGR_MSG_FW_DATA \<Longrightarrow> stm32_update_handle u (frame_view q) n = handle_data u (frame_view q) n"
  by (simp_all add: stm32_update_handle_def)

lemma answer_pair:
  assumes "stm32_update_handle u (frame_view q) 4112 = (Inr (frame_wire r), u1)" "frame_wf r"
    "stm32_answer u q = (ro, u')"
  shows "ro = Some r \<and> u' = u1"
  using answer_of_handle [OF assms] by simp

text \<open>What a request without an image part can do to the context.\<close>

lemma end_effect:
  assumes t: "fr_type q = DEVMGR_MSG_FW_END" and a: "stm32_answer u q = (ro, u')"
  obtains (refused) "u' = u" "ro = Some (nack_reply q NACK_OFFSET)"
  | (ends) "uc_state u = STM32_UPDATE_RECEIVING" "uc_next_offset u = uc_image_size u"
      "ro = Some (ok_reply q [])" "u' = u\<lparr>uc_state := STM32_UPDATE_TRANSFERRED\<rparr>"
proof -
  note h = trans [OF handle_dispatch(2) [OF t] update_end_alt, of u] and ap = answer_pair [OF _ _ a]
  show thesis
  proof (cases "uc_state u \<noteq> STM32_UPDATE_RECEIVING \<or> uc_next_offset u \<noteq> uc_image_size u")
    case True
    show thesis using refused ap [OF h [unfolded if_P [OF True]]] by simp
  next
    case False
    show thesis using ends ap [OF h [unfolded if_not_P [OF False]]] False by simp
  qed
qed

lemma verify_effect:
  assumes law: "flash_law (uc_flash u) fl inst" and t: "fr_type q = DEVMGR_MSG_FW_VERIFY" and a: "stm32_answer u q = (ro, u')"
  obtains (refused) c where "u' = u\<lparr>uc_flash_context := c\<rparr>" "fl c = fl (uc_flash_context u)"
      "inst c = inst (uc_flash_context u)" "ro = Some (nack_reply q NACK_VERIFY)"
  | (verifies) c where "uc_state u = STM32_UPDATE_TRANSFERRED"
      "u' = u\<lparr>uc_flash_context := c, uc_state := STM32_UPDATE_VERIFIED\<rparr>" "fl c = fl (uc_flash_context u)"
      "inst c = inst (uc_flash_context u)" "ro = Some (ok_reply q (devmgr_put_le32 (uc_image_crc u)))"
      "devmgr_crc32 (Some (map (fl (uc_flash_context u)) [0..<unat (uc_image_size u)])) = uc_image_crc u"
proof -
  note h = trans [OF handle_dispatch(3) [OF t] update_verify_alt, of u] and ap = answer_pair [OF _ _ a]
  obtain v c where cr: "the (fo_crc32 (uc_flash u)) (uc_flash_context u) (uc_image_size u) = (v, c)" by (rule prod.exhaust)
  have l: "fl c = fl (uc_flash_context u)" "inst c = inst (uc_flash_context u)"
    "v = devmgr_crc32 (Some (map (fl (uc_flash_context u)) [0..<unat (uc_image_size u)]))"
    using flash_lawD(3) [OF law] cr unfolding crc_law_def by blast+
  show thesis
  proof (cases "uc_state u \<noteq> STM32_UPDATE_TRANSFERRED")
    case True
    show thesis using refused [of "uc_flash_context u"] ap [OF h [unfolded if_P [OF True]]] by simp
  next
    case False
    note h' = h [unfolded if_not_P [OF False] cr prod.case]
    show thesis
    proof (cases "v \<noteq> uc_image_crc u")
      case True
      show thesis using refused [OF _ l(1,2)] ap [OF h' [unfolded if_P [OF True]]] by simp
    next
      case v: False
      show thesis using verifies [OF _ _ l(1,2)] ap [OF h' [unfolded if_not_P [OF v]]] l(3) v False by simp
    qed
  qed
qed

lemma activate_effect:
  assumes law: "flash_law (uc_flash u) fl inst" and t: "fr_type q = DEVMGR_MSG_FW_ACTIVATE" and a: "stm32_answer u q = (ro, u')"
  obtains (refused) c where "u' = u\<lparr>uc_flash_context := c\<rparr>" "fl c = fl (uc_flash_context u)"
      "inst c = inst (uc_flash_context u)" "ro = Some (nack_reply q NACK_INVALID_STATE)"
  | (activates) c where "uc_state u = STM32_UPDATE_VERIFIED"
      "ro = Some (ok_reply q [])" "u' = u\<lparr>uc_flash_context := c\<rparr>" "fl c = fl (uc_flash_context u)"
      "inst c = uc_pending_version u"
proof -
  note h = trans [OF handle_dispatch(4) [OF t] update_activate_alt, of u] and ap = answer_pair [OF _ _ a]
  show thesis
  proof (cases "uc_state u \<noteq> STM32_UPDATE_VERIFIED")
    case True
    show thesis using refused [of "uc_flash_context u"] ap [OF h [unfolded if_P [OF True]]] by simp
  next
    case False
    obtain rc c where ac: "the (fo_activate (uc_flash u)) (uc_flash_context u) (uc_image_size u) (uc_image_crc u)
        (uc_pending_version u) = (rc, c)" by (rule prod.exhaust)
    have l: "fl c = fl (uc_flash_context u)" "inst c = (if rc = 0 then uc_pending_version u else inst (uc_flash_context u))"
      using flash_lawD(4) [OF law] ac unfolding activate_law_def by blast+
    have "ro = Some (if rc \<noteq> 0 then nack_reply q NACK_INVALID_STATE else ok_reply q []) \<and> u' = u\<lparr>uc_flash_context := c\<rparr>"
      using ap [OF h [unfolded if_not_P [OF False] ac prod.case]] by simp
    then show thesis using refused [OF _ l(1)] activates [OF _ _ _ l(1)] l(2) False by (cases "rc = 0") auto
  qed
qed

lemma passive_effect:
  assumes law: "flash_law (uc_flash u) fl inst" and a: "stm32_answer u q = (ro, u')"
    and t: "fr_type q = DEVMGR_MSG_ENTER_BOOTLOADER \<or> fr_type q = DEVMGR_MSG_FW_STATUS \<or> fr_type q = DEVMGR_MSG_REBOOT"
  obtains c where "u' = u\<lparr>uc_flash_context := c\<rparr>" "fl c = fl (uc_flash_context u)" "inst c = inst (uc_flash_context u)"
proof -
  note ap = answer_pair [OF _ _ a]
  from t consider "fr_type q = DEVMGR_MSG_ENTER_BOOTLOADER" | "fr_type q = DEVMGR_MSG_FW_STATUS" | "fr_type q = DEVMGR_MSG_REBOOT"
    by blast
  then show thesis
  proof cases
    case 1
    then show thesis using ap [OF enter_alt] that [of "uc_flash_context u"] by simp
  next
    case 2
    then show thesis
      using ap [OF trans [OF handle_dispatch(1) update_status_alt]] that [of "uc_flash_context u"] by simp
  next
    case 3
    then show thesis
      using ap [OF trans [OF handle_dispatch(5) [OF 3] update_reboot_alt]] that flash_lawD(6,7) [OF law] by simp
  qed
qed

text \<open>Every request gets a well-formed response of its own type or a \<open>NACK\<close>.\<close>

definition responds :: "devmgr_frame \<Rightarrow> 'c update_result \<Rightarrow> bool" where
  "responds q x \<longleftrightarrow> (\<exists>r u. x = (Inr (frame_wire r), u) \<and> frame_wf r \<and> (fr_type r = fr_type q \<or> fr_type r = DEVMGR_MSG_NACK))"

lemma responds_intros:
  "length p \<le> 8 \<Longrightarrow> responds q (Inr (frame_wire (ok_reply q p)), u)"
  "responds q (Inr (frame_wire (nack_reply q k)), u)"
  by (auto simp: responds_def intro!: exI)

lemma responds_if: "responds q x \<Longrightarrow> responds q y \<Longrightarrow> responds q (if b then x else y)"
  by simp

lemma responds_case: "(\<And>a b. responds q (f a b)) \<Longrightarrow> responds q (case p of (a, b) \<Rightarrow> f a b)"
  by (cases p) simp

lemma responds_handle:
  assumes "frame_wf q"
  shows "responds q (stm32_update_handle u (frame_view q) 4112)"
  unfolding stm32_update_handle_def Let_def frame_view_fields respond_wire
    update_status_alt update_end_alt update_verify_alt update_activate_alt update_reboot_alt handle_begin_alt
    handle_data_alt [OF assms] if_distrib [of frame_wire] if_distrib [of Inr] if_distrib [of "\<lambda>x. (x, _)"]
  by (intro responds_if responds_case responds_intros) simp_all

lemma stm32_answer_type:
  assumes "frame_wf q" "stm32_answer u q = (Some r, u')"
  shows "fr_type r = fr_type q \<or> fr_type r = DEVMGR_MSG_NACK"
proof -
  obtain r0 u1 where "stm32_update_handle u (frame_view q) 4112 = (Inr (frame_wire r0), u1)" "frame_wf r0"
    "fr_type r0 = fr_type q \<or> fr_type r0 = DEVMGR_MSG_NACK"
    using responds_handle [OF assms(1), of u] by (auto simp: responds_def)
  then show ?thesis using answer_pair [OF _ _ assms(2)] by simp
qed

lemma stm32_simple_law:
  assumes d: "stm32_device fl inst u" and t: "simple_request (fr_type q)" and a: "stm32_answer u q = (ro, u')"
  shows "stm32_device fl inst u' \<and> (update_open u' \<longrightarrow> update_open u) \<and>
      (update_sealed u' \<longrightarrow> update_sealed u \<or> fr_type q = DEVMGR_MSG_FW_END) \<and>
      stm32_announced u' = stm32_announced u \<and> stored fl u' = stored fl u \<and>
      (boots inst u' = boots inst u \<or>
       fr_type q = DEVMGR_MSG_FW_ACTIVATE \<and> boots inst u' = snd (snd (stm32_announced u)))"
proof -
  have law: "flash_law (uc_flash u) fl inst" using d by (simp add: stm32_device_def)
  note defs = stm32_device_def stm32_inv_def update_open_def update_sealed_def stm32_announced_def stored_def boots_def
  consider "fr_type q = DEVMGR_MSG_FW_END" | "fr_type q = DEVMGR_MSG_FW_VERIFY" | "fr_type q = DEVMGR_MSG_FW_ACTIVATE"
    | "fr_type q = DEVMGR_MSG_ENTER_BOOTLOADER \<or> fr_type q = DEVMGR_MSG_FW_STATUS \<or> fr_type q = DEVMGR_MSG_REBOOT"
    using t by (auto simp: simple_request_def)
  then show ?thesis
  proof cases
    case 1
    from 1 a show ?thesis by (cases rule: end_effect) (use d 1 in \<open>auto simp: defs\<close>)
  next
    case 2
    from law 2 a show ?thesis by (cases rule: verify_effect) (use d in \<open>auto simp: defs\<close>)
  next
    case 3
    from law 3 a show ?thesis by (cases rule: activate_effect) (use d 3 in \<open>auto simp: defs\<close>)
  next
    case 4
    from law a 4 show ?thesis by (cases rule: passive_effect) (use d in \<open>auto simp: defs\<close>)
  qed
qed

lemma stm32_end_law:
  assumes "stm32_device fl inst u" "fr_type q = DEVMGR_MSG_FW_END" "stm32_answer u q = (Some r, u')"
    "fr_type r = DEVMGR_MSG_FW_END"
  shows "update_open u \<and> length (stored fl u) = unat (fst (stm32_announced u))"
  using assms(2,3)
  by (cases rule: end_effect) (use assms(4) in \<open>auto simp: update_open_def stored_def stm32_announced_def\<close>)

lemma stm32_activate_law:
  assumes "stm32_device fl inst u" "fr_type q = DEVMGR_MSG_FW_ACTIVATE" "stm32_answer u q = (Some r, u')"
    "fr_type r = DEVMGR_MSG_FW_ACTIVATE"
  shows "boots inst u' = snd (snd (stm32_announced u))"
proof -
  have law: "flash_law (uc_flash u) fl inst" using assms(1) by (simp add: stm32_device_def)
  from law assms(2,3) show ?thesis
    by (cases rule: activate_effect) (use assms(4) in \<open>auto simp: boots_def stm32_announced_def\<close>)
qed

interpretation stm32dev: fw_device "\<lambda>(_ :: unit) u q. stm32_answer u q" "\<lambda>_. True" "stm32_device fl inst"
  update_open update_sealed stm32_announced "stored fl" "boots inst" for fl inst
  apply unfold_locales
  subgoal for s e q r s' using stm32_answer_type [of q s r s'] by simp
  subgoal for s e q ro s' using stm32_begin_law [of fl inst s q ro s'] by simp
  subgoal for s e q ro s' using stm32_data_law [of fl inst s q ro s'] by simp
  subgoal for s e q ro s' using stm32_simple_law [of fl inst s q ro s'] by simp
  subgoal for s e q r s' using stm32_end_law [of fl inst s q r s'] by simp
  subgoal for s e q r s' using stm32_activate_law [of fl inst s q r s'] by simp
  done

end
