(* ===== verification/Stm32_Upgrade.thy ===== *)
theory Stm32_Upgrade
  imports Stm32
begin

section \<open>Upgrading the STM32 bootloader\<close>

text \<open>
  The host's upgrade machine and session against the STM32 bootloader (\<open>Stm32\<close>) over the link of
  \<open>Fw_Device\<close>: what a completed upgrade has done, from the bootloader's interpretation of
  \<open>fw_device\<close>; that an upgrade completes on a perfect link when the flash driver does not fail; when
  an activation is accepted; and what the bootloader does with retransmitted requests.
\<close>

subsection \<open>Upgrades over a perfect link\<close>

definition steady_driver :: "'c stm32_flash_ops \<Rightarrow> bool" where
  "steady_driver ops \<longleftrightarrow> (\<forall>c n. fst (the (fo_erase ops) c n) = 0) \<and> (\<forall>c off d. fst (the (fo_write ops) c off d) = 0) \<and>
     (\<forall>c n crc v. fst (the (fo_activate ops) c n crc v) = 0)"

definition in_update :: "('c \<Rightarrow> nat \<Rightarrow> byte) \<Rightarrow> devmgr_upgrade \<Rightarrow> 'c stm32_update_context \<Rightarrow> bool" where
  "in_update fl u s \<longleftrightarrow> uc_session_id s = up_session_id u \<and> uc_next_offset s = up_offset u \<and>
     uc_image_size s = of_nat (up_image_size u) \<and> uc_image_crc s = up_image_crc u \<and>
     uc_chunk_size s = up_chunk_size u \<and> stored fl s = take (unat (up_offset u)) (up_image u)"

text \<open>Host and bootloader in step, between two rounds.\<close>

definition stm32_in_step ::
  "('c \<Rightarrow> nat \<Rightarrow> byte) \<Rightarrow> ('c \<Rightarrow> bytes) \<Rightarrow> devmgr_upgrade \<Rightarrow> 'c stm32_update_context \<Rightarrow> bool" where
  "stm32_in_step fl inst u s \<longleftrightarrow> job_ok u \<and> stm32_device fl inst s \<and> steady_driver (uc_flash s) \<and>
     (case up_state u of
        DEVMGR_UPGRADE_ENTER_BOOTLOADER \<Rightarrow> uc_state s = STM32_UPDATE_IDLE
      | DEVMGR_UPGRADE_BEGIN \<Rightarrow> uc_state s = STM32_UPDATE_IDLE
      | DEVMGR_UPGRADE_TRANSFER \<Rightarrow> uc_state s = STM32_UPDATE_RECEIVING \<and> in_update fl u s
      | DEVMGR_UPGRADE_END \<Rightarrow> uc_state s = STM32_UPDATE_RECEIVING \<and> in_update fl u s
      | DEVMGR_UPGRADE_VERIFY \<Rightarrow> uc_state s = STM32_UPDATE_TRANSFERRED \<and> in_update fl u s
      | DEVMGR_UPGRADE_ACTIVATE \<Rightarrow> uc_state s = STM32_UPDATE_VERIFIED
      | DEVMGR_UPGRADE_REBOOT \<Rightarrow> True
      | DEVMGR_UPGRADE_COMPLETE \<Rightarrow> True
      | _ \<Rightarrow> False)"

abbreviation stm32_handler :: "unit \<Rightarrow> 'c stm32_update_context \<Rightarrow> devmgr_frame \<Rightarrow> devmgr_frame option \<times> 'c stm32_update_context" where
  "stm32_handler \<equiv> (\<lambda>_. stm32_answer)"

definition stm32_round ::
  "('c \<Rightarrow> nat \<Rightarrow> byte) \<Rightarrow> ('c \<Rightarrow> bytes) \<Rightarrow> devmgr_upgrade \<Rightarrow> 'c stm32_update_context \<Rightarrow> bool" where
  "stm32_round fl inst u s \<longleftrightarrow> (\<exists>f u1. devmgr_upgrade_build_request u = (Inr f, u1) \<and>
     (\<forall>n. answers stm32_handler () (stm32_in_step fl inst) f u1 s n))"

lemma stm32_roundI:
  assumes "stm32_in_step fl inst u s" "devmgr_upgrade_build_request u = (Inr f, u')"
    and h: "\<And>n. stm32_update_handle s (frame_view (f\<lparr>fr_sequence := n\<rparr>)) 4112 =
      (Inr (frame_wire (ok_reply (f\<lparr>fr_sequence := n\<rparr>) p)), s')" and p: "length p \<le> 8"
    and a: "\<And>n. devmgr_upgrade_accept_response u' (fr_type f) (ok_reply (f\<lparr>fr_sequence := n\<rparr>) p) = (DEVMGR_OK, u'')"
    and d: "stm32_device fl inst s'" "uc_flash s' = uc_flash s"
    and s: "job_ok u'' \<Longrightarrow> stm32_device fl inst s' \<Longrightarrow> steady_driver (uc_flash s') \<Longrightarrow> stm32_in_step fl inst u'' s'"
  shows "stm32_round fl inst u s"
proof -
  have "job_ok u''" using job_ok_accept [OF _ assms(2) a] assms(1) by (simp add: stm32_in_step_def)
  then have i: "stm32_in_step fl inst u'' s'" using d s assms(1) by (simp add: stm32_in_step_def)
  have "stm32_answer s (f\<lparr>fr_sequence := n\<rparr>) = (Some (ok_reply (f\<lparr>fr_sequence := n\<rparr>) p), s')" for n
    by (rule stm32_answer_eq [OF _ h]) (use p in simp)
  then have "answers stm32_handler () (stm32_in_step fl inst) f u' s n" for n
    unfolding answers_def using a [of n] i by auto
  then show ?thesis using assms(2) unfolding stm32_round_def by blast
qed

text \<open>The bootloader after a request that changes only the driver's context or the state.\<close>

lemma stm32_device_keeps:
  assumes "stm32_device fl inst s"
  shows "stm32_device fl inst (s\<lparr>uc_flash_context := c\<rparr>)"
    "uc_next_offset s = uc_image_size s \<Longrightarrow> uc_state s \<noteq> STM32_UPDATE_IDLE \<Longrightarrow> st \<noteq> STM32_UPDATE_IDLE \<Longrightarrow>
     stm32_device fl inst (s\<lparr>uc_flash_context := c, uc_state := st\<rparr>)"
    "uc_next_offset s = uc_image_size s \<Longrightarrow> uc_state s \<noteq> STM32_UPDATE_IDLE \<Longrightarrow> st \<noteq> STM32_UPDATE_IDLE \<Longrightarrow>
     stm32_device fl inst (s\<lparr>uc_state := st\<rparr>)"
  using assms by (simp_all add: stm32_device_def stm32_inv_def)

lemma in_update_simps [simp]:
  "in_update fl (u\<lparr>up_state := st\<rparr>) s = in_update fl u s"
  "in_update fl u (s\<lparr>uc_state := t\<rparr>) = in_update fl u s"
  by (simp_all add: in_update_def up_image_def stored_def cong: option.case_cong)

lemma stm32_round_enter:
  assumes "stm32_in_step fl inst u s" "up_state u = DEVMGR_UPGRADE_ENTER_BOOTLOADER"
  shows "stm32_round fl inst u s"
proof (rule stm32_roundI [OF assms(1)])
  let ?f = "request_frame DEVMGR_MSG_ENTER_BOOTLOADER 0 []"
  show "devmgr_upgrade_build_request u = (Inr ?f, u)" using assms(2) by (simp add: devmgr_upgrade_build_request_def)
  show "stm32_update_handle s (frame_view (?f\<lparr>fr_sequence := n\<rparr>)) 4112 =
      (Inr (frame_wire (ok_reply (?f\<lparr>fr_sequence := n\<rparr>) [])), s)" for n
    by (rule enter_alt) (simp add: request_frame_def)
  show "devmgr_upgrade_accept_response u (fr_type ?f) (ok_reply (?f\<lparr>fr_sequence := n\<rparr>) []) =
      (DEVMGR_OK, u\<lparr>up_state := DEVMGR_UPGRADE_BEGIN\<rparr>)" for n
    using assms(2) by (simp add: devmgr_upgrade_accept_response_def request_frame_def)
qed (use assms in \<open>simp_all add: stm32_in_step_def\<close>)

lemma stm32_round_reboot:
  assumes "stm32_in_step fl inst u s" "up_state u = DEVMGR_UPGRADE_REBOOT"
  shows "stm32_round fl inst u s"
proof (rule stm32_roundI [OF assms(1)])
  let ?f = "request_frame DEVMGR_MSG_REBOOT 1 [0]"
  show "devmgr_upgrade_build_request u = (Inr ?f, u)" using assms(2) by (simp add: devmgr_upgrade_build_request_def)
  show "stm32_update_handle s (frame_view (?f\<lparr>fr_sequence := n\<rparr>)) 4112 =
      (Inr (frame_wire (ok_reply (?f\<lparr>fr_sequence := n\<rparr>) [])),
       s\<lparr>uc_flash_context := the (fo_reboot (uc_flash s)) (uc_flash_context s)\<rparr>)" for n
    by (rule trans [OF handle_dispatch(5) update_reboot_alt]) (simp add: request_frame_def)
  show "devmgr_upgrade_accept_response u (fr_type ?f) (ok_reply (?f\<lparr>fr_sequence := n\<rparr>) []) =
      (DEVMGR_OK, u\<lparr>up_state := DEVMGR_UPGRADE_COMPLETE\<rparr>)" for n
    using assms(2) by (simp add: devmgr_upgrade_accept_response_def request_frame_def)
  show "stm32_device fl inst (s\<lparr>uc_flash_context := the (fo_reboot (uc_flash s)) (uc_flash_context s)\<rparr>)"
    by (rule stm32_device_keeps(1)) (use assms(1) in \<open>simp add: stm32_in_step_def\<close>)
qed (simp_all add: stm32_in_step_def)

lemma stm32_round_end:
  assumes "stm32_in_step fl inst u s" "up_state u = DEVMGR_UPGRADE_END"
  shows "stm32_round fl inst u s"
proof (rule stm32_roundI [OF assms(1)])
  let ?f = "session_request DEVMGR_MSG_FW_END u"
  have i: "uc_state s = STM32_UPDATE_RECEIVING" "in_update fl u s" "upgrade_inv u" "stm32_device fl inst s"
    using assms by (simp_all add: stm32_in_step_def job_ok_def)
  have "unat (up_offset u) = up_image_size u" using i(3) assms(2) by (simp add: upgrade_inv_def upgrade_progress_def)
  then have full: "uc_next_offset s = uc_image_size s" using i(2) by (simp add: in_update_def flip: \<open>unat _ = _\<close>)
  show "devmgr_upgrade_build_request u = (Inr ?f, u)"
    using assms(2) by (simp add: devmgr_upgrade_build_request_def session_request_def)
  show "stm32_update_handle s (frame_view (?f\<lparr>fr_sequence := n\<rparr>)) 4112 =
      (Inr (frame_wire (ok_reply (?f\<lparr>fr_sequence := n\<rparr>) [])), s\<lparr>uc_state := STM32_UPDATE_TRANSFERRED\<rparr>)" for n
    using trans [OF handle_dispatch(2) update_end_alt, of "?f\<lparr>fr_sequence := n\<rparr>" s] i(1) full by simp
  show "devmgr_upgrade_accept_response u (fr_type ?f) (ok_reply (?f\<lparr>fr_sequence := n\<rparr>) []) =
      (DEVMGR_OK, u\<lparr>up_state := DEVMGR_UPGRADE_VERIFY\<rparr>)" for n
    using assms(2) by (simp add: devmgr_upgrade_accept_response_def)
  show "stm32_device fl inst (s\<lparr>uc_state := STM32_UPDATE_TRANSFERRED\<rparr>)"
    using stm32_device_keeps(3) [OF i(4) full] i(1) by simp
qed (use assms in \<open>simp_all add: stm32_in_step_def\<close>)

lemma stm32_round_activate:
  assumes "stm32_in_step fl inst u s" "up_state u = DEVMGR_UPGRADE_ACTIVATE"
  shows "stm32_round fl inst u s"
proof -
  let ?f = "session_request DEVMGR_MSG_FW_ACTIVATE u"
  have i: "uc_state s = STM32_UPDATE_VERIFIED" "stm32_device fl inst s" "steady_driver (uc_flash s)"
    using assms by (simp_all add: stm32_in_step_def)
  obtain c where c: "the (fo_activate (uc_flash s)) (uc_flash_context s) (uc_image_size s) (uc_image_crc s)
      (uc_pending_version s) = (0, c)"
    using i(3) unfolding steady_driver_def by (metis prod.collapse)
  show ?thesis
  proof (rule stm32_roundI [OF assms(1)])
    show "devmgr_upgrade_build_request u = (Inr ?f, u)"
      using assms(2) by (simp add: devmgr_upgrade_build_request_def session_request_def)
    show "stm32_update_handle s (frame_view (?f\<lparr>fr_sequence := n\<rparr>)) 4112 =
        (Inr (frame_wire (ok_reply (?f\<lparr>fr_sequence := n\<rparr>) [])), s\<lparr>uc_flash_context := c\<rparr>)" for n
      using trans [OF handle_dispatch(4) update_activate_alt, of "?f\<lparr>fr_sequence := n\<rparr>" s] i(1) c by simp
    show "devmgr_upgrade_accept_response u (fr_type ?f) (ok_reply (?f\<lparr>fr_sequence := n\<rparr>) []) =
        (DEVMGR_OK, u\<lparr>up_state := DEVMGR_UPGRADE_REBOOT\<rparr>)" for n
      using assms(2) by (simp add: devmgr_upgrade_accept_response_def)
    show "stm32_device fl inst (s\<lparr>uc_flash_context := c\<rparr>)" by (rule stm32_device_keeps(1) [OF i(2)])
  qed (simp_all add: stm32_in_step_def)
qed

lemma stm32_round_verify:
  assumes "stm32_in_step fl inst u s" "up_state u = DEVMGR_UPGRADE_VERIFY"
  shows "stm32_round fl inst u s"
proof -
  let ?f = "session_request DEVMGR_MSG_FW_VERIFY u"
  have i: "uc_state s = STM32_UPDATE_TRANSFERRED" "stm32_device fl inst s" "in_update fl u s" "job_ok u"
    using assms by (simp_all add: stm32_in_step_def)
  have full: "uc_next_offset s = uc_image_size s" using i(1,2) by (simp add: stm32_device_def stm32_inv_def)
  obtain v c where c: "the (fo_crc32 (uc_flash s)) (uc_flash_context s) (uc_image_size s) = (v, c)" by (rule prod.exhaust)
  have v: "v = devmgr_crc32 (Some (map (fl (uc_flash_context s)) [0..<unat (uc_image_size s)]))"
    "fl c = fl (uc_flash_context s)"
    using flash_lawD(3) [of "uc_flash s" fl inst] i(2) c unfolding crc_law_def stm32_device_def by blast+
  have "unat (up_offset u) = up_image_size u"
    using i(4) assms(2) by (simp add: job_ok_def upgrade_inv_def upgrade_progress_def)
  then have "stored fl s = up_image u" using i(3) by (simp add: in_update_def up_image_def)
  then have "map (fl (uc_flash_context s)) [0..<unat (uc_image_size s)] = up_image u" by (simp only: stored_def full)
  then have crc: "v = uc_image_crc s" using v(1) i(3,4) by (simp add: job_ok_def in_update_def)
  show ?thesis
  proof (rule stm32_roundI [OF assms(1)])
    show "devmgr_upgrade_build_request u = (Inr ?f, u)"
      using assms(2) by (simp add: devmgr_upgrade_build_request_def session_request_def)
    show "stm32_update_handle s (frame_view (?f\<lparr>fr_sequence := n\<rparr>)) 4112 =
        (Inr (frame_wire (ok_reply (?f\<lparr>fr_sequence := n\<rparr>) (devmgr_put_le32 (uc_image_crc s)))),
         s\<lparr>uc_flash_context := c, uc_state := STM32_UPDATE_VERIFIED\<rparr>)" for n
      using trans [OF handle_dispatch(3) update_verify_alt, of "?f\<lparr>fr_sequence := n\<rparr>" s] i(1) c crc by simp
    show "devmgr_upgrade_accept_response u (fr_type ?f) (ok_reply (?f\<lparr>fr_sequence := n\<rparr>) (devmgr_put_le32 (uc_image_crc s))) =
        (DEVMGR_OK, u\<lparr>up_state := DEVMGR_UPGRADE_ACTIVATE\<rparr>)" for n
      using assms(2) i(3) get_put_le32 [of "up_image_crc u" "[]"]
      by (simp add: devmgr_upgrade_accept_response_def in_update_def)
    show "stm32_device fl inst (s\<lparr>uc_flash_context := c, uc_state := STM32_UPDATE_VERIFIED\<rparr>)"
      using stm32_device_keeps(2) [OF i(2) full] i(1) by simp
  qed (simp_all add: stm32_in_step_def)
qed

lemma begin_request_admitted:
  assumes "job_ok u" "up_state u = DEVMGR_UPGRADE_BEGIN"
  obtains f where "devmgr_upgrade_build_request u = (Inr f, u)" "fr_type f = DEVMGR_MSG_FW_BEGIN"
    "\<And>n. begin_admitted (f\<lparr>fr_sequence := n\<rparr>)" "begin_payload (fr_payload f) = up_params u"
    "devmgr_get_le16 (drop 8 (fr_payload f)) = up_chunk_size u"
proof -
  let ?p = "devmgr_put_le32 (of_nat (up_image_size u)) @ devmgr_put_le32 (up_image_crc u) @
       devmgr_put_le16 (up_chunk_size u) @ up_version u @ [0]"
  let ?f = "request_frame DEVMGR_MSG_FW_BEGIN (of_nat (10 + (length (up_version u) + 1))) ?p"
  have m: "0 < up_image_size u" "up_image_size u \<le> 16777216" "0 < unat (up_chunk_size u)"
    "up_version u \<noteq> []" "length (up_version u) \<le> 31" "0 \<notin> set (up_version u)"
    using assms(1) by (auto simp: job_ok_def upgrade_inv_def upgrade_meta_def)
  have b: "devmgr_upgrade_build_request u = (Inr ?f, u)"
    using assms(2) by (simp add: devmgr_upgrade_build_request_def Let_def)
  have "unat (of_nat (10 + (length (up_version u) + 1)) :: u16) = 11 + length (up_version u)"
    using m(5) by (subst unat_of_nat_u16) simp_all
  then have n: "\<not> fr_payload_length ?f < 11" by (simp add: request_frame_def word_less_nat_alt)
  have "unat (of_nat (up_image_size u) :: u32) = up_image_size u" using m(2) by (simp add: unat_of_nat_u32)
  then have z: "(of_nat (up_image_size u) :: u32) \<noteq> 0" using m(1) by (metis unat_0 less_irrefl)
  have "memchr0 (up_version u @ [0]) = Some (length (up_version u))" using m(6) by simp
  then have adm: "begin_admitted (?f\<lparr>fr_sequence := k\<rparr>)" for k
    using n z m by (auto simp: begin_admitted_def request_frame_def unat_gt_0)
  have bp: "begin_payload (fr_payload ?f) = up_params u"
    using begin_payload_request [OF m(6)] by (simp add: request_frame_def up_params_def)
  show thesis using that [OF b _ adm bp] by (simp add: request_frame_def)
qed

lemma stm32_round_begin:
  assumes "stm32_in_step fl inst u s" "up_state u = DEVMGR_UPGRADE_BEGIN"
  shows "stm32_round fl inst u s"
proof -
  have i: "uc_state s = STM32_UPDATE_IDLE" "stm32_device fl inst s" "steady_driver (uc_flash s)" "job_ok u"
    using assms by (simp_all add: stm32_in_step_def)
  obtain f where f: "devmgr_upgrade_build_request u = (Inr f, u)" "fr_type f = DEVMGR_MSG_FW_BEGIN"
    "\<And>n. begin_admitted (f\<lparr>fr_sequence := n\<rparr>)" "begin_payload (fr_payload f) = up_params u"
    "devmgr_get_le16 (drop 8 (fr_payload f)) = up_chunk_size u"
    using begin_request_admitted [OF i(4) assms(2)] by blast
  obtain c where c: "the (fo_erase (uc_flash s)) (uc_flash_context s) (devmgr_get_le32 (fr_payload f)) = (0, c)"
    using i(3) unfolding steady_driver_def by (metis prod.collapse)
  let ?s = "open_update s c (fr_payload f)"
  let ?p = "devmgr_put_le32 (uc_session_id ?s) @ devmgr_put_le32 0"
  let ?u = "u\<lparr>up_session_id := uc_session_id ?s, up_offset := 0, up_state := DEVMGR_UPGRADE_TRANSFER\<rparr>"
  have sz: "0 < up_image_size u" using i(4) by (auto simp: job_ok_def upgrade_inv_def upgrade_meta_def)
  have dev: "stm32_device fl inst ?s"
    using i(2) f(3) [of 0] by (simp add: stm32_device_def stm32_inv_def open_update_def begin_admitted_def)
  show ?thesis
  proof (rule stm32_roundI [OF assms(1) f(1)])
    show "stm32_update_handle s (frame_view (f\<lparr>fr_sequence := n\<rparr>)) 4112 =
        (Inr (frame_wire (ok_reply (f\<lparr>fr_sequence := n\<rparr>) ?p)), ?s)" for n
    proof -
      have "\<not> \<not> begin_admitted (f\<lparr>fr_sequence := n\<rparr>)" using f(3) by simp
      then show ?thesis
        using trans [OF handle_dispatch(6) handle_begin_alt, of "f\<lparr>fr_sequence := n\<rparr>" s] f(2) c i(1) by simp
    qed
    have "uc_session_id ?s \<noteq> 0" by (simp add: open_update_def)
    then show "devmgr_upgrade_accept_response u (fr_type f) (ok_reply (f\<lparr>fr_sequence := n\<rparr>) ?p) = (DEVMGR_OK, ?u)" for n
      using f(2) assms(2) sz get_put_le32 [of "0 :: u32" "[]"]
      by (simp add: devmgr_upgrade_accept_response_def Let_def after_offset_def)
    show "stm32_in_step fl inst ?u ?s" if "job_ok ?u" "steady_driver (uc_flash ?s)"
      using that dev f(4,5) by (simp add: stm32_in_step_def in_update_def open_update_def begin_payload_def up_params_def
          stored_def)
    show "uc_flash ?s = uc_flash s" by (simp add: open_update_def)
  qed (simp_all add: dev)
qed

text \<open>The host's next chunk, as the bootloader sees it.\<close>

definition chunk_bytes :: "devmgr_upgrade \<Rightarrow> bytes" where
  "chunk_bytes u = region (the (up_image_data u)) (unat (up_offset u)) (chunk_len u)"

definition chunk_request :: "devmgr_upgrade \<Rightarrow> devmgr_frame" where
  "chunk_request u = request_frame DEVMGR_MSG_FW_DATA (of_nat (8 + chunk_len u))
     (devmgr_put_le32 (up_session_id u) @ devmgr_put_le32 (up_offset u) @ chunk_bytes u)"

lemma chunk_request_fields:
  assumes "upgrade_inv u" "up_state u = DEVMGR_UPGRADE_TRANSFER"
  shows "fr_type (chunk_request u) = DEVMGR_MSG_FW_DATA" "frame_wf (chunk_request u\<lparr>fr_sequence := n\<rparr>)"
    "data_part (chunk_request u\<lparr>fr_sequence := n\<rparr>) = chunk_bytes u"
    "data_offset (chunk_request u\<lparr>fr_sequence := n\<rparr>) = up_offset u"
    "unat (fr_payload_length (chunk_request u) - 8) = chunk_len u" "\<not> fr_payload_length (chunk_request u) \<le> 8"
    "devmgr_get_le32 (fr_payload (chunk_request u)) = up_session_id u"
    "chunk_bytes u = region (up_image u) (unat (up_offset u)) (chunk_len u)" "length (chunk_bytes u) = chunk_len u"
proof -
  note c = chunk_len_bounds [OF assms]
  show "fr_type (chunk_request u) = DEVMGR_MSG_FW_DATA" "devmgr_get_le32 (fr_payload (chunk_request u)) = up_session_id u"
    by (simp_all add: chunk_request_def request_frame_def)
  have "frame_wf (chunk_request u)"
    using build_request_wf [OF assms(1) build_transfer [OF assms]] by (simp add: chunk_request_def chunk_bytes_def)
  then show wf: "frame_wf (chunk_request u\<lparr>fr_sequence := n\<rparr>)" for n by (simp add: frame_wf_def)
  show "data_part (chunk_request u\<lparr>fr_sequence := n\<rparr>) = chunk_bytes u"
    "data_offset (chunk_request u\<lparr>fr_sequence := n\<rparr>) = up_offset u"
    using data_request [of "devmgr_put_le32 (up_session_id u)" "devmgr_put_le32 (up_offset u)"
        "chunk_request u\<lparr>fr_sequence := n\<rparr>" "chunk_bytes u"]
      wf [of n] get_put_le32 [of "up_offset u" "[]"] by (simp_all add: chunk_request_def request_frame_def)
  have p: "fr_payload_length (chunk_request u) = of_nat (8 + chunk_len u)" by (simp add: chunk_request_def request_frame_def)
  then show l: "\<not> fr_payload_length (chunk_request u) \<le> 8" using c(1,6) by (simp add: word_le_nat_alt)
  show "unat (fr_payload_length (chunk_request u) - 8) = chunk_len u"
    using data_part_length [of "chunk_request u"] \<open>frame_wf (chunk_request u)\<close> l p c(6) by simp
  have "up_image_size u \<le> length (the (up_image_data u))" using assms(1) by (auto simp: upgrade_inv_def upgrade_meta_def)
  then show "length (chunk_bytes u) = chunk_len u" using c(4) by (simp add: chunk_bytes_def)
  show "chunk_bytes u = region (up_image u) (unat (up_offset u)) (chunk_len u)"
    using c(4) by (simp add: up_image_def region_def drop_take min_def chunk_bytes_def)
qed

lemma chunk_request_fits:
  assumes "job_ok u" "up_state u = DEVMGR_UPGRADE_TRANSFER" "in_update fl u s" "uc_state s = STM32_UPDATE_RECEIVING"
  shows "data_fits s (chunk_request u\<lparr>fr_sequence := n\<rparr>)"
proof -
  have inv: "upgrade_inv u" using assms(1) by (simp add: job_ok_def)
  note c = chunk_len_bounds [OF inv assms(2)] and q = chunk_request_fields [OF inv assms(2)]
  have sz: "unat (of_nat (up_image_size u) :: u32) = up_image_size u" using assms(1) by (simp add: job_ok_def unat_of_nat_u32)
  have o: "up_offset u \<le> uc_image_size s" using assms(3) c(4) sz by (simp add: in_update_def word_le_nat_alt)
  then have "unat (uc_image_size s - up_offset u) = up_image_size u - unat (up_offset u)"
    using assms(3) sz by (simp add: in_update_def unat_sub)
  then have "ucast (fr_payload_length (chunk_request u) - 8) \<le> uc_image_size s - up_offset u"
    using q(5) c(4) by (simp add: word_le_nat_alt)
  moreover have "fr_payload_length (chunk_request u) - 8 \<le> uc_chunk_size s"
    using q(5) c(3) assms(3) by (simp add: in_update_def word_le_nat_alt)
  ultimately show ?thesis
    using q(4,6,7) o assms(3,4) unfolding data_fits_def by (simp add: in_update_def)
qed

lemma of_nat_unat_u32: "of_nat (unat x) = (x :: u32)"
  by simp

lemma chunk_written:
  assumes "stm32_in_step fl inst u s" "up_state u = DEVMGR_UPGRADE_TRANSFER"
  obtains c where "\<And>n. stm32_update_handle s (frame_view (chunk_request u\<lparr>fr_sequence := n\<rparr>)) 4112 =
      (Inr (frame_wire (ok_reply (chunk_request u\<lparr>fr_sequence := n\<rparr>) (devmgr_put_le32 (up_offset u + of_nat (chunk_len u))))),
       s\<lparr>uc_flash_context := c, uc_next_offset := up_offset u + of_nat (chunk_len u)\<rparr>)"
proof -
  have st: "in_update fl u s" "uc_state s = STM32_UPDATE_RECEIVING" "job_ok u" "upgrade_inv u" "steady_driver (uc_flash s)"
    using assms by (simp_all add: stm32_in_step_def job_ok_def)
  note q = chunk_request_fields [OF st(4) assms(2)] and fits = chunk_request_fits [OF st(3) assms(2) st(1,2)]
  obtain c where c: "the (fo_write (uc_flash s)) (uc_flash_context s) (up_offset u) (chunk_bytes u) = (0, c)"
    using st(5) unfolding steady_driver_def by (metis prod.collapse)
  have n: "ucast (fr_payload_length (chunk_request u) - 8) = (of_nat (chunk_len u) :: u32)"
    using q(5) by (metis unat_ucast_u16 of_nat_unat_u32)
  have "stm32_update_handle s (frame_view (chunk_request u\<lparr>fr_sequence := n\<rparr>)) 4112 =
      (Inr (frame_wire (ok_reply (chunk_request u\<lparr>fr_sequence := n\<rparr>) (devmgr_put_le32 (up_offset u + of_nat (chunk_len u))))),
       s\<lparr>uc_flash_context := c, uc_next_offset := up_offset u + of_nat (chunk_len u)\<rparr>)" for n
  proof -
    let ?q = "chunk_request u\<lparr>fr_sequence := n\<rparr>"
    have a: "\<not> \<not> (uc_state s = STM32_UPDATE_RECEIVING \<and> \<not> fr_payload_length ?q \<le> 8 \<and>
        devmgr_get_le32 (fr_payload ?q) = uc_session_id s)" "\<not> \<not> data_fits s ?q"
      using fits [of n] by (simp_all add: data_fits_def)
    have o: "up_offset u = uc_next_offset s" "\<not> up_offset u < uc_next_offset s" using st(1) by (simp_all add: in_update_def)
    have t: "fr_type ?q = DEVMGR_MSG_FW_DATA" using q(1) by simp
    show ?thesis
      unfolding trans [OF handle_dispatch(7) [OF t] handle_data_alt [OF q(2)], of s] if_not_P [OF a(1)] if_not_P [OF a(2)]
        q(3,4) if_not_P [OF o(2)] if_P [OF o(1)] c
      using o(1) \<open>ucast _ = _\<close> by (simp add: Let_def)
  qed
  then show thesis by (rule that)
qed

lemma stm32_round_transfer:
  assumes "stm32_in_step fl inst u s" "up_state u = DEVMGR_UPGRADE_TRANSFER"
  shows "stm32_round fl inst u s"
proof -
  have st: "in_update fl u s" "uc_state s = STM32_UPDATE_RECEIVING" "stm32_device fl inst s" "upgrade_inv u" "job_ok u"
    using assms by (simp_all add: stm32_in_step_def job_ok_def)
  note cl = chunk_len_bounds [OF st(4) assms(2)] and q = chunk_request_fields [OF st(4) assms(2)]
  let ?o = "up_offset u + of_nat (chunk_len u)"
  let ?u' = "u\<lparr>up_last_chunk_end := ?o, up_chunks_sent := up_chunks_sent u + 1\<rparr>"
  let ?v = "after_offset (?u'\<lparr>up_offset := ?o\<rparr>)"
  obtain c where c: "\<And>n. stm32_update_handle s (frame_view (chunk_request u\<lparr>fr_sequence := n\<rparr>)) 4112 =
      (Inr (frame_wire (ok_reply (chunk_request u\<lparr>fr_sequence := n\<rparr>) (devmgr_put_le32 ?o))),
       s\<lparr>uc_flash_context := c, uc_next_offset := ?o\<rparr>)"
    using chunk_written [OF assms] by blast
  let ?s = "s\<lparr>uc_flash_context := c, uc_next_offset := ?o\<rparr>"
  have "stm32_answer s (chunk_request u\<lparr>fr_sequence := 0\<rparr>) =
      (Some (ok_reply (chunk_request u\<lparr>fr_sequence := 0\<rparr>) (devmgr_put_le32 ?o)), ?s)"
    by (rule stm32_answer_eq [OF _ c]) simp
  then have law: "stm32_device fl inst ?s" "stored fl ?s = stored fl s \<or> stored fl ?s = stored fl s @ chunk_bytes u"
    using stm32_data_law [OF st(3) q(2) _, of 0] q(1,3) by auto
  have "length (stored fl ?s) = length (stored fl s) + chunk_len u"
    using cl(5) st(1) by (simp add: stored_def in_update_def)
  then have "stored fl ?s = stored fl s @ chunk_bytes u" using law(2) cl(1) by auto
  then have sto: "stored fl ?s = take (unat ?o) (up_image u)"
    using st(1) take_add_region [of "unat (up_offset u)" "chunk_len u" "up_image u"] cl(5) q(8)
    by (simp add: in_update_def)
  show ?thesis
  proof (rule stm32_roundI [OF assms(1) _ c])
    show "devmgr_upgrade_build_request u = (Inr (chunk_request u), ?u')"
      using build_transfer [OF st(4) assms(2)] by (simp add: chunk_request_def chunk_bytes_def)
    show "devmgr_upgrade_accept_response ?u' (fr_type (chunk_request u))
        (ok_reply (chunk_request u\<lparr>fr_sequence := n\<rparr>) (devmgr_put_le32 ?o)) = (DEVMGR_OK, ?v)" for n
      using assms(2) cl(4,5) q(1) get_put_le32 [of ?o "[]"]
      by (simp add: devmgr_upgrade_accept_response_def Let_def)
    show "stm32_in_step fl inst ?v ?s" if "job_ok ?v" "steady_driver (uc_flash ?s)"
      using that law(1) sto st(1,2)
      by (simp add: stm32_in_step_def after_offset_def in_update_def up_image_def)
  qed (simp_all add: law(1))
qed

lemma stm32_in_step_round:
  assumes "stm32_in_step fl inst u s" "up_state u \<noteq> DEVMGR_UPGRADE_COMPLETE"
  shows "stm32_round fl inst u s"
  using stm32_round_enter [OF assms(1)] stm32_round_begin [OF assms(1)] stm32_round_transfer [OF assms(1)]
    stm32_round_end [OF assms(1)] stm32_round_verify [OF assms(1)] stm32_round_activate [OF assms(1)]
    stm32_round_reboot [OF assms(1)] assms
  by (cases "up_state u") (simp_all add: stm32_in_step_def)

subsection \<open>End to end\<close>

lemma stm32_completed:
  assumes "devmgr_upgrade_start u0 (Some img) (length img) crc (Some v) chunk = (DEVMGR_OK, u)"
    and "0 \<notin> set v" and "stm32_update_init ops c = Some s" and "flash_law ops fl inst"
    and "reach (link_step stm32_handler (\<lambda>_. True)) (fresh_link u s) l"
    and "up_state (lk_upgrade l) = DEVMGR_UPGRADE_COMPLETE"
  shows "stored fl (lk_device l) = img \<and> boots inst (lk_device l) = v"
proof -
  have "stm32_device fl inst s" "\<not> update_open s" "\<not> update_sealed s"
    using assms(3,4) by (auto simp: stm32_update_init_def stm32_device_def stm32_inv_def update_open_def update_sealed_def
        split: if_splits)
  then have "stm32dev.link_good fl inst (fresh_link u s)"
    using assms(1,2) by (intro stm32dev.link_start_good) (auto simp: devmgr_session_init_def zero_pending_def)
  then have "stored fl (lk_device l) = up_image (lk_upgrade l)" "boots inst (lk_device l) = up_version (lk_upgrade l)"
    using stm32dev.completed_installs [OF _ assms(5,6)] by simp_all
  moreover have "up_image (lk_upgrade l) = up_image u \<and> up_version (lk_upgrade l) = up_version u"
    using link_reach_meta [OF assms(5)] by simp
  ultimately show ?thesis using upgrade_start_fields [OF assms(1)] by (simp add: up_image_def)
qed

lemma stm32_completes:
  assumes "devmgr_upgrade_start u0 (Some img) (length img) (devmgr_crc32 (Some img)) (Some v) chunk = (DEVMGR_OK, u)"
    and "length img \<le> DEVMGR_FIRMWARE_MAX_SIZE" and "0 \<notin> set v" and "stm32_update_init ops c = Some s"
    and "flash_law ops fl inst" and "steady_driver ops"
  shows "\<exists>l. reach (link_step stm32_handler (\<lambda>_. True)) (fresh_link u s) l \<and> up_state (lk_upgrade l) = DEVMGR_UPGRADE_COMPLETE"
proof -
  note f = upgrade_start_fields [OF assms(1)]
  have "upgrade_inv u" using upgrade_start_inv [OF assms(1)] by simp
  then have i: "stm32_in_step fl inst u s"
    using assms f by (auto simp: stm32_in_step_def job_ok_def up_image_def stm32_update_init_def stm32_device_def
        stm32_inv_def split: if_splits)
  have "\<not> pe_active (se_pending devmgr_session_init)" by (simp add: devmgr_session_init_def zero_pending_def)
  then have "\<exists>u' se' s'. up_state u' = DEVMGR_UPGRADE_COMPLETE \<and>
    reach (link_step stm32_handler (\<lambda>_. True)) (fresh_link u s) \<lparr>lk_upgrade = u', lk_session = se', lk_out = [], lk_device = s', lk_in = []\<rparr>"
    using rounds_complete [of "stm32_in_step fl inst" stm32_handler "()" "\<lambda>_. True" u s devmgr_session_init]
      stm32_in_step_round i
    unfolding stm32_round_def by (fastforce simp: stm32_in_step_def job_ok_def)
  then show ?thesis by force
qed

subsection \<open>Activation\<close>

text \<open>A driver whose failed erase leaves the image area as it was.\<close>

definition erase_atomic :: "'c stm32_flash_ops \<Rightarrow> ('c \<Rightarrow> nat \<Rightarrow> byte) \<Rightarrow> bool" where
  "erase_atomic ops fl \<longleftrightarrow> (\<forall>c n. fst (the (fo_erase ops) c n) \<noteq> 0 \<longrightarrow> fl (snd (the (fo_erase ops) c n)) = fl c)"

text \<open>Serving a sequence of requests.\<close>

fun stm32_serve :: "'c stm32_update_context \<Rightarrow> devmgr_frame list \<Rightarrow> 'c stm32_update_context" where
  "stm32_serve u [] = u"
| "stm32_serve u (q # qs) = stm32_serve (snd (stm32_answer u q)) qs"

definition image_checked :: "('c \<Rightarrow> nat \<Rightarrow> byte) \<Rightarrow> 'c stm32_update_context \<Rightarrow> bool" where
  "image_checked fl u \<longleftrightarrow> (uc_state u = STM32_UPDATE_VERIFIED \<longrightarrow>
     devmgr_crc32 (Some (map (fl (uc_flash_context u)) [0..<unat (uc_image_size u)])) = uc_image_crc u)"

definition checked_device :: "('c \<Rightarrow> nat \<Rightarrow> byte) \<Rightarrow> ('c \<Rightarrow> bytes) \<Rightarrow> 'c stm32_flash_ops \<Rightarrow> 'c stm32_update_context \<Rightarrow> bool" where
  "checked_device fl inst ops u \<longleftrightarrow> uc_flash u = ops \<and> flash_law ops fl inst \<and> erase_atomic ops fl \<and> image_checked fl u"

lemma checked_same:
  "checked_device fl inst ops u \<Longrightarrow> fl c = fl (uc_flash_context u) \<Longrightarrow> checked_device fl inst ops (u\<lparr>uc_flash_context := c\<rparr>)"
  by (simp add: checked_device_def image_checked_def)

lemma checked_begin:
  assumes d: "checked_device fl inst ops u" and t: "fr_type q = DEVMGR_MSG_FW_BEGIN" and a: "stm32_answer u q = (ro, u')"
  shows "checked_device fl inst ops u'"
proof -
  note h = trans [OF handle_dispatch(6) [OF t] handle_begin_alt, of u] and ap = answer_pair [OF _ _ a]
  obtain rc c where er: "the (fo_erase (uc_flash u)) (uc_flash_context u) (devmgr_get_le32 (fr_payload q)) = (rc, c)"
    by (rule prod.exhaust)
  have at: "rc \<noteq> 0 \<Longrightarrow> fl c = fl (uc_flash_context u)"
    using d er unfolding checked_device_def erase_atomic_def by (metis fst_conv snd_conv)
  have "u' = u \<or> rc \<noteq> 0 \<and> u' = u\<lparr>uc_flash_context := c\<rparr> \<or> u' = open_update u c (fr_payload q)"
  proof (cases "\<not> begin_admitted q")
    case True
    show ?thesis using ap [OF h [unfolded if_P [OF True]]] by simp
  next
    case False
    note h1 = h [unfolded if_not_P [OF False]]
    show ?thesis
    proof (cases "uc_state u = STM32_UPDATE_RECEIVING \<and> stm32_announced u = begin_payload (fr_payload q)")
      case True
      show ?thesis using ap [OF h1 [unfolded if_P [OF True]]] by simp
    next
      case not_same: False
      note h2 = h1 [unfolded if_not_P [OF not_same] er prod.case]
      show ?thesis
      proof (cases "rc \<noteq> 0")
        case True
        show ?thesis using ap [OF h2 [unfolded if_P [OF True]]] True by simp
      next
        case ok: False
        show ?thesis using ap [OF h2 [unfolded if_not_P [OF ok]]] by simp
      qed
    qed
  qed
  then show ?thesis
    using d checked_same [OF d at] by (auto simp: checked_device_def image_checked_def open_update_def)
qed

lemma checked_data:
  assumes d: "checked_device fl inst ops u" and wf: "frame_wf q" and t: "fr_type q = DEVMGR_MSG_FW_DATA"
    and a: "stm32_answer u q = (ro, u')"
  shows "checked_device fl inst ops u'"
proof -
  have law: "flash_law (uc_flash u) fl inst" using d by (simp add: checked_device_def)
  obtain res u1 where h: "handle_data u (frame_view q) 4112 = (res, u1)" by (rule prod.exhaust)
  note h' = trans [OF handle_dispatch(7) [OF t] h]
  show ?thesis
  proof (cases "uc_state u = STM32_UPDATE_RECEIVING")
    case True
    from law wf h have "\<exists>c v. u' = u\<lparr>uc_flash_context := c, uc_next_offset := v\<rparr>"
    proof (cases rule: handle_data_effect)
      case (refused k c)
      then have "u' = u\<lparr>uc_flash_context := c, uc_next_offset := uc_next_offset u\<rparr>"
        using answer_of_handle [OF h' [unfolded refused(1)] _ a] by simp
      then show ?thesis by blast
    next
      case (repeated c)
      then have "u' = u\<lparr>uc_flash_context := c, uc_next_offset := uc_next_offset u\<rparr>"
        using answer_of_handle [OF h' [unfolded repeated(2)] _ a] by simp
      then show ?thesis by blast
    next
      case (appended c v)
      then show ?thesis using answer_of_handle [OF h' [unfolded appended(4)] _ a] by auto
    qed
    then show ?thesis using d True by (auto simp: checked_device_def image_checked_def)
  next
    case False
    then have "\<not> (uc_state u = STM32_UPDATE_RECEIVING \<and> \<not> fr_payload_length q \<le> 8 \<and> devmgr_get_le32 (fr_payload q) = uc_session_id u)"
      by simp
    then have "u' = u" using answer_pair [OF trans [OF handle_dispatch(7) [OF t] trans [OF handle_data_alt [OF wf] if_P]] _ a] by simp
    then show ?thesis using d by simp
  qed
qed

lemma checked_simple:
  assumes d: "checked_device fl inst ops u" and t: "simple_request (fr_type q)" and a: "stm32_answer u q = (ro, u')"
  shows "checked_device fl inst ops u'"
proof -
  have law: "flash_law (uc_flash u) fl inst" using d by (simp add: checked_device_def)
  note defs = checked_device_def image_checked_def
  consider "fr_type q = DEVMGR_MSG_FW_END" | "fr_type q = DEVMGR_MSG_FW_VERIFY" | "fr_type q = DEVMGR_MSG_FW_ACTIVATE"
    | "fr_type q = DEVMGR_MSG_ENTER_BOOTLOADER \<or> fr_type q = DEVMGR_MSG_FW_STATUS \<or> fr_type q = DEVMGR_MSG_REBOOT"
    using t by (auto simp: simple_request_def)
  then show ?thesis
  proof cases
    case 1
    from 1 a show ?thesis by (cases rule: end_effect) (use d in \<open>auto simp: defs\<close>)
  next
    case 2
    from law 2 a show ?thesis by (cases rule: verify_effect) (use d in \<open>auto simp: defs\<close>)
  next
    case 3
    from law 3 a show ?thesis by (cases rule: activate_effect) (use d in \<open>auto simp: defs\<close>)
  next
    case 4
    from law a 4 show ?thesis by (cases rule: passive_effect) (use d in \<open>auto simp: defs\<close>)
  qed
qed

lemma unknown_request:
  assumes "\<not> simple_request (fr_type q)" "fr_type q \<noteq> DEVMGR_MSG_FW_BEGIN" "fr_type q \<noteq> DEVMGR_MSG_FW_DATA"
  shows "stm32_answer u q = (Some (nack_reply q NACK_INVALID_PAYLOAD), u)"
  using assms by (intro stm32_answer_eq) (simp_all add: simple_request_def stm32_update_handle_def)

lemma checked_serve:
  "checked_device fl inst ops u \<Longrightarrow> \<forall>q \<in> set qs. frame_wf q \<Longrightarrow> checked_device fl inst ops (stm32_serve u qs)"
proof (induction qs arbitrary: u)
  case (Cons q qs)
  obtain ro u1 where a: "stm32_answer u q = (ro, u1)" by (rule prod.exhaust)
  have "checked_device fl inst ops u1"
    using checked_begin [OF Cons.prems(1) _ a] checked_data [OF Cons.prems(1) _ _ a] checked_simple [OF Cons.prems(1) _ a]
      unknown_request [of q u] a Cons.prems by fastforce
  then show ?case using Cons a by simp
qed simp

subsection \<open>A driver over a byte array\<close>

text \<open>Flash as an array of bytes beside the version that boots; no operation fails.\<close>

type_synonym array_context = "(nat \<Rightarrow> byte) \<times> bytes"

definition array_flash :: "array_context stm32_flash_ops" where
  "array_flash = \<lparr>
     fo_erase = Some (\<lambda>c n. (0, (\<lambda>i. if i < unat n then 0xFF else fst c i), snd c)),
     fo_write = Some (\<lambda>c off d. (0, (\<lambda>i. if unat off \<le> i \<and> i < unat off + length d then d ! (i - unat off) else fst c i), snd c)),
     fo_read = Some (\<lambda>c off n. (0, map (\<lambda>i. fst c (unat off + i)) [0..<unat n], c)),
     fo_crc32 = Some (\<lambda>c n. (devmgr_crc32 (Some (map (fst c) [0..<unat n])), c)),
     fo_activate = Some (\<lambda>c n crc v. (0, fst c, v)),
     fo_reboot = Some (\<lambda>c. c)\<rparr>"

definition blank_context :: array_context where
  "blank_context = ((\<lambda>_. 0xFF), [0x31])"

definition blank_bootloader :: "array_context stm32_update_context" where
  "blank_bootloader = the (stm32_update_init array_flash blank_context)"

lemma array_flash_laws:
  "flash_law array_flash fst snd" "steady_driver array_flash" "erase_atomic array_flash fst"
  "stm32_update_init array_flash blank_context = Some blank_bootloader"
  by (auto simp: flash_law_def array_flash_def write_law_def read_law_def crc_law_def activate_law_def
      steady_driver_def erase_atomic_def blank_bootloader_def stm32_update_init_def)

definition array_job :: devmgr_upgrade where
  "array_job = snd (devmgr_upgrade_start devmgr_upgrade_init (Some [1, 2, 3]) 3 (devmgr_crc32 (Some [1, 2, 3]))
     (Some [0x32]) 2)"

lemma array_job_start:
  "devmgr_upgrade_start devmgr_upgrade_init (Some [1, 2, 3]) (length [1, 2, 3 :: byte]) (devmgr_crc32 (Some [1, 2, 3]))
     (Some [0x32]) 2 = (DEVMGR_OK, array_job)"
  by (simp add: array_job_def devmgr_upgrade_start_def)

subsection \<open>The properties\<close>

text \<open>
  Upgrades of the STM32 device are correct end to end. Host and bootloader talk over lines that
  deliver in order but may lose frames; requests are retransmitted, time out and recover. For every
  flash driver that stores what it reports as written (\<open>flash_law\<close>), if the host reaches \<open>COMPLETE\<close>
  then the flash holds exactly the firmware image and the requested version boots next, starting
  from a freshly initialised bootloader.
\<close>

theorem stm32_upgrade_installs:
  assumes "devmgr_upgrade_start u0 (Some img) (length img) crc (Some v) chunk = (DEVMGR_OK, u)"
    and "0 \<notin> set v" and "stm32_update_init ops c = Some s" and "flash_law ops fl inst"
    and "reach (link_step stm32_handler (\<lambda>_. True)) (fresh_link u s) l"
    and "up_state (lk_upgrade l) = DEVMGR_UPGRADE_COMPLETE"
  shows "stored fl (lk_device l) = img \<and> boots inst (lk_device l) = v"
  by (rule stm32_completed [OF assms])

theorem stm32_upgrade_installs_witness:
  "\<exists>l. reach (link_step stm32_handler (\<lambda>_. True)) (fresh_link array_job blank_bootloader) l \<and>
    stored fst (lk_device l) = [1, 2, 3] \<and> boots snd (lk_device l) = [0x32]"
proof -
  have v: "0 \<notin> set [0x32 :: byte]" "length [1, 2, 3 :: byte] \<le> DEVMGR_FIRMWARE_MAX_SIZE" by simp_all
  obtain l where l: "reach (link_step stm32_handler (\<lambda>_. True)) (fresh_link array_job blank_bootloader) l"
    "up_state (lk_upgrade l) = DEVMGR_UPGRADE_COMPLETE"
    using stm32_completes [OF array_job_start v(2,1) array_flash_laws(4,1,2)] by blast
  then show ?thesis
    using stm32_upgrade_installs [OF array_job_start v(1) array_flash_laws(4,1) l] by blast
qed




text \<open>
  A retransmitted \<open>FW_END\<close> is refused. Once the bootloader has accepted \<open>FW_END\<close>, the same
  request sent again, as the host does when the response is lost, is answered with
  \<open>NACK\<close> rather than with the response of the first; so is a retransmitted \<open>FW_VERIFY\<close>.
\<close>

theorem stm32_retry_refused:
  assumes "fr_type q = DEVMGR_MSG_FW_END \<or> fr_type q = DEVMGR_MSG_FW_VERIFY"
    and "fr_type q2 = fr_type q" and "flash_law (uc_flash u) fl inst"
    and "stm32_answer u q = (Some r, u1)" and "fr_type r = fr_type q"
  shows "\<exists>k. stm32_answer u1 q2 = (Some (nack_reply q2 k), u1)"
  using assms(1)
proof
  assume t: "fr_type q = DEVMGR_MSG_FW_END"
  have "uc_state u1 = STM32_UPDATE_TRANSFERRED"
    using t assms(4) by (cases rule: end_effect) (use assms(5) t in auto)
  moreover have "fr_type q2 = DEVMGR_MSG_FW_END" using t assms(2) by simp
  ultimately have "stm32_update_handle u1 (frame_view q2) 4112 = (Inr (frame_wire (nack_reply q2 NACK_OFFSET)), u1)"
    using trans [OF handle_dispatch(2) update_end_alt, of q2 u1] by simp
  then show ?thesis using stm32_answer_eq [OF reply_wf(2)] by blast
next
  assume t: "fr_type q = DEVMGR_MSG_FW_VERIFY"
  have "uc_state u1 = STM32_UPDATE_VERIFIED"
    using assms(3) t assms(4) by (cases rule: verify_effect) (use assms(5) t in auto)
  moreover have "fr_type q2 = DEVMGR_MSG_FW_VERIFY" using t assms(2) by simp
  ultimately have "stm32_update_handle u1 (frame_view q2) 4112 = (Inr (frame_wire (nack_reply q2 NACK_VERIFY)), u1)"
    using trans [OF handle_dispatch(3) update_verify_alt, of q2 u1] by simp
  then show ?thesis using stm32_answer_eq [OF reply_wf(2)] by blast
qed

definition full_bootloader :: "array_context stm32_update_context" where
  "full_bootloader = blank_bootloader\<lparr>uc_state := STM32_UPDATE_RECEIVING, uc_image_size := 2, uc_next_offset := 2,
     uc_image_crc := devmgr_crc32 (Some [0xFF, 0xFF]), uc_pending_version := [0x32]\<rparr>"

lemma full_bootloader_fields:
  "uc_state full_bootloader = STM32_UPDATE_RECEIVING" "uc_next_offset full_bootloader = uc_image_size full_bootloader"
  "uc_flash full_bootloader = array_flash"
  by (simp_all add: full_bootloader_def blank_bootloader_def stm32_update_init_def array_flash_def)

definition end_request :: devmgr_frame where
  "end_request = request_frame DEVMGR_MSG_FW_END 0 []"

theorem stm32_retry_refused_witness:
  "\<exists>u1 k. stm32_answer full_bootloader end_request = (Some (ok_reply end_request []), u1) \<and>
     stm32_answer u1 end_request = (Some (nack_reply end_request k), u1)"
proof -
  have t: "fr_type end_request = DEVMGR_MSG_FW_END" by (simp add: end_request_def request_frame_def)
  have a: "stm32_answer full_bootloader end_request =
      (Some (ok_reply end_request []), full_bootloader\<lparr>uc_state := STM32_UPDATE_TRANSFERRED\<rparr>)"
    using trans [OF handle_dispatch(2) [OF t] update_end_alt, of full_bootloader]
    by (intro stm32_answer_eq) (simp_all add: full_bootloader_fields)
  have law: "flash_law (uc_flash full_bootloader) fst snd" using array_flash_laws(1) by (simp add: full_bootloader_fields)
  show ?thesis using stm32_retry_refused [OF disjI1 [OF t] refl law a] a t by auto
qed

definition tiny_requests :: "devmgr_frame list" where
  "tiny_requests =
     [request_frame DEVMGR_MSG_FW_BEGIN 12 (devmgr_put_le32 1 @ devmgr_put_le32 (devmgr_crc32 (Some [7])) @ devmgr_put_le16 1 @ [0x32, 0]),
      request_frame DEVMGR_MSG_FW_DATA 9 [2, 0, 0, 0, 0, 0, 0, 0, 7],
      request_frame DEVMGR_MSG_FW_END 0 [],
      request_frame DEVMGR_MSG_FW_VERIFY 0 []]"

text \<open>The bootloader's answers when each check passes.\<close>

lemma begin_opens:
  assumes "fr_type q = DEVMGR_MSG_FW_BEGIN" "begin_admitted q" "uc_state u = STM32_UPDATE_IDLE"
    "the (fo_erase (uc_flash u)) (uc_flash_context u) (devmgr_get_le32 (fr_payload q)) = (0, c)"
  shows "stm32_answer u q = (Some (ok_reply q (devmgr_put_le32 (uc_session_id (open_update u c (fr_payload q))) @
    devmgr_put_le32 0)), open_update u c (fr_payload q))"
  using trans [OF handle_dispatch(6) [OF assms(1)] handle_begin_alt, of u] assms by (intro stm32_answer_eq) simp_all

lemma end_accepts:
  assumes "fr_type q = DEVMGR_MSG_FW_END" "uc_state u = STM32_UPDATE_RECEIVING" "uc_next_offset u = uc_image_size u"
  shows "stm32_answer u q = (Some (ok_reply q []), u\<lparr>uc_state := STM32_UPDATE_TRANSFERRED\<rparr>)"
  using trans [OF handle_dispatch(2) [OF assms(1)] update_end_alt, of u] assms by (intro stm32_answer_eq) simp_all

lemma verify_accepts:
  assumes "fr_type q = DEVMGR_MSG_FW_VERIFY" "uc_state u = STM32_UPDATE_TRANSFERRED"
    "the (fo_crc32 (uc_flash u)) (uc_flash_context u) (uc_image_size u) = (uc_image_crc u, c)"
  shows "stm32_answer u q = (Some (ok_reply q (devmgr_put_le32 (uc_image_crc u))),
     u\<lparr>uc_flash_context := c, uc_state := STM32_UPDATE_VERIFIED\<rparr>)"
  using trans [OF handle_dispatch(3) [OF assms(1)] update_verify_alt, of u] assms by (intro stm32_answer_eq) simp_all

lemma activate_accepts:
  assumes "fr_type q = DEVMGR_MSG_FW_ACTIVATE" "uc_state u = STM32_UPDATE_VERIFIED"
    "the (fo_activate (uc_flash u)) (uc_flash_context u) (uc_image_size u) (uc_image_crc u) (uc_pending_version u) = (0, c)"
  shows "stm32_answer u q = (Some (ok_reply q []), u\<lparr>uc_flash_context := c\<rparr>)"
  using trans [OF handle_dispatch(4) [OF assms(1)] update_activate_alt, of u] assms by (intro stm32_answer_eq) simp_all

lemma data_accepts:
  assumes "fr_type q = DEVMGR_MSG_FW_DATA" "frame_wf q" "data_fits u q" "data_offset q = uc_next_offset u"
    "the (fo_write (uc_flash u)) (uc_flash_context u) (data_offset q) (data_part q) = (0, c)"
  shows "stm32_answer u q = (Some (ok_reply q (devmgr_put_le32 (uc_next_offset u + ucast (fr_payload_length q - 8)))),
    u\<lparr>uc_flash_context := c, uc_next_offset := uc_next_offset u + ucast (fr_payload_length q - 8)\<rparr>)"
  using trans [OF handle_dispatch(7) [OF assms(1)] handle_data_alt [OF assms(2)], of u] assms
  by (intro stm32_answer_eq) (simp_all add: data_fits_def Let_def)

lemma tiny_serve:
  obtains f where "stm32_serve blank_bootloader tiny_requests =
    \<lparr>uc_flash = array_flash, uc_flash_context = (f, [0x31]), uc_state = STM32_UPDATE_VERIFIED, uc_session_id = 2,
     uc_image_size = 1, uc_image_crc = devmgr_crc32 (Some [7]), uc_next_offset = 1, uc_chunk_size = 1, uc_pending_version = [0x32]\<rparr>"
proof -
  let ?b = "\<lambda>f st n. \<lparr>uc_flash = array_flash, uc_flash_context = (f, [0x31]), uc_state = st, uc_session_id = 2,
     uc_image_size = 1, uc_image_crc = devmgr_crc32 (Some [7]), uc_next_offset = n, uc_chunk_size = 1, uc_pending_version = [0x32]\<rparr>"
  let ?q = "\<lambda>i. tiny_requests ! i"
  let ?g = "(\<lambda>i :: nat. if i < 1 then 7 else 0xFF :: byte)"
  have q: "tiny_requests = [?q 0, ?q 1, ?q 2, ?q 3]" by (simp add: tiny_requests_def)
  have blank: "blank_bootloader = \<lparr>uc_flash = array_flash, uc_flash_context = ((\<lambda>_. 0xFF), [0x31]), uc_state = STM32_UPDATE_IDLE,
     uc_session_id = 1, uc_image_size = 0, uc_image_crc = 0, uc_next_offset = 0, uc_chunk_size = 0, uc_pending_version = []\<rparr>"
    by (simp add: blank_bootloader_def stm32_update_init_def array_flash_def blank_context_def)
  have 1: "snd (stm32_answer blank_bootloader (?q 0)) = ?b (\<lambda>_. 0xFF) STM32_UPDATE_RECEIVING 0"
  proof (subst begin_opens)
    show "the (fo_erase (uc_flash blank_bootloader)) (uc_flash_context blank_bootloader)
        (devmgr_get_le32 (fr_payload (?q 0))) = (0, (\<lambda>_. 0xFF), [0x31])"
      by (simp add: blank array_flash_def cong: if_cong)
  qed (simp_all add: blank tiny_requests_def request_frame_def begin_admitted_def open_update_def cstr_def)
  have 2: "snd (stm32_answer (?b (\<lambda>_. 0xFF) STM32_UPDATE_RECEIVING 0) (?q 1)) = ?b ?g STM32_UPDATE_RECEIVING 1"
  proof (subst data_accepts)
    show "frame_wf (?q 1)" by (simp add: tiny_requests_def request_frame_def frame_wf_def)
    show "data_fits (?b (\<lambda>_. 0xFF) STM32_UPDATE_RECEIVING 0) (?q 1)"
      by (simp add: data_fits_def data_offset_def tiny_requests_def request_frame_def devmgr_get_le32_def)
    have d: "data_part (?q 1) = [7]" "data_offset (?q 1) = 0"
      by (simp_all add: data_part_def data_offset_def tiny_requests_def request_frame_def devmgr_get_le32_def region_def)
    show "data_offset (?q 1) = uc_next_offset (?b (\<lambda>_. 0xFF) STM32_UPDATE_RECEIVING 0)" unfolding d by simp
    show "the (fo_write (uc_flash (?b (\<lambda>_. 0xFF) STM32_UPDATE_RECEIVING 0)))
        (uc_flash_context (?b (\<lambda>_. 0xFF) STM32_UPDATE_RECEIVING 0)) (data_offset (?q 1)) (data_part (?q 1)) = (0, ?g, [0x31])"
      unfolding d by (simp add: array_flash_def fun_eq_iff)
  qed (simp_all add: tiny_requests_def request_frame_def)
  have 3: "snd (stm32_answer (?b ?g STM32_UPDATE_RECEIVING 1) (?q 2)) = ?b ?g STM32_UPDATE_TRANSFERRED 1"
    by (subst end_accepts) (simp_all add: tiny_requests_def request_frame_def)
  have 4: "snd (stm32_answer (?b ?g STM32_UPDATE_TRANSFERRED 1) (?q 3)) = ?b ?g STM32_UPDATE_VERIFIED 1"
    by (subst verify_accepts [where c = "(?g, [0x31])"]) (simp_all add: tiny_requests_def request_frame_def array_flash_def)
  show thesis by (rule that [of ?g]) (subst q, simp only: stm32_serve.simps 1 2 3 4)
qed

lemma tiny_activation:
  "fst (stm32_answer (stm32_serve blank_bootloader tiny_requests) (request_frame DEVMGR_MSG_FW_ACTIVATE 0 [])) =
   Some (ok_reply (request_frame DEVMGR_MSG_FW_ACTIVATE 0 []) [])"
proof -
  obtain f where s: "stm32_serve blank_bootloader tiny_requests =
    \<lparr>uc_flash = array_flash, uc_flash_context = (f, [0x31]), uc_state = STM32_UPDATE_VERIFIED, uc_session_id = 2,
     uc_image_size = 1, uc_image_crc = devmgr_crc32 (Some [7]), uc_next_offset = 1, uc_chunk_size = 1, uc_pending_version = [0x32]\<rparr>"
    by (rule tiny_serve)
  show ?thesis unfolding s
    by (subst activate_accepts [where c = "(f, [0x32])"]) (simp_all add: request_frame_def array_flash_def)
qed


text \<open>
  A failed erase leaves a verified session that can still be activated. When \<open>FW_BEGIN\<close> arrives in
  state \<open>VERIFIED\<close> and the driver's erase fails, the bootloader answers \<open>NACK\<close> but stays in
  \<open>VERIFIED\<close>, with whatever the driver left of the flash, and the next \<open>FW_ACTIVATE\<close> reaches the
  driver with the old size, checksum and version.
\<close>

theorem stm32_failed_erase_activates:
  assumes "uc_state u = STM32_UPDATE_VERIFIED" and "fr_type q = DEVMGR_MSG_FW_BEGIN" and "begin_admitted q"
    and "the (fo_erase (uc_flash u)) (uc_flash_context u) (devmgr_get_le32 (fr_payload q)) = (rc, c)" and "rc \<noteq> 0"
    and "fr_type q2 = DEVMGR_MSG_FW_ACTIVATE"
    and "the (fo_activate (uc_flash u)) c (uc_image_size u) (uc_image_crc u) (uc_pending_version u) = (0, c2)"
  shows "stm32_answer u q = (Some (nack_reply q NACK_STORAGE), u\<lparr>uc_flash_context := c\<rparr>) \<and>
    stm32_answer (u\<lparr>uc_flash_context := c\<rparr>) q2 = (Some (ok_reply q2 []), u\<lparr>uc_flash_context := c2\<rparr>)"
proof
  show "stm32_answer u q = (Some (nack_reply q NACK_STORAGE), u\<lparr>uc_flash_context := c\<rparr>)"
    using trans [OF handle_dispatch(6) [OF assms(2)] handle_begin_alt, of u] assms
    by (intro stm32_answer_eq) simp_all
  show "stm32_answer (u\<lparr>uc_flash_context := c\<rparr>) q2 = (Some (ok_reply q2 []), u\<lparr>uc_flash_context := c2\<rparr>)"
    using trans [OF handle_dispatch(4) [OF assms(6)] update_activate_alt, of "u\<lparr>uc_flash_context := c\<rparr>"] assms
    by (intro stm32_answer_eq) simp_all
qed

text \<open>A driver whose image area has four bytes: a longer erase wipes them and fails.\<close>

definition small_flash :: "array_context stm32_flash_ops" where
  "small_flash = array_flash\<lparr>fo_erase :=
     Some (\<lambda>c n. (if unat n \<le> 4 then 0 else -1, (\<lambda>i. if i < unat n then 0xFF else fst c i), snd c))\<rparr>"

definition verified_bootloader :: "array_context stm32_update_context" where
  "verified_bootloader = \<lparr>uc_flash = small_flash, uc_flash_context = ((\<lambda>_. 7), [0x31]), uc_state = STM32_UPDATE_VERIFIED,
     uc_session_id = 2, uc_image_size = 1, uc_image_crc = devmgr_crc32 (Some [7]), uc_next_offset = 1, uc_chunk_size = 1,
     uc_pending_version = [0x32]\<rparr>"

definition large_begin :: devmgr_frame where
  "large_begin = request_frame DEVMGR_MSG_FW_BEGIN 12 [5, 0, 0, 0, 0, 0, 0, 0, 1, 0, 0x33, 0]"

theorem stm32_failed_erase_activates_witness:
  "\<exists>u1 u2. stm32_answer verified_bootloader large_begin = (Some (nack_reply large_begin NACK_STORAGE), u1) \<and>
     stm32_answer u1 (request_frame DEVMGR_MSG_FW_ACTIVATE 0 []) = (Some (ok_reply (request_frame DEVMGR_MSG_FW_ACTIVATE 0 []) []), u2) \<and>
     devmgr_crc32 (Some (map (fst (uc_flash_context u2)) [0..<unat (uc_image_size u2)])) \<noteq> uc_image_crc u2 \<and>
     boots snd u2 = [0x32]"
proof -
  let ?q = "request_frame DEVMGR_MSG_FW_ACTIVATE 0 []"
  let ?c = "((\<lambda>i :: nat. if i < 5 then 0xFF else 7 :: byte), [0x31 :: byte])"
  have e: "the (fo_erase (uc_flash verified_bootloader)) (uc_flash_context verified_bootloader)
      (devmgr_get_le32 (fr_payload large_begin)) = (-1, ?c)"
    "the (fo_activate (uc_flash verified_bootloader)) ?c (uc_image_size verified_bootloader) (uc_image_crc verified_bootloader)
      (uc_pending_version verified_bootloader) = (0, fst ?c, [0x32])"
    by (simp_all add: verified_bootloader_def small_flash_def array_flash_def large_begin_def request_frame_def
        devmgr_get_le32_def cong: if_cong)
  have t: "uc_state verified_bootloader = STM32_UPDATE_VERIFIED" "fr_type large_begin = DEVMGR_MSG_FW_BEGIN"
    "begin_admitted large_begin" "fr_type ?q = DEVMGR_MSG_FW_ACTIVATE"
    by (simp_all add: verified_bootloader_def large_begin_def request_frame_def begin_admitted_def devmgr_get_le32_def
        devmgr_get_le16_def)
  have crc: "devmgr_crc32 (Some [0xFF]) \<noteq> devmgr_crc32 (Some [7])" by code_simp
  show ?thesis
    using stm32_failed_erase_activates [OF t(1-3) e(1) _ t(4) e(2)] crc
    by (auto simp: verified_bootloader_def boots_def)
qed

text \<open>
  C16. The STM32 port speaks the host's protocol. Its checksum is the host's; its decoder accepts
  exactly the byte strings the host's decoder accepts, with the same fields; its encoder writes,
  for every frame and buffer size, the bytes the host's encoder writes, or both refuse.
\<close>

theorem stm32_codec_equals_host:
  assumes "length (fr_payload f) = unat (fr_payload_length f)"
  shows "stm32_crc32 data = devmgr_crc32 (Some data) \<and>
    (case devmgr_frame_decode data of Inl e \<Rightarrow> \<exists>n. stm32_frame_decode data = Inl n
      | Inr g \<Rightarrow> stm32_frame_decode data = Inr (frame_view g)) \<and>
    stm32_frame_encode (fr_type f) (fr_flags f) (fr_sequence f) (Some (fr_payload f)) (fr_payload_length f) capacity =
      (case devmgr_frame_encode f capacity of Inl e \<Rightarrow> Inl (-1) | Inr w \<Rightarrow> Inr w)"
proof (intro conjI stm32_decode_host)
  have "fr_payload_length f = 0 \<Longrightarrow> fr_payload f = []" using assms by simp
  then show "stm32_frame_encode (fr_type f) (fr_flags f) (fr_sequence f) (Some (fr_payload f)) (fr_payload_length f) capacity =
      (case devmgr_frame_encode f capacity of Inl e \<Rightarrow> Inl (-1) | Inr w \<Rightarrow> Inr w)"
    using assms by (auto simp: stm32_frame_encode_def devmgr_frame_encode_def frame_body_def Let_def)
qed simp

theorem stm32_codec_equals_host_witness:
  "stm32_frame_encode DEVMGR_MSG_FW_END 0 1 (Some []) 0 15 = Inl (-1) \<and>
   stm32_frame_encode DEVMGR_MSG_FW_END 0 1 (Some []) 0 16 =
     (case devmgr_frame_encode (request_frame DEVMGR_MSG_FW_END 0 []\<lparr>fr_flags := 0, fr_sequence := 1\<rparr>) 16 of
        Inl e \<Rightarrow> Inl (-1) | Inr w \<Rightarrow> Inr w)"
  using stm32_codec_equals_host [of "request_frame DEVMGR_MSG_FW_END 0 []\<lparr>fr_flags := 0, fr_sequence := 1\<rparr>" "[]" 15]
    stm32_codec_equals_host [of "request_frame DEVMGR_MSG_FW_END 0 []\<lparr>fr_flags := 0, fr_sequence := 1\<rparr>" "[]" 16]
  by (simp add: request_frame_def devmgr_frame_encode_def Let_def)

end
