(* ===== verification/Log.thy ===== *)
theory Log
  imports Prelude
begin

section \<open>Logging (include/devmgr/log.h, src/common/log.c)\<close>

text \<open>
  The level filter and the layout of a line. Levels are the C integers, since the code checks their
  range; the atomic \<open>current_level\<close> is passed and returned. \<open>local_time\<close> is the formatted time,
  \<open>None\<close> when \<open>localtime\<close> fails, and \<open>message\<close> the text of the formatted arguments.
\<close>

abbreviation (input) DEVMGR_LOG_ERROR :: int where "DEVMGR_LOG_ERROR \<equiv> 0"
abbreviation (input) DEVMGR_LOG_WARN :: int where "DEVMGR_LOG_WARN \<equiv> 1"
abbreviation (input) DEVMGR_LOG_INFO :: int where "DEVMGR_LOG_INFO \<equiv> 2"
abbreviation (input) DEVMGR_LOG_DEBUG :: int where "DEVMGR_LOG_DEBUG \<equiv> 3"
abbreviation (input) DEVMGR_LOG_TRACE :: int where "DEVMGR_LOG_TRACE \<equiv> 4"

definition initial_level :: int where
  "initial_level = DEVMGR_LOG_INFO"

definition devmgr_log_set_level :: "int \<Rightarrow> int \<Rightarrow> int" where
  "devmgr_log_set_level current level =
    (if level \<ge> DEVMGR_LOG_ERROR \<and> level \<le> DEVMGR_LOG_TRACE then level else current)"

definition devmgr_log_get_level :: "int \<Rightarrow> int" where
  "devmgr_log_get_level current = current"

definition level_names :: "string list" where
  "level_names = [''ERROR'', ''WARN'', ''INFO'', ''DEBUG'', ''TRACE'']"

text \<open>\<open>%-5s\<close>: padded with blanks on the right.\<close>

definition left_justify :: "nat \<Rightarrow> string \<Rightarrow> string" where
  "left_justify width s = s @ replicate (width - length s) CHR '' ''"

definition devmgr_log_vwrite :: "int \<Rightarrow> int \<Rightarrow> string ptr \<Rightarrow> string ptr \<Rightarrow> string option \<Rightarrow> string" where
  "devmgr_log_vwrite current level component message local_time =
    (if level > devmgr_log_get_level current \<or> level < DEVMGR_LOG_ERROR \<or> level > DEVMGR_LOG_TRACE \<or> message = None
     then []
     else
       let timestamp = (case local_time of Some t \<Rightarrow> t | None \<Rightarrow> ''unknown-time'') in
       timestamp @ '' '' @ left_justify 5 (level_names ! nat level) @ '' ['' @
       (case component of None \<Rightarrow> ''core'' | Some c \<Rightarrow> c) @ ''] '' @ the message @ [CHR 0x0A])"

definition devmgr_log_write :: "int \<Rightarrow> int \<Rightarrow> string ptr \<Rightarrow> string ptr \<Rightarrow> string option \<Rightarrow> string" where
  "devmgr_log_write current level component message local_time =
    devmgr_log_vwrite current level component message local_time"

text \<open>
  The level always stays in range, whatever values are set; a line is written exactly for the
  levels from \<open>ERROR\<close> up to the current one, so every lookup in the table of names is in range.
\<close>

definition valid_level :: "int \<Rightarrow> bool" where
  "valid_level l \<longleftrightarrow> DEVMGR_LOG_ERROR \<le> l \<and> l \<le> DEVMGR_LOG_TRACE"

lemma log_level_in_range: "valid_level (foldl devmgr_log_set_level initial_level levels)"
proof -
  have "valid_level l \<Longrightarrow> valid_level (foldl devmgr_log_set_level l levels)" for l
    by (induction levels arbitrary: l) (auto simp: devmgr_log_set_level_def valid_level_def)
  then show ?thesis by (simp add: valid_level_def initial_level_def)
qed

lemma log_written_iff:
  assumes "valid_level current"
  shows "devmgr_log_write current level component (Some m) t \<noteq> [] \<longleftrightarrow> 0 \<le> level \<and> level \<le> current"
  using assms
  by (auto simp: devmgr_log_write_def devmgr_log_vwrite_def devmgr_log_get_level_def valid_level_def Let_def)

lemma log_name_in_range:
  "valid_level current \<Longrightarrow> 0 \<le> level \<Longrightarrow> level \<le> current \<Longrightarrow> nat level < length level_names"
  by (simp add: valid_level_def level_names_def)

end
