(* ===== verification/Transport.thy ===== *)
theory Transport
  imports Firmware
begin

section \<open>Transports (include/devmgr/transport.h, src/transport/serial.c, src/transport/pty.c)\<close>

text \<open>
  The serial transport and the creation of a pseudo terminal. What the operating system answers is
  a parameter: a call that is retried takes its results from a list, and fails for good when the
  list runs out. A result is an \<open>errno\<close> value (\<open>Inl\<close>) or what the call returned (\<open>Inr\<close>).
  Descriptors released are reported as effects. The terminal settings are the words of
  \<open>struct termios\<close> with Linux's bit values and glibc's \<open>cfmakeraw\<close>; line speeds are kept in
  fields of their own.
\<close>

subsection \<open>System calls that are retried\<close>

datatype errno = EINTR | EAGAIN | ENOENT | EINVAL | EOTHER

type_synonym 'a sysret = "errno + 'a"

text \<open>\<open>do ... while (r < 0 && errno == EINTR)\<close>: the result, and the results left for later calls.\<close>

fun retry_eintr :: "'a sysret list \<Rightarrow> 'a sysret \<times> 'a sysret list" where
  "retry_eintr [] = (Inl EOTHER, [])"
| "retry_eintr (r # rs) = (if r = Inl EINTR then retry_eintr rs else (r, rs))"

lemma retry_eintr_not_EINTR: "retry_eintr rs = (r, rs') \<Longrightarrow> r \<noteq> Inl EINTR"
  by (induction rs rule: retry_eintr.induct) (auto split: if_splits)

lemma retry_eintr_length: "retry_eintr rs = (Inr x, rs') \<Longrightarrow> length rs' < length rs"
  by (induction rs rule: retry_eintr.induct) (auto split: if_splits)

lemma retry_eintr_le: "retry_eintr rs = (r, rs') \<Longrightarrow> length rs' \<le> length rs"
  by (induction rs rule: retry_eintr.induct) (fastforce split: if_splits)+

subsection \<open>Serial ports\<close>

datatype speed_t = B9600 | B19200 | B38400 | B57600 | B115200

abbreviation (input) DEVMGR_TRANSPORT_SERIAL :: int where "DEVMGR_TRANSPORT_SERIAL \<equiv> 0"
abbreviation (input) DEVMGR_TRANSPORT_PTY :: int where "DEVMGR_TRANSPORT_PTY \<equiv> 1"

record devmgr_transport_config =
  tc_kind :: int
  tc_path :: "bytes ptr"
  tc_baud_rate :: nat
  tc_hardware_flow_control :: bool

record devmgr_transport =
  tr_fd :: int
  tr_kind :: int

record termios =
  c_iflag :: u32
  c_oflag :: u32
  c_cflag :: u32
  c_lflag :: u32
  c_vmin :: u8
  c_vtime :: u8
  c_ispeed :: "speed_t option"
  c_ospeed :: "speed_t option"

abbreviation (input) IXON :: u32 where "IXON \<equiv> 0x400"
abbreviation (input) IXANY :: u32 where "IXANY \<equiv> 0x800"
abbreviation (input) IXOFF :: u32 where "IXOFF \<equiv> 0x1000"
abbreviation (input) CSIZE :: u32 where "CSIZE \<equiv> 0x30"
abbreviation (input) CS8 :: u32 where "CS8 \<equiv> 0x30"
abbreviation (input) CSTOPB :: u32 where "CSTOPB \<equiv> 0x40"
abbreviation (input) CREAD :: u32 where "CREAD \<equiv> 0x80"
abbreviation (input) PARENB :: u32 where "PARENB \<equiv> 0x100"
abbreviation (input) CLOCAL :: u32 where "CLOCAL \<equiv> 0x800"
abbreviation (input) CRTSCTS :: u32 where "CRTSCTS \<equiv> 0x80000000"

text \<open>\<open>IGNBRK | BRKINT | PARMRK | ISTRIP | INLCR | IGNCR | ICRNL | IXON\<close> and the local flags \<open>ECHO | ECHONL | ICANON | ISIG | IEXTEN\<close>.\<close>

abbreviation (input) raw_iflags :: u32 where "raw_iflags \<equiv> 0x5EB"
abbreviation (input) raw_lflags :: u32 where "raw_lflags \<equiv> 0x804B"

definition cfmakeraw :: "termios \<Rightarrow> termios" where
  "cfmakeraw t = t\<lparr>c_iflag := c_iflag t AND NOT raw_iflags, c_oflag := c_oflag t AND NOT 1,
     c_lflag := c_lflag t AND NOT raw_lflags, c_cflag := (c_cflag t AND NOT (CSIZE OR PARENB)) OR CS8,
     c_vmin := 1, c_vtime := 0\<rparr>"

definition baud_to_speed :: "nat \<Rightarrow> devmgr_status + speed_t" where
  "baud_to_speed baud_rate =
    (if baud_rate = 9600 then Inr B9600
     else if baud_rate = 19200 then Inr B19200
     else if baud_rate = 38400 then Inr B38400
     else if baud_rate = 57600 then Inr B57600
     else if baud_rate = 115200 then Inr B115200
     else Inl DEVMGR_ERROR_INVALID)"

definition baud_to_speed_ptr :: "nat \<Rightarrow> bool \<Rightarrow> devmgr_status + speed_t" where
  "baud_to_speed_ptr baud_rate speed_null =
    (if speed_null then Inl DEVMGR_ERROR_INVALID else baud_to_speed baud_rate)"

text \<open>The answers of the terminal calls.\<close>

record serial_env =
  sv_open :: "nat sysret list"
  sv_tcgetattr :: "termios option"
  sv_cfsetispeed_ok :: bool
  sv_cfsetospeed_ok :: bool
  sv_tcsetattr_ok :: bool

text \<open>The attributes between \<open>tcgetattr\<close> and the setting of the speeds.\<close>

definition serial_attributes :: "bool \<Rightarrow> termios \<Rightarrow> termios" where
  "serial_attributes flow t =
    (let t1 = cfmakeraw t;
         t2 = t1\<lparr>c_cflag := c_cflag t1 OR (CLOCAL OR CREAD)\<rparr>;
         t3 = t2\<lparr>c_cflag := c_cflag t2 AND NOT (PARENB OR CSTOPB OR CSIZE)\<rparr>;
         t4 = t3\<lparr>c_cflag := c_cflag t3 OR CS8\<rparr>;
         t5 = (if flow then t4\<lparr>c_cflag := c_cflag t4 OR CRTSCTS\<rparr> else t4\<lparr>c_cflag := c_cflag t4 AND NOT CRTSCTS\<rparr>)
     in t5\<lparr>c_iflag := c_iflag t5 AND NOT (IXON OR IXOFF OR IXANY), c_vmin := 0, c_vtime := 0\<rparr>)"

definition configure_serial :: "serial_env \<Rightarrow> devmgr_transport_config \<Rightarrow> devmgr_status + termios" where
  "configure_serial env config =
    (case baud_to_speed (tc_baud_rate config) of
       Inl e \<Rightarrow> Inl DEVMGR_ERROR_INVALID
     | Inr speed \<Rightarrow>
         (case sv_tcgetattr env of
            None \<Rightarrow> Inl DEVMGR_ERROR_IO
          | Some t \<Rightarrow>
              let attributes = serial_attributes (tc_hardware_flow_control config) t in
              if \<not> sv_cfsetispeed_ok env \<or> \<not> sv_cfsetospeed_ok env then Inl DEVMGR_ERROR_IO
              else if \<not> sv_tcsetattr_ok env then Inl DEVMGR_ERROR_IO
              else Inr (attributes\<lparr>c_ispeed := Some speed, c_ospeed := Some speed\<rparr>)))"

text \<open>Status, the transport, the settings applied to the open line, and the effects.\<close>

definition devmgr_transport_open ::
  "serial_env \<Rightarrow> devmgr_transport \<Rightarrow> devmgr_transport_config \<Rightarrow>
   devmgr_status \<times> devmgr_transport \<times> termios option \<times> file_effect list" where
  "devmgr_transport_open env transport config =
    (if tc_path config = None \<or> tc_kind config \<noteq> DEVMGR_TRANSPORT_SERIAL \<and> tc_kind config \<noteq> DEVMGR_TRANSPORT_PTY
     then (DEVMGR_ERROR_INVALID, transport, None, [])
     else
       let t = transport\<lparr>tr_fd := -1\<rparr> in
       case fst (retry_eintr (sv_open env)) of
         Inl e \<Rightarrow> (DEVMGR_ERROR_IO, t, None, [])
       | Inr fd \<Rightarrow>
           (case configure_serial env config of
              Inl result \<Rightarrow> (result, t, None, [Closed fd])
            | Inr attributes \<Rightarrow>
                (DEVMGR_OK, t\<lparr>tr_fd := int fd, tr_kind := tc_kind config\<rparr>, Some attributes, [])))"

text \<open>
  Reading and writing: the results of the system call come from a list, and the rest of the list
  is left for the next call. The kernel never transfers more than it was asked for.
\<close>

definition devmgr_transport_read ::
  "devmgr_transport \<Rightarrow> nat \<Rightarrow> bytes sysret list \<Rightarrow> bytes sysret \<times> bytes sysret list" where
  "devmgr_transport_read transport n results =
    (if tr_fd transport < 0 then (Inl EINVAL, results)
     else case retry_eintr results of (r, rest) \<Rightarrow> (map_sum id (take n) r, rest))"

definition devmgr_transport_write ::
  "devmgr_transport \<Rightarrow> bytes \<Rightarrow> nat sysret list \<Rightarrow> nat sysret \<times> nat sysret list" where
  "devmgr_transport_write transport data results =
    (if tr_fd transport < 0 then (Inl EINVAL, results)
     else case retry_eintr results of (r, rest) \<Rightarrow> (map_sum id (\<lambda>k. min k (length data)) r, rest))"

definition devmgr_transport_get_fd :: "devmgr_transport ptr \<Rightarrow> int" where
  "devmgr_transport_get_fd transport = (case transport of None \<Rightarrow> -1 | Some t \<Rightarrow> tr_fd t)"

text \<open>The loop around \<open>close\<close>: one effect per call.\<close>

fun close_retry :: "nat \<Rightarrow> unit sysret list \<Rightarrow> file_effect list" where
  "close_retry fd [] = [Closed fd]"
| "close_retry fd (r # rs) = Closed fd # (if r = Inl EINTR then close_retry fd rs else [])"

definition devmgr_transport_close ::
  "unit sysret list \<Rightarrow> devmgr_transport \<Rightarrow> devmgr_transport \<times> file_effect list" where
  "devmgr_transport_close results transport =
    (if tr_fd transport \<ge> 0
     then (transport\<lparr>tr_fd := -1\<rparr>, close_retry (nat (tr_fd transport)) results)
     else (transport, []))"

text \<open>The entry points with their guards on \<open>NULL\<close> pointers.\<close>

definition devmgr_transport_open_ptr ::
  "serial_env \<Rightarrow> devmgr_transport ptr \<Rightarrow> devmgr_transport_config ptr \<Rightarrow>
   devmgr_status \<times> devmgr_transport ptr \<times> termios option \<times> file_effect list" where
  "devmgr_transport_open_ptr env transport config =
    (case (transport, config) of
       (Some t, Some c) \<Rightarrow> (case devmgr_transport_open env t c of (r, t', a, es) \<Rightarrow> (r, Some t', a, es))
     | _ \<Rightarrow> (DEVMGR_ERROR_INVALID, transport, None, []))"

definition devmgr_transport_read_ptr ::
  "devmgr_transport ptr \<Rightarrow> bool \<Rightarrow> nat \<Rightarrow> bytes sysret list \<Rightarrow> bytes sysret \<times> bytes sysret list" where
  "devmgr_transport_read_ptr transport buffer_null n results =
    (case transport of
       None \<Rightarrow> (Inl EINVAL, results)
     | Some t \<Rightarrow> if buffer_null \<and> n \<noteq> 0 then (Inl EINVAL, results) else devmgr_transport_read t n results)"

definition devmgr_transport_write_ptr ::
  "devmgr_transport ptr \<Rightarrow> bytes ptr \<Rightarrow> nat \<Rightarrow> nat sysret list \<Rightarrow> nat sysret \<times> nat sysret list" where
  "devmgr_transport_write_ptr transport buffer n results =
    (case transport of
       None \<Rightarrow> (Inl EINVAL, results)
     | Some t \<Rightarrow>
         (case buffer of
            None \<Rightarrow> if n \<noteq> 0 then (Inl EINVAL, results) else devmgr_transport_write t [] results
          | Some data \<Rightarrow> devmgr_transport_write t (take n data) results))"

definition devmgr_transport_close_ptr ::
  "unit sysret list \<Rightarrow> devmgr_transport ptr \<Rightarrow> devmgr_transport ptr \<times> file_effect list" where
  "devmgr_transport_close_ptr results transport =
    (case transport of
       None \<Rightarrow> (None, [])
     | Some t \<Rightarrow> (case devmgr_transport_close results t of (t', es) \<Rightarrow> (Some t', es)))"

lemma transport_read_progress:
  assumes "devmgr_transport_read t n rs = (Inr x, rest)"
  shows "length rest < length rs"
proof -
  obtain r where r: "retry_eintr rs = (r, rest)" "map_sum id (take n) r = Inr x"
    using assms by (auto simp: devmgr_transport_read_def split: if_splits prod.splits)
  then show ?thesis using retry_eintr_length by (cases r) auto
qed

subsection \<open>Pseudo terminals\<close>

record pty_env =
  py_openpt :: "nat sysret list"
  py_grantpt_ok :: bool
  py_unlockpt_ok :: bool
  py_ptsname :: "bytes ptr"

text \<open>Status, the caller's master descriptor and slave path as they are left, and the effects.\<close>

definition devmgr_pty_create ::
  "pty_env \<Rightarrow> int \<Rightarrow> bytes \<Rightarrow> nat \<Rightarrow> devmgr_status \<times> int \<times> bytes \<times> file_effect list" where
  "devmgr_pty_create env master_fd slave_path path_capacity =
    (if path_capacity = 0 then (DEVMGR_ERROR_INVALID, master_fd, slave_path, [])
     else
       case fst (retry_eintr (py_openpt env)) of
         Inl e \<Rightarrow> (DEVMGR_ERROR_IO, -1, slave_path, [])
       | Inr fd \<Rightarrow>
           if \<not> py_grantpt_ok env \<or> \<not> py_unlockpt_ok env then (DEVMGR_ERROR_IO, -1, slave_path, [Closed fd])
           else
             (case py_ptsname env of
                None \<Rightarrow> (DEVMGR_ERROR_IO, -1, slave_path, [Closed fd])
              | Some path \<Rightarrow>
                  if length path + 1 > path_capacity then (DEVMGR_ERROR_OVERFLOW, -1, slave_path, [Closed fd])
                  else (DEVMGR_OK, int fd, path, [])))"

definition devmgr_pty_create_ptr ::
  "pty_env \<Rightarrow> int ptr \<Rightarrow> bytes ptr \<Rightarrow> nat \<Rightarrow> devmgr_status \<times> int ptr \<times> bytes ptr \<times> file_effect list" where
  "devmgr_pty_create_ptr env master_fd slave_path path_capacity =
    (case (master_fd, slave_path) of
       (Some m, Some p) \<Rightarrow>
         (case devmgr_pty_create env m p path_capacity of (r, m', p', es) \<Rightarrow> (r, Some m', Some p', es))
     | _ \<Rightarrow> (DEVMGR_ERROR_INVALID, master_fd, slave_path, []))"

subsection \<open>What opening guarantees\<close>

text \<open>A raw line with eight data bits, no parity, one stop bit and no software flow control.\<close>

definition raw_8n1 :: "termios \<Rightarrow> bool" where
  "raw_8n1 t \<longleftrightarrow> c_cflag t AND CSIZE = CS8 \<and> c_cflag t AND PARENB = 0 \<and> c_cflag t AND CSTOPB = 0 \<and>
     c_cflag t AND CREAD = CREAD \<and> c_cflag t AND CLOCAL = CLOCAL \<and> c_iflag t AND (IXON OR IXOFF OR IXANY) = 0 \<and>
     c_iflag t AND raw_iflags = 0 \<and> c_lflag t AND raw_lflags = 0 \<and> c_oflag t AND 1 = 0 \<and> c_vmin t = 0 \<and> c_vtime t = 0"

lemma serial_attributes_raw: "raw_8n1 (serial_attributes flow t)"
  by (cases flow) (simp_all add: raw_8n1_def serial_attributes_def cfmakeraw_def Let_def and.assoc bit.conj_disj_distrib2)

lemma serial_attributes_flow: "(c_cflag (serial_attributes flow t) AND CRTSCTS \<noteq> 0) = flow"
  by (cases flow) (simp_all add: serial_attributes_def cfmakeraw_def Let_def and.assoc bit.conj_disj_distrib2)

definition line_ready :: "devmgr_transport_config \<Rightarrow> termios \<Rightarrow> bool" where
  "line_ready config t \<longleftrightarrow> raw_8n1 t \<and> (c_cflag t AND CRTSCTS \<noteq> 0) = tc_hardware_flow_control config \<and>
     (\<exists>speed. baud_to_speed (tc_baud_rate config) = Inr speed \<and> c_ispeed t = Some speed \<and> c_ospeed t = Some speed)"

lemma configure_serial_ready:
  assumes "configure_serial env config = Inr t"
  shows "line_ready config t"
proof -
  obtain speed t0 where s: "baud_to_speed (tc_baud_rate config) = Inr speed"
    "t = serial_attributes (tc_hardware_flow_control config) t0\<lparr>c_ispeed := Some speed, c_ospeed := Some speed\<rparr>"
    using assms by (auto simp: configure_serial_def Let_def split: sum.splits option.splits if_splits)
  have "raw_8n1 t" using serial_attributes_raw by (simp add: s(2) raw_8n1_def)
  moreover have "(c_cflag t AND CRTSCTS \<noteq> 0) = tc_hardware_flow_control config"
    using serial_attributes_flow by (simp add: s(2))
  ultimately show ?thesis using s by (auto simp: line_ready_def)
qed

subsection \<open>Properties\<close>

text \<open>
  C38. Opening a transport configures the line or leaves nothing behind. On success the descriptor is
  held by the transport alone and the line is raw, 8N1, without software flow control, with
  hardware flow control as requested and at the requested speed, which is one of the five
  supported ones; on failure the transport holds no descriptor and one that was opened has been
  closed.
\<close>

theorem transport_open_sound:
  assumes "devmgr_transport_open env t config = (r, t', a, es)"
  shows "if r = DEVMGR_OK
    then \<exists>fd line. fst (retry_eintr (sv_open env)) = Inr fd \<and> tr_fd t' = int fd \<and> a = Some line \<and>
      line_ready config line \<and> es = []
    else a = None \<and> (r = DEVMGR_ERROR_INVALID \<and> t' = t \<and> es = [] \<or>
      tr_fd t' = -1 \<and> es = (case fst (retry_eintr (sv_open env)) of Inl e \<Rightarrow> [] | Inr fd \<Rightarrow> [Closed fd]))"
proof (cases "tc_path config = None \<or> tc_kind config \<noteq> DEVMGR_TRANSPORT_SERIAL \<and> tc_kind config \<noteq> DEVMGR_TRANSPORT_PTY")
  case True
  then show ?thesis using assms by (auto simp: devmgr_transport_open_def)
next
  case False
  have err: "configure_serial env config \<noteq> Inl DEVMGR_OK"
    by (auto simp: configure_serial_def Let_def split: sum.splits option.splits)
  show ?thesis
    using assms False err configure_serial_ready [of env config]
    by (auto simp: devmgr_transport_open_def Let_def split: sum.splits)
qed

definition witness_serial :: serial_env where
  "witness_serial = \<lparr>sv_open = [Inl EINTR, Inr 5], sv_tcgetattr = Some \<lparr>c_iflag = 0x500, c_oflag = 5, c_cflag = 0xCBF,
     c_lflag = 0x8A3B, c_vmin = 1, c_vtime = 0, c_ispeed = None, c_ospeed = None\<rparr>,
     sv_cfsetispeed_ok = True, sv_cfsetospeed_ok = True, sv_tcsetattr_ok = True\<rparr>"

definition witness_line :: devmgr_transport_config where
  "witness_line = \<lparr>tc_kind = DEVMGR_TRANSPORT_SERIAL, tc_path = Some [0x2F], tc_baud_rate = 115200,
     tc_hardware_flow_control = False\<rparr>"

theorem transport_open_sound_witness:
  "\<exists>t line. devmgr_transport_open witness_serial \<lparr>tr_fd = -1, tr_kind = 0\<rparr> witness_line = (DEVMGR_OK, t, Some line, []) \<and>
     tr_fd t = 5 \<and> line_ready witness_line line"
proof -
  obtain r t a es where o: "devmgr_transport_open witness_serial \<lparr>tr_fd = -1, tr_kind = 0\<rparr> witness_line = (r, t, a, es)"
    by (metis prod_cases4)
  then have "r = DEVMGR_OK"
    by (auto simp: devmgr_transport_open_def witness_serial_def witness_line_def configure_serial_def baud_to_speed_def Let_def)
  then show ?thesis
    using transport_open_sound [OF o] o by (auto simp: witness_serial_def)
qed

text \<open>Creating a pseudo terminal: the same, with the slave's path inside the caller's buffer.\<close>

lemma pty_create_sound:
  assumes "devmgr_pty_create env m p capacity = (r, m', p', es)"
  shows "if r = DEVMGR_OK
    then \<exists>fd. fst (retry_eintr (py_openpt env)) = Inr fd \<and> m' = int fd \<and> length p' < capacity \<and> es = []
    else p' = p \<and> (capacity = 0 \<and> m' = m \<and> es = [] \<or>
      m' = -1 \<and> es = (case fst (retry_eintr (py_openpt env)) of Inl e \<Rightarrow> [] | Inr fd \<Rightarrow> [Closed fd]))"
  using assms by (auto simp: devmgr_pty_create_def split: sum.splits option.splits if_splits)

text \<open>
  Closing: the descriptor is closed once unless \<open>close\<close> reports \<open>EINTR\<close>; then it is closed again,
  although Linux has released it already and the number may belong to a file opened meanwhile.
\<close>

lemma transport_close_once:
  assumes "tr_fd t = int fd" "r \<noteq> Inl EINTR"
  shows "devmgr_transport_close (r # rs) t = (t\<lparr>tr_fd := -1\<rparr>, [Closed fd])"
  using assms by (simp add: devmgr_transport_close_def)

lemma transport_close_interrupted:
  assumes "tr_fd t = int fd" "r \<noteq> Inl EINTR"
  shows "devmgr_transport_close (Inl EINTR # r # rs) t = (t\<lparr>tr_fd := -1\<rparr>, [Closed fd, Closed fd])"
  using assms by (simp add: devmgr_transport_close_def)

end
