(* ===== verification/Args.thy ===== *)
theory Args
  imports Simulator Transport
begin

section \<open>Command lines\<close>

text \<open>
  What the three \<open>main\<close> functions (\<open>src/apps/*/main.c\<close>) use of the C library: \<open>strtoul\<close> and
  \<open>strtol\<close> in base 10 with 64-bit \<open>long\<close>, the format \<open>%lu\<close> and the default socket path built with
  it. Strings are lists of bytes without the terminating NUL; a conversion returns its value and the
  number of bytes it consumed, so \<open>*end != 0\<close> says that this is not the whole string. The options
  \<open>getopt_long\<close> returns and the operands it leaves are the arguments of the models.
\<close>

definition isspace :: "byte \<Rightarrow> bool" where
  "isspace b \<longleftrightarrow> b = 32 \<or> 9 \<le> b \<and> b \<le> 13"

definition isdigit :: "byte \<Rightarrow> bool" where
  "isdigit b \<longleftrightarrow> 48 \<le> b \<and> b \<le> 57"

definition digits_value :: "bytes \<Rightarrow> nat" where
  "digits_value ds = foldl (\<lambda>n d. 10 * n + (unat d - 48)) 0 ds"

text \<open>Sign, digits, and how many bytes they and the leading white space take.\<close>

definition scan_integer :: "bytes \<Rightarrow> bool \<times> bytes \<times> nat" where
  "scan_integer s =
    (let ws = length (takeWhile isspace s);
         r = drop ws s;
         sg = (if r \<noteq> [] \<and> (hd r = 43 \<or> hd r = 45) then 1 else 0);
         ds = takeWhile isdigit (drop sg r)
     in (r \<noteq> [] \<and> hd r = 45, ds, ws + sg + length ds))"

abbreviation (input) ULONG_MAX :: nat where "ULONG_MAX \<equiv> 2 ^ 64 - 1"
abbreviation (input) LONG_MAX :: int where "LONG_MAX \<equiv> 2 ^ 63 - 1"
abbreviation (input) LONG_MIN :: int where "LONG_MIN \<equiv> - (2 ^ 63)"
abbreviation (input) UINT32_MAX :: nat where "UINT32_MAX \<equiv> 2 ^ 32 - 1"

definition strtoul :: "bytes \<Rightarrow> nat \<times> nat" where
  "strtoul s =
    (case scan_integer s of
       (negative, ds, n) \<Rightarrow>
         if ds = [] then (0, 0)
         else if digits_value ds > ULONG_MAX then (ULONG_MAX, n)
         else (if negative then (2 ^ 64 - digits_value ds) mod 2 ^ 64 else digits_value ds, n))"

definition strtol :: "bytes \<Rightarrow> int \<times> nat" where
  "strtol s =
    (case scan_integer s of
       (negative, ds, n) \<Rightarrow>
         if ds = [] then (0, 0)
         else if negative then (max LONG_MIN (- int (digits_value ds)), n)
         else (min LONG_MAX (int (digits_value ds)), n))"

fun decimal :: "nat \<Rightarrow> bytes" where
  "decimal n = (if n < 10 then [of_nat (48 + n)] else decimal (n div 10) @ [of_nat (48 + n mod 10)])"

declare decimal.simps [simp del]

text \<open>\<open>snprintf\<close> into 128 bytes: the path is cut there.\<close>

definition default_socket :: "u32 \<Rightarrow> bytes" where
  "default_socket uid = take 127 (ascii ''/tmp/devmgrd-'' @ decimal (unat uid) @ ascii ''.sock'')"

subsection \<open>Numbers survive printing and parsing\<close>

lemma digit_of_nat:
  assumes "k < 10"
  shows "isdigit (of_nat (48 + k))" "unat (of_nat (48 + k) :: byte) - 48 = k"
proof -
  have "unat (of_nat (48 + k) :: byte) = 48 + k" using assms by (simp add: unat_of_nat del: of_nat_add)
  then show "isdigit (of_nat (48 + k))" "unat (of_nat (48 + k) :: byte) - 48 = k"
    using assms by (simp_all add: isdigit_def word_le_nat_alt del: of_nat_add)
qed

lemma decimal_digits: "decimal n \<noteq> [] \<and> (\<forall>d \<in> set (decimal n). isdigit d) \<and> digits_value (decimal n) = n"
proof (induction n rule: decimal.induct)
  case (1 n)
  show ?case
  proof (cases "n < 10")
    case True
    then show ?thesis using digit_of_nat [of n] by (simp add: decimal.simps [of n] digits_value_def)
  next
    case False
    then show ?thesis
      using 1 digit_of_nat [of "n mod 10"] by (simp add: decimal.simps [of n] digits_value_def)
  qed
qed

lemma digit_not_space: "isdigit d \<Longrightarrow> \<not> isspace d \<and> d \<noteq> 43 \<and> d \<noteq> 45 \<and> d \<noteq> 0"
  by (auto simp: isdigit_def isspace_def word_le_nat_alt)

lemma scan_digits:
  assumes "\<forall>d \<in> set ds. isdigit d" "ds \<noteq> []"
  shows "scan_integer ds = (False, ds, length ds)" "scan_integer (45 # ds) = (True, ds, Suc (length ds))"
proof -
  obtain d ds' where d: "ds = d # ds'" using assms(2) by (cases ds) auto
  have tw: "takeWhile isdigit ds = ds" using assms(1) by (simp add: takeWhile_eq_all_conv)
  have nd: "\<not> isspace d \<and> d \<noteq> 43 \<and> d \<noteq> 45" using assms(1) d digit_not_space by auto
  then have "length (takeWhile isspace ds) = 0" using d by simp
  with tw nd d show "scan_integer ds = (False, ds, length ds)" by (auto simp: scan_integer_def Let_def)
  show "scan_integer (45 # ds) = (True, ds, Suc (length ds))"
    using assms(2) by (simp add: scan_integer_def Let_def isspace_def tw)
qed

lemma strtoul_decimal: "n \<le> ULONG_MAX \<Longrightarrow> strtoul (decimal n) = (n, length (decimal n))"
  using decimal_digits [of n] scan_digits(1) [of "decimal n"] by (simp add: strtoul_def)

lemma strtol_decimal:
  "n \<le> 2 ^ 63 - 1 \<Longrightarrow> strtol (decimal n) = (int n, length (decimal n))"
  "n \<le> 2 ^ 63 \<Longrightarrow> strtol (45 # decimal n) = (- int n, Suc (length (decimal n)))"
  using decimal_digits [of n] scan_digits [of "decimal n"] by (simp_all add: strtol_def)

lemma decimal_length: "n < 10 ^ Suc k \<Longrightarrow> length (decimal n) \<le> Suc k"
proof (induction k arbitrary: n)
  case 0
  then show ?case by (simp add: decimal.simps)
next
  case (Suc k)
  then have "n div 10 < 10 ^ Suc k" by (simp add: less_mult_imp_div_less)
  then show ?case using Suc.IH [of "n div 10"] by (subst decimal.simps) simp
qed

text \<open>The default path is never cut and fits into \<open>sun_path\<close>.\<close>

lemma default_socket_fits:
  "default_socket uid = ascii ''/tmp/devmgrd-'' @ decimal (unat uid) @ ascii ''.sock''"
  "length (default_socket uid) < 108" "default_socket uid \<noteq> []"
proof -
  have "unat uid < 2 ^ 32" using unsigned_less [of uid] by simp
  then have "length (decimal (unat uid)) \<le> Suc 9" by (intro decimal_length) simp
  then show "default_socket uid = ascii ''/tmp/devmgrd-'' @ decimal (unat uid) @ ascii ''.sock''"
    "length (default_socket uid) < 108" "default_socket uid \<noteq> []"
    by (simp_all add: default_socket_def ascii_def)
qed

end
