(* ===== verification/Daemon.thy ===== *)
theory Daemon
  imports Parser Ipc_Codec Session Upgrade Worker Transport
begin

section \<open>The daemon (apps/devmgrd/daemon.c)\<close>

text \<open>
  The reactor: one context record with the protocol parser, the device session, the upgrade, the
  validation worker and sixteen client slots, and one function per C function on it. Buffers are
  the lists of bytes in use. The operating system is a parameter: the clock and \<open>epoll_ctl\<close> answer
  by the number of the call (\<open>cx_calls\<close> counts them), the results of reads, writes and accepts
  come with each event, and \<open>cx_interest\<close> is the kernel's table of watched descriptors. Descriptors
  and mappings given back and paths removed are recorded in \<open>cx_effects\<close>. The worker thread runs
  between the reactor's events; its program counter is part of the context. Log messages are not
  represented.
\<close>

subsection \<open>Context\<close>

abbreviation (input) MAX_CLIENTS :: nat where "MAX_CLIENTS \<equiv> 16"
abbreviation (input) CLIENT_INPUT_SIZE :: nat where
  "CLIENT_INPUT_SIZE \<equiv> DEVMGR_IPC_REQUEST_HEADER_SIZE + DEVMGR_IPC_MAX_PAYLOAD"
abbreviation (input) CLIENT_OUTPUT_SIZE :: nat where
  "CLIENT_OUTPUT_SIZE \<equiv> DEVMGR_IPC_RESPONSE_HEADER_SIZE + DEVMGR_IPC_MAX_PAYLOAD"

abbreviation (input) EPOLLIN :: u32 where "EPOLLIN \<equiv> 1"
abbreviation (input) EPOLLOUT :: u32 where "EPOLLOUT \<equiv> 4"
abbreviation (input) EPOLLERR :: u32 where "EPOLLERR \<equiv> 8"
abbreviation (input) EPOLLHUP :: u32 where "EPOLLHUP \<equiv> 0x10"
abbreviation (input) EPOLLRDHUP :: u32 where "EPOLLRDHUP \<equiv> 0x2000"

datatype daemon_effect = Released file_effect | Unlinked bytes

record daemon_client =
  cl_fd :: int
  cl_input :: bytes
  cl_expected_size :: nat
  cl_output :: bytes
  cl_output_offset :: nat
  cl_close_after_write :: bool

record daemon_context =
  cx_epoll_fd :: int
  cx_listen_fd :: int
  cx_timer_fd :: int
  cx_signal_fd :: int
  cx_transport :: devmgr_transport
  cx_parser :: devmgr_parser
  cx_session :: devmgr_session
  cx_clients :: "daemon_client list"
  cx_active_client :: int
  cx_transport_output :: bytes
  cx_transport_output_offset :: nat
  cx_socket_path :: "bytes ptr"
  cx_running :: bool
  cx_latest_telemetry :: bytes
  cx_latest_telemetry_length :: nat
  cx_telemetry_frames :: u64
  cx_firmware :: devmgr_firmware_image
  cx_upgrade :: devmgr_upgrade
  cx_upgrade_operation_id :: u32
  cx_upgrade_result :: devmgr_status
  cx_worker :: devmgr_worker
  cx_pending_upgrade_version :: bytes
  cx_thread :: worker_pc
  cx_calls :: nat
  cx_interest :: "int \<Rightarrow> u32 option"
  cx_effects :: "daemon_effect list"

text \<open>The clock (seconds and nanoseconds, if it answers) and \<open>epoll_ctl\<close>, by the number of the call.\<close>

record daemon_env =
  dv_clock :: "nat \<Rightarrow> (u64 \<times> u64) option"
  dv_epoll_ctl :: "nat \<Rightarrow> bool"

type_synonym daemon_result = "devmgr_status \<times> daemon_context"

definition release :: "file_effect list \<Rightarrow> daemon_context \<Rightarrow> daemon_context" where
  "release es ctx = ctx\<lparr>cx_effects := cx_effects ctx @ map Released es\<rparr>"

definition set_client :: "daemon_context \<Rightarrow> nat \<Rightarrow> daemon_client \<Rightarrow> daemon_context" where
  "set_client ctx index client = ctx\<lparr>cx_clients := (cx_clients ctx)[index := client]\<rparr>"

text \<open>A transition of the session whose result is discarded, and closing the context's image.\<close>

definition session_event :: "devmgr_session_event \<Rightarrow> daemon_context \<Rightarrow> daemon_context" where
  "session_event event ctx = ctx\<lparr>cx_session := snd (devmgr_session_transition (cx_session ctx) event)\<rparr>"

definition close_firmware :: "daemon_context \<Rightarrow> daemon_context" where
  "close_firmware ctx = (case devmgr_firmware_close (cx_firmware ctx) of (img, es) \<Rightarrow> release es (ctx\<lparr>cx_firmware := img\<rparr>))"

definition set_upgrade_state :: "devmgr_upgrade_state \<Rightarrow> daemon_context \<Rightarrow> daemon_context" where
  "set_upgrade_state st ctx = ctx\<lparr>cx_upgrade := (cx_upgrade ctx)\<lparr>up_state := st\<rparr>\<rparr>"

subsection \<open>Clock, epoll, clients\<close>

definition monotonic_ns :: "daemon_env \<Rightarrow> daemon_context \<Rightarrow> u64 \<times> daemon_context" where
  "monotonic_ns env ctx =
    ((case dv_clock env (cx_calls ctx) of
        None \<Rightarrow> 0
      | Some (sec, nsec) \<Rightarrow> sec * 1000000000 + nsec),
     ctx\<lparr>cx_calls := cx_calls ctx + 1\<rparr>)"

definition epoll_update :: "daemon_env \<Rightarrow> daemon_context \<Rightarrow> int \<Rightarrow> u32 \<Rightarrow> daemon_result" where
  "epoll_update env ctx fd events =
    (let ok = dv_epoll_ctl env (cx_calls ctx); ctx1 = ctx\<lparr>cx_calls := cx_calls ctx + 1\<rparr> in
     if \<not> ok then (DEVMGR_ERROR_IO, ctx1)
     else (DEVMGR_OK, ctx1\<lparr>cx_interest := (cx_interest ctx)(fd \<mapsto> events)\<rparr>))"

definition close_client :: "daemon_context \<Rightarrow> nat \<Rightarrow> daemon_context" where
  "close_client ctx index =
    (let client = cx_clients ctx ! index;
         ctx1 = (if cl_fd client \<ge> 0
                 then release [Closed (nat (cl_fd client))]
                        (set_client ctx index (client\<lparr>cl_fd := -1\<rparr>))\<lparr>cx_calls := cx_calls ctx + 1,
                           cx_interest := (cx_interest ctx)(cl_fd client := None)\<rparr>
                 else ctx)
     in if cx_active_client ctx1 = int index then ctx1\<lparr>cx_active_client := -1\<rparr> else ctx1)"

definition queue_client_response ::
  "daemon_env \<Rightarrow> daemon_context \<Rightarrow> nat \<Rightarrow> u8 \<Rightarrow> devmgr_status \<Rightarrow> bytes ptr \<Rightarrow> nat \<Rightarrow> daemon_result" where
  "queue_client_response env ctx index command status payload payload_length =
    (let client = cx_clients ctx ! index;
         n = (if payload_length > DEVMGR_IPC_MAX_PAYLOAD then 0 else payload_length);
         response = \<lparr>rs_command = command,
           rs_status = status_word (if payload_length > DEVMGR_IPC_MAX_PAYLOAD then DEVMGR_ERROR_LIMIT else status),
           rs_payload_length = of_nat n,
           rs_payload = (case payload of None \<Rightarrow> replicate n 0 | Some p \<Rightarrow> take n p)\<rparr>
     in case devmgr_ipc_encode_response (Some response) False CLIENT_OUTPUT_SIZE False of
          Inl result \<Rightarrow> (result, ctx)
        | Inr wire \<Rightarrow>
            epoll_update env
              (set_client ctx index (client\<lparr>cl_output := wire, cl_output_offset := 0, cl_close_after_write := True\<rparr>))
              (cl_fd client) (EPOLLIN OR EPOLLOUT OR EPOLLRDHUP))"

subsection \<open>Frames to the device\<close>

definition update_transport_events :: "daemon_env \<Rightarrow> daemon_context \<Rightarrow> daemon_result" where
  "update_transport_events env ctx =
    epoll_update env ctx (devmgr_transport_get_fd (Some (cx_transport ctx)))
      (if cx_transport_output_offset ctx < length (cx_transport_output ctx) then EPOLLIN OR EPOLLOUT else EPOLLIN)"

definition queue_frame :: "daemon_env \<Rightarrow> daemon_context \<Rightarrow> devmgr_frame \<Rightarrow> daemon_result" where
  "queue_frame env ctx frame =
    (if cx_transport_output_offset ctx < length (cx_transport_output ctx) then (DEVMGR_ERROR_BUSY, ctx)
     else
       let ctx1 = ctx\<lparr>cx_transport_output_offset := 0\<rparr> in
       case devmgr_frame_encode frame DEVMGR_PROTOCOL_MAX_FRAME of
         Inl result \<Rightarrow> (result, ctx1)
       | Inr wire \<Rightarrow> update_transport_events env (ctx1\<lparr>cx_transport_output := wire\<rparr>))"

definition retransmit_frame :: "daemon_env \<Rightarrow> daemon_context retransmit_callback" where
  "retransmit_frame env frame ctx = queue_frame env ctx frame"

text \<open>The three outcomes of building and starting a request share the cancellation.\<close>

definition queue_upgrade_request :: "daemon_env \<Rightarrow> daemon_context \<Rightarrow> daemon_result" where
  "queue_upgrade_request env ctx =
    (let cancel = (\<lambda>(result, c). (result, c\<lparr>cx_session := devmgr_session_cancel_request (cx_session c)\<rparr>));
         policy = \<lparr>timeout_ms = 2000, retry_interval_ms = 750, max_retries = 4\<rparr>
     in case devmgr_upgrade_build_request (cx_upgrade ctx) of
          (Inl result, u) \<Rightarrow> cancel (result, ctx\<lparr>cx_upgrade := u\<rparr>)
        | (Inr upgrade_frame, u) \<Rightarrow>
            (case monotonic_ns env (ctx\<lparr>cx_upgrade := u\<rparr>) of
               (now, ctx1) \<Rightarrow>
                 (case devmgr_session_begin_request (cx_session ctx1) (fr_type upgrade_frame) (fr_flags upgrade_frame)
                         (Some (fr_payload upgrade_frame)) (fr_payload_length upgrade_frame) policy now of
                    (Inl result, se) \<Rightarrow> cancel (result, ctx1\<lparr>cx_session := se\<rparr>)
                  | (Inr request, se) \<Rightarrow>
                      (case queue_frame env (ctx1\<lparr>cx_session := se\<rparr>) request of
                         (result, ctx2) \<Rightarrow> if result \<noteq> DEVMGR_OK then cancel (result, ctx2) else (result, ctx2)))))"

definition handle_worker_completion :: "daemon_env \<Rightarrow> daemon_context \<Rightarrow> nat sysret list \<Rightarrow> daemon_result" where
  "handle_worker_completion env ctx results =
    (if fst (retry_eintr results) \<noteq> Inr 8 then (DEVMGR_ERROR_IO, ctx)
     else
       case devmgr_worker_take_result (cx_worker ctx) of
         (Inl result, w) \<Rightarrow> (result, ctx\<lparr>cx_worker := w\<rparr>)
       | (Inr validation, w) \<Rightarrow>
           let ctx1 = ctx\<lparr>cx_worker := w\<rparr> in
           if vr_job_id validation \<noteq> cx_upgrade_operation_id ctx1 \<or>
              up_state (cx_upgrade ctx1) \<noteq> DEVMGR_UPGRADE_VALIDATING
           then (DEVMGR_OK, release (snd (devmgr_firmware_close (vr_image validation))) ctx1)
           else if vr_status validation \<noteq> DEVMGR_OK
           then (DEVMGR_OK, set_upgrade_state DEVMGR_UPGRADE_ERROR (ctx1\<lparr>cx_upgrade_result := vr_status validation\<rparr>))
           else
             let ctx2 = ctx1\<lparr>cx_firmware := vr_image validation\<rparr>;
                 failed = (\<lambda>(result, c).
                   let c1 = close_firmware (set_upgrade_state DEVMGR_UPGRADE_ERROR (c\<lparr>cx_upgrade_result := result\<rparr>))
                   in (DEVMGR_OK, if se_state (cx_session c1) = DEVMGR_DEVICE_UPGRADING
                                  then session_event DEVMGR_SESSION_UPGRADE_DONE c1 else c1))
             in case devmgr_upgrade_start (cx_upgrade ctx2) (fi_data (cx_firmware ctx2)) (fi_size (cx_firmware ctx2))
                       (fi_crc32 (cx_firmware ctx2)) (Some (cx_pending_upgrade_version ctx2)) DEVMGR_UPGRADE_DEFAULT_CHUNK of
                  (result, u) \<Rightarrow>
                    if result \<noteq> DEVMGR_OK then failed (result, ctx2\<lparr>cx_upgrade := u\<rparr>)
                    else
                      (case devmgr_session_transition (cx_session ctx2) DEVMGR_SESSION_START_UPGRADE of
                         (result, se) \<Rightarrow>
                           let ctx3 = ctx2\<lparr>cx_upgrade := u, cx_session := se\<rparr> in
                           if result \<noteq> DEVMGR_OK then failed (result, ctx3)
                           else
                             (case queue_upgrade_request env ctx3 of
                                (result, ctx4) \<Rightarrow>
                                  if result \<noteq> DEVMGR_OK then failed (result, ctx4) else (DEVMGR_OK, ctx4))))"

subsection \<open>Frames from the device\<close>

definition refusal :: "devmgr_frame \<Rightarrow> bool" where
  "refusal frame \<longleftrightarrow> fr_type frame = DEVMGR_MSG_NACK \<or> fr_type frame = DEVMGR_MSG_ERROR"

text \<open>The three kinds of accepted responses: to the handshake, to an upgrade request, to a client's request.\<close>

definition handshake_response :: "daemon_context \<Rightarrow> devmgr_frame \<Rightarrow> daemon_result" where
  "handshake_response ctx frame =
    (if refusal frame then (DEVMGR_ERROR_PROTOCOL, ctx)
     else case devmgr_session_transition (cx_session ctx) DEVMGR_SESSION_HANDSHAKE_OK of
            (result, se) \<Rightarrow> (result, ctx\<lparr>cx_session := se\<rparr>))"

definition upgrade_response :: "daemon_env \<Rightarrow> daemon_context \<Rightarrow> u8 \<Rightarrow> devmgr_frame \<Rightarrow> daemon_result" where
  "upgrade_response env ctx request_type frame =
    (case devmgr_upgrade_accept_response (cx_upgrade ctx) request_type frame of
       (result, u) \<Rightarrow>
         let ctx1 = ctx\<lparr>cx_upgrade := u\<rparr> in
         if result = DEVMGR_OK \<and> up_state u = DEVMGR_UPGRADE_COMPLETE then
           (result, close_firmware (session_event DEVMGR_SESSION_UPGRADE_DONE (ctx1\<lparr>cx_upgrade_result := DEVMGR_OK\<rparr>)))
         else if result \<noteq> DEVMGR_OK then
           (DEVMGR_OK, close_firmware (session_event DEVMGR_SESSION_UPGRADE_DONE (ctx1\<lparr>cx_upgrade_result := result\<rparr>)))
         else queue_upgrade_request env ctx1)"

definition client_response :: "daemon_env \<Rightarrow> daemon_context \<Rightarrow> u8 \<Rightarrow> devmgr_frame \<Rightarrow> daemon_result" where
  "client_response env ctx request_type frame =
    (let index = nat (cx_active_client ctx);
         ctx1 = ctx\<lparr>cx_active_client := -1\<rparr>;
         ctx2 = (if \<not> refusal frame then
                   if request_type = DEVMGR_MSG_START_TELEMETRY then session_event DEVMGR_SESSION_START_STREAM ctx1
                   else if request_type = DEVMGR_MSG_STOP_TELEMETRY then session_event DEVMGR_SESSION_STOP_STREAM ctx1
                   else ctx1
                 else ctx1)
     in queue_client_response env ctx2 index request_type
          (if refusal frame then DEVMGR_ERROR_PROTOCOL else DEVMGR_OK)
          (Some (fr_payload frame)) (unat (fr_payload_length frame)))"

definition on_device_frame :: "daemon_env \<Rightarrow> daemon_context frame_callback" where
  "on_device_frame env frame ctx =
    (if fr_type frame = DEVMGR_MSG_TELEMETRY \<and> fr_sequence frame = 0 then
       (DEVMGR_OK,
        if unat (fr_payload_length frame) = 16
        then ctx\<lparr>cx_latest_telemetry := fr_payload frame, cx_latest_telemetry_length := unat (fr_payload_length frame),
                 cx_telemetry_frames := cx_telemetry_frames ctx + 1\<rparr>
        else ctx)
     else
       let request_type = fr_type (pe_frame (se_pending (cx_session ctx))) in
       case devmgr_session_accept_response (cx_session ctx) frame of
         (result, se) \<Rightarrow>
           let ctx1 = ctx\<lparr>cx_session := se\<rparr> in
           if result \<noteq> DEVMGR_OK then (DEVMGR_OK, ctx1)
           else if se_state se = DEVMGR_DEVICE_HANDSHAKING then handshake_response ctx1 frame
           else if devmgr_upgrade_active (cx_upgrade ctx1) then upgrade_response env ctx1 request_type frame
           else if cx_active_client ctx1 \<ge> 0 then client_response env ctx1 request_type frame
           else (DEVMGR_OK, ctx1))"

text \<open>The write loop of \<open>flush_transport\<close>: whether it ended without an error.\<close>

function flush_loop :: "daemon_context \<Rightarrow> nat sysret list \<Rightarrow> bool \<times> daemon_context" where
  "flush_loop ctx results =
    (if cx_transport_output_offset ctx < length (cx_transport_output ctx) then
       case devmgr_transport_write (cx_transport ctx)
              (drop (cx_transport_output_offset ctx) (cx_transport_output ctx)) results of
         (Inr n, rest) \<Rightarrow>
           if n > 0
           then flush_loop (ctx\<lparr>cx_transport_output_offset := cx_transport_output_offset ctx + n\<rparr>) rest
           else (False, ctx)
       | (Inl e, rest) \<Rightarrow> (e = EAGAIN, ctx)
     else (True, ctx))"
  by pat_completeness auto
termination
  by (relation "measure (\<lambda>(ctx, results). length (cx_transport_output ctx) - cx_transport_output_offset ctx)")
     auto

declare flush_loop.simps [simp del]

definition flush_transport :: "daemon_env \<Rightarrow> daemon_context \<Rightarrow> nat sysret list \<Rightarrow> daemon_result" where
  "flush_transport env ctx results =
    (case flush_loop ctx results of
       (ok, ctx1) \<Rightarrow>
         if \<not> ok then (DEVMGR_ERROR_DISCONNECTED, ctx1)
         else update_transport_events env
                (if cx_transport_output_offset ctx1 = length (cx_transport_output ctx1)
                 then ctx1\<lparr>cx_transport_output_offset := 0, cx_transport_output := []\<rparr> else ctx1))"

function read_transport :: "daemon_env \<Rightarrow> daemon_context \<Rightarrow> bytes sysret list \<Rightarrow> daemon_result" where
  "read_transport env ctx results =
    (case devmgr_transport_read (cx_transport ctx) 2048 results of
       (Inr input, rest) \<Rightarrow>
         if input \<noteq> [] then
           (case devmgr_parser_feed (on_device_frame env) (cx_parser ctx) input ctx of
              (result, p, ctx1, emitted) \<Rightarrow>
                if result \<noteq> DEVMGR_OK then (result, ctx1\<lparr>cx_parser := p\<rparr>)
                else read_transport env (ctx1\<lparr>cx_parser := p\<rparr>) rest)
         else (DEVMGR_OK, ctx)
     | (Inl e, rest) \<Rightarrow> (if e = EAGAIN then DEVMGR_OK else DEVMGR_ERROR_DISCONNECTED, ctx))"
  by pat_completeness auto
termination
  by (relation "measure (\<lambda>(env, ctx, results). length results)")
     (auto dest: transport_read_progress [OF sym])

declare read_transport.simps [simp del]

subsection \<open>Requests of the clients\<close>

definition request_telemetry :: "daemon_env \<Rightarrow> daemon_context \<Rightarrow> nat \<Rightarrow> devmgr_ipc_request \<Rightarrow> daemon_result" where
  "request_telemetry env ctx index q =
    (if cx_latest_telemetry_length ctx = 0
     then queue_client_response env ctx index (rq_command q) DEVMGR_ERROR_NOT_FOUND None 0
     else queue_client_response env ctx index (rq_command q) DEVMGR_OK (Some (cx_latest_telemetry ctx))
            (cx_latest_telemetry_length ctx))"

text \<open>The C values of the enumeration.\<close>

fun upgrade_state_code :: "devmgr_upgrade_state \<Rightarrow> u8" where
  "upgrade_state_code DEVMGR_UPGRADE_IDLE = 0"
| "upgrade_state_code DEVMGR_UPGRADE_VALIDATING = 1"
| "upgrade_state_code DEVMGR_UPGRADE_ENTER_BOOTLOADER = 2"
| "upgrade_state_code DEVMGR_UPGRADE_BEGIN = 3"
| "upgrade_state_code DEVMGR_UPGRADE_TRANSFER = 4"
| "upgrade_state_code DEVMGR_UPGRADE_RECOVER = 5"
| "upgrade_state_code DEVMGR_UPGRADE_END = 6"
| "upgrade_state_code DEVMGR_UPGRADE_VERIFY = 7"
| "upgrade_state_code DEVMGR_UPGRADE_ACTIVATE = 8"
| "upgrade_state_code DEVMGR_UPGRADE_REBOOT = 9"
| "upgrade_state_code DEVMGR_UPGRADE_COMPLETE = 10"
| "upgrade_state_code DEVMGR_UPGRADE_ERROR = 11"

definition status_payload :: "daemon_context \<Rightarrow> bytes" where
  "status_payload ctx =
    devmgr_put_le32 (cx_upgrade_operation_id ctx) @ [upgrade_state_code (up_state (cx_upgrade ctx)), 0, 0, 0] @
    devmgr_put_le32 (status_word (cx_upgrade_result ctx)) @ devmgr_put_le32 (up_offset (cx_upgrade ctx)) @
    devmgr_put_le32 (of_nat (up_image_size (cx_upgrade ctx)))"

definition request_upgrade_status :: "daemon_env \<Rightarrow> daemon_context \<Rightarrow> nat \<Rightarrow> devmgr_ipc_request \<Rightarrow> daemon_result" where
  "request_upgrade_status env ctx index q =
    (if rq_payload_length q \<noteq> 4 \<or> cx_upgrade_operation_id ctx = 0 \<or>
        devmgr_get_le32 (rq_payload q) \<noteq> cx_upgrade_operation_id ctx
     then queue_client_response env ctx index (rq_command q) DEVMGR_ERROR_NOT_FOUND None 0
     else queue_client_response env ctx index (rq_command q) DEVMGR_OK (Some (status_payload ctx)) 20)"

text \<open>Path and version of an upgrade request: two C strings, both nonempty, the version not too long.\<close>

definition upgrade_arguments :: "devmgr_ipc_request \<Rightarrow> (bytes \<times> bytes) option" where
  "upgrade_arguments q =
    (let p = take (unat (rq_payload_length q)) (rq_payload q) in
     case memchr0 p of
       None \<Rightarrow> None
     | Some path_length \<Rightarrow>
         let version_offset = path_length + 1 in
         if path_length = 0 \<or> version_offset \<ge> unat (rq_payload_length q) then None
         else
           (case memchr0 (drop version_offset p) of
              None \<Rightarrow> None
            | Some version_length \<Rightarrow>
                if version_length = 0 \<or> version_length > DEVMGR_UPGRADE_VERSION_MAX then None
                else Some (take path_length p, take version_length (drop version_offset p))))"

definition request_upgrade :: "daemon_env \<Rightarrow> daemon_context \<Rightarrow> nat \<Rightarrow> devmgr_ipc_request \<Rightarrow> daemon_result" where
  "request_upgrade env ctx index q =
    (case upgrade_arguments q of
       None \<Rightarrow> queue_client_response env ctx index (rq_command q) DEVMGR_ERROR_INVALID None 0
     | Some (path, version) \<Rightarrow>
         if se_state (cx_session ctx) \<noteq> DEVMGR_DEVICE_READY \<or> cx_active_client ctx \<ge> 0 \<or>
            devmgr_upgrade_active (cx_upgrade ctx)
         then queue_client_response env ctx index (rq_command q) DEVMGR_ERROR_BUSY None 0
         else
           let operation = cx_upgrade_operation_id ctx + 1;
               ctx1 = set_upgrade_state DEVMGR_UPGRADE_VALIDATING
                 (ctx\<lparr>cx_upgrade_operation_id := if operation = 0 then 1 else operation,
                     cx_upgrade_result := DEVMGR_OK, cx_pending_upgrade_version := version\<rparr>)
           in case devmgr_worker_submit_firmware (cx_worker ctx1) (cx_upgrade_operation_id ctx1) (Some path) of
                (upgrade_result, w) \<Rightarrow>
                  let ctx2 = ctx1\<lparr>cx_worker := w\<rparr> in
                  if upgrade_result \<noteq> DEVMGR_OK then
                    queue_client_response env
                      (set_upgrade_state DEVMGR_UPGRADE_ERROR (ctx2\<lparr>cx_upgrade_result := upgrade_result\<rparr>))
                      index (rq_command q) upgrade_result None 0
                  else
                    queue_client_response env ctx2 index (rq_command q) DEVMGR_OK
                      (Some (devmgr_put_le32 (cx_upgrade_operation_id ctx2))) 4)"

text \<open>Requests passed on to the device.\<close>

definition request_device :: "daemon_env \<Rightarrow> daemon_context \<Rightarrow> nat \<Rightarrow> devmgr_ipc_request \<Rightarrow> daemon_result" where
  "request_device env ctx index q =
    (let refuse = (\<lambda>c e. queue_client_response env c index (rq_command q) e None 0);
         policy = \<lparr>timeout_ms = 1000, retry_interval_ms = 500, max_retries = 2\<rparr>
     in if devmgr_upgrade_active (cx_upgrade ctx) then refuse ctx DEVMGR_ERROR_BUSY
        else if rq_command q = DEVMGR_MSG_START_TELEMETRY \<and> se_state (cx_session ctx) \<noteq> DEVMGR_DEVICE_READY
        then refuse ctx DEVMGR_ERROR_STATE
        else if rq_command q = DEVMGR_MSG_STOP_TELEMETRY \<and> se_state (cx_session ctx) \<noteq> DEVMGR_DEVICE_STREAMING
        then refuse ctx DEVMGR_ERROR_STATE
        else if se_state (cx_session ctx) \<noteq> DEVMGR_DEVICE_READY \<and> se_state (cx_session ctx) \<noteq> DEVMGR_DEVICE_STREAMING
        then refuse ctx DEVMGR_ERROR_STATE
        else if cx_active_client ctx \<ge> 0 then refuse ctx DEVMGR_ERROR_BUSY
        else
          (case monotonic_ns env ctx of
             (now, ctx1) \<Rightarrow>
               (case devmgr_session_begin_request (cx_session ctx1) (rq_command q) DEVMGR_FRAME_ACK_REQUIRED
                       (Some (rq_payload q)) (ucast (rq_payload_length q)) policy now of
                  (Inl result, se) \<Rightarrow> refuse (ctx1\<lparr>cx_session := se\<rparr>) result
                | (Inr frame, se) \<Rightarrow>
                    (case queue_frame env (ctx1\<lparr>cx_session := se\<rparr>) frame of
                       (result, ctx2) \<Rightarrow>
                         if result \<noteq> DEVMGR_OK
                         then refuse (ctx2\<lparr>cx_session := devmgr_session_cancel_request (cx_session ctx2)\<rparr>) result
                         else (DEVMGR_OK, ctx2\<lparr>cx_active_client := int index\<rparr>)))))"

definition start_request :: "daemon_env \<Rightarrow> daemon_context \<Rightarrow> nat \<Rightarrow> devmgr_ipc_request \<Rightarrow> daemon_result" where
  "start_request env ctx client_index ipc_request =
    (if rq_command ipc_request = DEVMGR_IPC_GET_TELEMETRY then request_telemetry env ctx client_index ipc_request
     else if rq_command ipc_request = DEVMGR_IPC_UPGRADE_STATUS then request_upgrade_status env ctx client_index ipc_request
     else if rq_command ipc_request = DEVMGR_IPC_UPGRADE then request_upgrade env ctx client_index ipc_request
     else request_device env ctx client_index ipc_request)"

subsection \<open>Client connections\<close>

text \<open>One pass of the read loop over \<open>n > 0\<close> new bytes: \<open>None\<close> to read on, or the result of the handler.\<close>

definition client_bytes :: "daemon_env \<Rightarrow> daemon_context \<Rightarrow> nat \<Rightarrow> bytes \<Rightarrow> daemon_context \<times> daemon_result option" where
  "client_bytes env ctx index bs =
    (let client = cx_clients ctx ! index;
         c1 = client\<lparr>cl_input := cl_input client @ bs\<rparr>;
         header = length (cl_input c1) \<ge> DEVMGR_IPC_REQUEST_HEADER_SIZE \<and> cl_expected_size c1 = 0;
         payload_length = devmgr_get_le32 (drop 4 (cl_input c1))
     in if header \<and> unat payload_length > DEVMGR_IPC_MAX_PAYLOAD then
          (set_client ctx index c1,
           Some (queue_client_response env (set_client ctx index c1) index 0 DEVMGR_ERROR_LIMIT None 0))
        else
          let c2 = (if header then c1\<lparr>cl_expected_size := DEVMGR_IPC_REQUEST_HEADER_SIZE + unat payload_length\<rparr> else c1);
              ctx2 = set_client ctx index c2
          in if cl_expected_size c2 \<noteq> 0 \<and> length (cl_input c2) = cl_expected_size c2 then
               (ctx2,
                Some (case devmgr_ipc_decode_request (Some (cl_input c2)) False of
                        Inl result \<Rightarrow> queue_client_response env ctx2 index 0 result None 0
                      | Inr request \<Rightarrow> start_request env ctx2 index request))
             else (ctx2, None))"

fun handle_client_input :: "daemon_env \<Rightarrow> daemon_context \<Rightarrow> nat \<Rightarrow> bytes sysret list \<Rightarrow> daemon_result" where
  "handle_client_input env ctx index [] = (DEVMGR_OK, close_client ctx index)"
| "handle_client_input env ctx index (Inl e # results) =
    (if e = EAGAIN then (DEVMGR_OK, ctx)
     else if e \<noteq> EINTR then (DEVMGR_OK, close_client ctx index)
     else handle_client_input env ctx index results)"
| "handle_client_input env ctx index (Inr available # results) =
    (let bs = take (CLIENT_INPUT_SIZE - length (cl_input (cx_clients ctx ! index))) available in
     if bs = [] then (DEVMGR_OK, close_client ctx index)
     else
       case client_bytes env ctx index bs of
         (ctx1, Some r) \<Rightarrow> r
       | (ctx1, None) \<Rightarrow> handle_client_input env ctx1 index results)"

text \<open>The end of \<open>handle_client_output\<close>, behind its loop.\<close>

definition client_output_done :: "daemon_context \<Rightarrow> nat \<Rightarrow> daemon_context" where
  "client_output_done ctx index =
    (if cl_close_after_write (cx_clients ctx ! index) then close_client ctx index else ctx)"

fun handle_client_output :: "daemon_context \<Rightarrow> nat \<Rightarrow> nat sysret list \<Rightarrow> daemon_result" where
  "handle_client_output ctx index results =
    (let client = cx_clients ctx ! index in
     if cl_output_offset client < length (cl_output client) then
       (case results of
          [] \<Rightarrow> (DEVMGR_OK, close_client ctx index)
        | Inl e # rest \<Rightarrow> (DEVMGR_OK, if e = EAGAIN then ctx else close_client ctx index)
        | Inr n # rest \<Rightarrow>
            let written = min n (length (cl_output client) - cl_output_offset client) in
            if written = 0 then (DEVMGR_OK, close_client ctx index)
            else handle_client_output
                   (set_client ctx index (client\<lparr>cl_output_offset := cl_output_offset client + written\<rparr>)) index rest)
     else (DEVMGR_OK, client_output_done ctx index))"

declare handle_client_output.simps [simp del]

definition zero_client :: daemon_client where
  "zero_client = \<lparr>cl_fd = 0, cl_input = [], cl_expected_size = 0, cl_output = [], cl_output_offset = 0,
     cl_close_after_write = False\<rparr>"

definition free_slot :: "daemon_context \<Rightarrow> nat" where
  "free_slot ctx = length (takeWhile (\<lambda>c. cl_fd c \<ge> 0) (cx_clients ctx))"

definition accept_client :: "daemon_env \<Rightarrow> daemon_context \<Rightarrow> nat \<Rightarrow> daemon_context" where
  "accept_client env ctx fd =
    (let index = free_slot ctx in
     if index = MAX_CLIENTS then release [Closed fd] ctx
     else
       case epoll_update env (set_client ctx index (zero_client\<lparr>cl_fd := int fd\<rparr>)) (int fd) (EPOLLIN OR EPOLLRDHUP) of
         (result, ctx1) \<Rightarrow> if result \<noteq> DEVMGR_OK then close_client ctx1 index else ctx1)"

fun accept_clients :: "daemon_env \<Rightarrow> daemon_context \<Rightarrow> nat sysret list \<Rightarrow> daemon_result" where
  "accept_clients env ctx [] = (DEVMGR_ERROR_IO, ctx)"
| "accept_clients env ctx (Inl e # results) =
    (if e = EAGAIN then (DEVMGR_OK, ctx)
     else if e = EINTR then accept_clients env ctx results
     else (DEVMGR_ERROR_IO, ctx))"
| "accept_clients env ctx (Inr fd # results) = accept_clients env (accept_client env ctx fd) results"

subsection \<open>Setting up and tearing down\<close>

record listener_env =
  le_lstat :: "bool sysret"
  le_unlink_ok :: bool
  le_socket :: "nat option"
  le_bind_ok :: bool
  le_chmod_ok :: bool
  le_listen_ok :: bool

text \<open>
  The listening socket: the descriptor or -1, and the effects. \<open>lstat\<close> answers whether the path
  is a socket. \<open>sun_path\<close> has 108 bytes.
\<close>

definition create_listener :: "listener_env \<Rightarrow> bytes \<Rightarrow> int \<times> daemon_effect list" where
  "create_listener env path =
    (if length path = 0 \<or> length path \<ge> 108 then (-1, [])
     else
       case (case le_lstat env of
               Inr is_socket \<Rightarrow> if \<not> is_socket then None else if \<not> le_unlink_ok env then None else Some [Unlinked path]
             | Inl e \<Rightarrow> if e \<noteq> ENOENT then None else Some []) of
         None \<Rightarrow> (-1, [])
       | Some es \<Rightarrow>
           (case le_socket env of
              None \<Rightarrow> (-1, es)
            | Some fd \<Rightarrow>
                if \<not> le_bind_ok env \<or> \<not> le_chmod_ok env \<or> \<not> le_listen_ok env
                then (-1, es @ [Released (Closed fd), Unlinked path])
                else (int fd, es)))"

record devmgr_daemon_config =
  dc_device_path :: "bytes ptr"
  dc_socket_path :: "bytes ptr"

record setup_env =
  su_sigprocmask_ok :: bool
  su_worker :: worker_init_env
  su_serial :: serial_env
  su_listener :: listener_env
  su_epoll_create :: int
  su_timerfd :: int
  su_signalfd :: int
  su_settime_ok :: bool

text \<open>The context after \<open>memset\<close>, the assignments that follow it and the initialisation of session and upgrade.\<close>

definition fresh_context :: "devmgr_daemon_config \<Rightarrow> daemon_context" where
  "fresh_context config = \<lparr>cx_epoll_fd = -1, cx_listen_fd = -1, cx_timer_fd = -1, cx_signal_fd = -1,
     cx_transport = \<lparr>tr_fd = -1, tr_kind = 0\<rparr>, cx_parser = zero_parser, cx_session = devmgr_session_init,
     cx_clients = replicate MAX_CLIENTS (zero_client\<lparr>cl_fd := -1\<rparr>), cx_active_client = -1,
     cx_transport_output = [], cx_transport_output_offset = 0, cx_socket_path = dc_socket_path config,
     cx_running = True, cx_latest_telemetry = replicate 16 0, cx_latest_telemetry_length = 0,
     cx_telemetry_frames = 0, cx_firmware = \<lparr>fi_fd = -1, fi_data = None, fi_size = 0, fi_crc32 = 0\<rparr>,
     cx_upgrade = devmgr_upgrade_init, cx_upgrade_operation_id = 0, cx_upgrade_result = DEVMGR_OK,
     cx_worker = zero_worker\<lparr>wk_event_fd := 0\<rparr>, cx_pending_upgrade_version = [], cx_thread = Waiting,
     cx_calls = 0, cx_interest = (\<lambda>_. None), cx_effects = []\<rparr>"

text \<open>Registering descriptors one after the other until one fails.\<close>

fun watch_all :: "daemon_env \<Rightarrow> daemon_context \<Rightarrow> int list \<Rightarrow> daemon_result" where
  "watch_all env ctx [] = (DEVMGR_OK, ctx)"
| "watch_all env ctx (fd # fds) =
    (case epoll_update env ctx fd EPOLLIN of
       (result, ctx1) \<Rightarrow> if result \<noteq> DEVMGR_OK then (DEVMGR_ERROR_IO, ctx1) else watch_all env ctx1 fds)"

definition setup_context :: "daemon_env \<Rightarrow> setup_env \<Rightarrow> devmgr_daemon_config \<Rightarrow> daemon_result" where
  "setup_context env senv config =
    (let ctx = fresh_context config;
         transport_config = \<lparr>tc_kind = DEVMGR_TRANSPORT_SERIAL, tc_path = dc_device_path config,
                             tc_baud_rate = 115200, tc_hardware_flow_control = False\<rparr>
     in if \<not> su_sigprocmask_ok senv then (DEVMGR_ERROR_IO, ctx)
        else
          case devmgr_worker_init (su_worker senv) of
            (result, w) \<Rightarrow>
              let ctx1 = ctx\<lparr>cx_worker := w\<rparr> in
              if result \<noteq> DEVMGR_OK then (DEVMGR_ERROR_IO, ctx1)
              else
                (case devmgr_parser_init (cx_parser ctx1) of
                   (result, p) \<Rightarrow>
                     let ctx2 = ctx1\<lparr>cx_parser := p\<rparr> in
                     if result \<noteq> DEVMGR_OK then (DEVMGR_ERROR_IO, ctx2)
                     else
                       (case devmgr_transport_open (su_serial senv) (cx_transport ctx2) transport_config of
                          (result, t, line, es) \<Rightarrow>
                            let ctx3 = release es (ctx2\<lparr>cx_transport := t\<rparr>) in
                            if result \<noteq> DEVMGR_OK then (DEVMGR_ERROR_IO, ctx3)
                            else
                              (case create_listener (su_listener senv) (the (dc_socket_path config)) of
                                 (fd, es) \<Rightarrow>
                                   let ctx4 = ctx3\<lparr>cx_effects := cx_effects ctx3 @ es, cx_listen_fd := fd,
                                     cx_epoll_fd := su_epoll_create senv, cx_timer_fd := su_timerfd senv,
                                     cx_signal_fd := su_signalfd senv\<rparr>
                                   in if cx_listen_fd ctx4 < 0 \<or> cx_epoll_fd ctx4 < 0 \<or> cx_timer_fd ctx4 < 0 \<or>
                                         cx_signal_fd ctx4 < 0 \<or> \<not> su_settime_ok senv
                                      then (DEVMGR_ERROR_IO, ctx4)
                                      else watch_all env ctx4
                                             [cx_listen_fd ctx4, cx_timer_fd ctx4, cx_signal_fd ctx4,
                                              devmgr_worker_get_event_fd (Some (cx_worker ctx4)),
                                              devmgr_transport_get_fd (Some (cx_transport ctx4))]))))"

text \<open>
  The worker thread between two actions of the reactor: it wakes up, validates a job against the
  file system it finds, posts the result or signals the reactor. An action that does not fit its
  program counter does nothing.
\<close>

datatype thread_action = Thread_wakes | Thread_validates file_env | Thread_posts | Thread_notifies

fun thread_acts :: "thread_action \<Rightarrow> devmgr_worker \<times> worker_pc \<Rightarrow> devmgr_worker \<times> worker_pc" where
  "thread_acts Thread_wakes (w, Waiting) =
    (case worker_wake w of
       None \<Rightarrow> (w, Waiting)
     | Some (Exit_requested, w1) \<Rightarrow> (w1, Ended)
     | Some (Take_job i p, w1) \<Rightarrow> (w1, Validating i p))"
| "thread_acts (Thread_validates fenv) (w, Validating i p) = (w, Posting (fst (worker_validate fenv i p)))"
| "thread_acts Thread_posts (w, Posting r) = (worker_post r w, Notifying)"
| "thread_acts Thread_notifies (w, Notifying) = (w, Waiting)"
| "thread_acts _ s = s"

definition run_thread :: "thread_action list \<Rightarrow> daemon_context \<Rightarrow> daemon_context" where
  "run_thread acts ctx =
    (case fold thread_acts acts (cx_worker ctx, cx_thread ctx) of
       (w, pc) \<Rightarrow> ctx\<lparr>cx_worker := w, cx_thread := pc\<rparr>)"

text \<open>Stopping the worker: the thread runs to its end (\<open>acts\<close>), then its mailbox is emptied.\<close>

definition devmgr_worker_destroy :: "thread_action list \<Rightarrow> daemon_context \<Rightarrow> daemon_context" where
  "devmgr_worker_destroy acts ctx =
    (if \<not> wk_initialized (cx_worker ctx) then ctx
     else
       let ctx1 = run_thread acts (ctx\<lparr>cx_worker := worker_stop (cx_worker ctx)\<rparr>) in
       case worker_joined (cx_worker ctx1) of (w, es) \<Rightarrow> release es (ctx1\<lparr>cx_worker := w\<rparr>))"

definition close_fd :: "int \<Rightarrow> daemon_context \<Rightarrow> daemon_context" where
  "close_fd fd ctx = (if fd \<ge> 0 then release [Closed (nat fd)] ctx else ctx)"

definition cleanup_context :: "thread_action list \<Rightarrow> unit sysret list \<Rightarrow> daemon_context \<Rightarrow> daemon_context" where
  "cleanup_context acts closes ctx =
    (let ctx1 = fold (\<lambda>index c. close_client c index) [0..<MAX_CLIENTS] ctx;
         ctx2 = close_fd (cx_listen_fd ctx) (close_fd (cx_epoll_fd ctx) (close_fd (cx_timer_fd ctx)
                  (close_fd (cx_signal_fd ctx) ctx1)));
         ctx3 = (case devmgr_transport_close closes (cx_transport ctx2) of
                   (t, es) \<Rightarrow> release es (ctx2\<lparr>cx_transport := t\<rparr>));
         ctx4 = close_firmware (devmgr_worker_destroy acts ctx3)
     in case cx_socket_path ctx4 of
          None \<Rightarrow> ctx4
        | Some path \<Rightarrow> ctx4\<lparr>cx_effects := cx_effects ctx4 @ [Unlinked path]\<rparr>)"

definition start_handshake :: "daemon_env \<Rightarrow> daemon_context \<Rightarrow> daemon_result" where
  "start_handshake env ctx =
    (let policy = \<lparr>timeout_ms = 1000, retry_interval_ms = 500, max_retries = 3\<rparr> in
     case devmgr_session_transition (cx_session ctx) DEVMGR_SESSION_CONNECT of
       (result, se1) \<Rightarrow>
         if result \<noteq> DEVMGR_OK then (result, ctx\<lparr>cx_session := se1\<rparr>)
         else
           (case devmgr_session_transition se1 DEVMGR_SESSION_TRANSPORT_CONNECTED of
              (result, se2) \<Rightarrow>
                if result \<noteq> DEVMGR_OK then (result, ctx\<lparr>cx_session := se2\<rparr>)
                else
                  (case monotonic_ns env (ctx\<lparr>cx_session := se2\<rparr>) of
                     (now, ctx1) \<Rightarrow>
                       (case devmgr_session_begin_request se2 DEVMGR_MSG_PING DEVMGR_FRAME_ACK_REQUIRED None 0 policy now of
                          (Inl result, se3) \<Rightarrow> (result, ctx1\<lparr>cx_session := se3\<rparr>)
                        | (Inr frame, se3) \<Rightarrow> queue_frame env (ctx1\<lparr>cx_session := se3\<rparr>) frame))))"

subsection \<open>The event loop\<close>

text \<open>
  A ready descriptor with its flags, the results of the system calls its handler makes, and what the
  worker thread has done since the previous event.
\<close>

record daemon_event =
  ev_fd :: int
  ev_flags :: u32
  ev_reads :: "bytes sysret list"
  ev_writes :: "nat sysret list"
  ev_accepts :: "nat sysret list"
  ev_notified :: "nat sysret list"
  ev_thread :: "thread_action list"

definition has_flag :: "daemon_event \<Rightarrow> u32 \<Rightarrow> bool" where
  "has_flag ev bits \<longleftrightarrow> ev_flags ev AND bits \<noteq> 0"

text \<open>A request of an upgrade has timed out: recover, or give the upgrade up.\<close>

definition upgrade_timeout :: "daemon_env \<Rightarrow> daemon_context \<Rightarrow> daemon_context" where
  "upgrade_timeout env ctx =
    (let give_up = (\<lambda>c. session_event DEVMGR_SESSION_UPGRADE_DONE (close_firmware
           (set_upgrade_state DEVMGR_UPGRADE_ERROR (c\<lparr>cx_upgrade_result := DEVMGR_ERROR_TIMEOUT\<rparr>))))
     in case devmgr_upgrade_begin_recovery (cx_upgrade ctx) of
          (result, u) \<Rightarrow>
            if result \<noteq> DEVMGR_OK then give_up (ctx\<lparr>cx_upgrade := u\<rparr>)
            else
              (case queue_upgrade_request env (ctx\<lparr>cx_upgrade := u\<rparr>) of
                 (result, ctx1) \<Rightarrow> if result = DEVMGR_OK then ctx1 else give_up ctx1))"

definition handle_timer :: "daemon_env \<Rightarrow> daemon_context \<Rightarrow> daemon_result" where
  "handle_timer env ctx =
    (case monotonic_ns env ctx of
       (now, ctx1) \<Rightarrow>
         (case devmgr_session_tick (cx_session ctx1) now (retransmit_frame env) ctx1 of
            (result, se, ctx2) \<Rightarrow>
              let ctx3 = ctx2\<lparr>cx_session := se\<rparr> in
              if result \<noteq> DEVMGR_ERROR_TIMEOUT then (result, ctx3)
              else if devmgr_upgrade_active (cx_upgrade ctx3) then (DEVMGR_OK, upgrade_timeout env ctx3)
              else if cx_active_client ctx3 \<ge> 0 then
                queue_client_response env (ctx3\<lparr>cx_active_client := -1\<rparr>) (nat (cx_active_client ctx3)) 0
                  DEVMGR_ERROR_TIMEOUT None 0
              else (result, ctx3)))"

definition handle_transport :: "daemon_env \<Rightarrow> daemon_context \<Rightarrow> daemon_event \<Rightarrow> daemon_result" where
  "handle_transport env ctx ev =
    (case (if has_flag ev EPOLLOUT then flush_transport env ctx (ev_writes ev) else (DEVMGR_OK, ctx)) of
       (result, ctx1) \<Rightarrow>
         (case (if result = DEVMGR_OK \<and> has_flag ev EPOLLIN then read_transport env ctx1 (ev_reads ev) else (result, ctx1)) of
            (result, ctx2) \<Rightarrow>
              (if has_flag ev (EPOLLERR OR EPOLLHUP OR EPOLLRDHUP) then DEVMGR_ERROR_DISCONNECTED else result, ctx2)))"

definition handle_client :: "daemon_env \<Rightarrow> daemon_context \<Rightarrow> nat \<Rightarrow> daemon_event \<Rightarrow> daemon_result" where
  "handle_client env ctx index ev =
    (case (if has_flag ev EPOLLIN then handle_client_input env ctx index (ev_reads ev) else (DEVMGR_OK, ctx)) of
       (result, ctx1) \<Rightarrow>
         (case (if result = DEVMGR_OK \<and> cl_fd (cx_clients ctx1 ! index) \<ge> 0 \<and> has_flag ev EPOLLOUT
                then handle_client_output ctx1 index (ev_writes ev) else (result, ctx1)) of
            (result, ctx2) \<Rightarrow>
              (result,
               if cl_fd (cx_clients ctx2 ! index) \<ge> 0 \<and> has_flag ev (EPOLLERR OR EPOLLHUP OR EPOLLRDHUP)
               then close_client ctx2 index else ctx2)))"

definition handle_event :: "daemon_env \<Rightarrow> daemon_context \<Rightarrow> daemon_event \<Rightarrow> daemon_result" where
  "handle_event env ctx ev =
    (if ev_fd ev = cx_listen_fd ctx then accept_clients env ctx (ev_accepts ev)
     else if ev_fd ev = cx_signal_fd ctx then (DEVMGR_OK, ctx\<lparr>cx_running := False\<rparr>)
     else if ev_fd ev = devmgr_worker_get_event_fd (Some (cx_worker ctx))
     then handle_worker_completion env ctx (ev_notified ev)
     else if ev_fd ev = cx_timer_fd ctx then handle_timer env ctx
     else if ev_fd ev = devmgr_transport_get_fd (Some (cx_transport ctx)) then handle_transport env ctx ev
     else
       let index = length (takeWhile (\<lambda>c. cl_fd c \<noteq> ev_fd ev) (cx_clients ctx)) in
       if index < MAX_CLIENTS then handle_client env ctx index ev else (DEVMGR_OK, ctx))"

fun handle_events :: "daemon_env \<Rightarrow> daemon_context \<Rightarrow> daemon_event list \<Rightarrow> daemon_result" where
  "handle_events env ctx [] = (DEVMGR_OK, ctx)"
| "handle_events env ctx (ev # evs) =
    (case handle_event env (run_thread (ev_thread ev) ctx) ev of
       (result, ctx1) \<Rightarrow> if result \<noteq> DEVMGR_OK then (result, ctx1) else handle_events env ctx1 evs)"

datatype wait_result = Wait_interrupted | Wait_failed | Ready "daemon_event list"

text \<open>The loop over the answers of \<open>epoll_wait\<close>; \<open>None\<close> while it waits for another answer.\<close>

fun event_loop :: "daemon_env \<Rightarrow> daemon_context \<Rightarrow> wait_result list \<Rightarrow> daemon_result option" where
  "event_loop env ctx waits =
    (if \<not> cx_running ctx then Some (DEVMGR_OK, ctx)
     else
       case waits of
         [] \<Rightarrow> None
       | Wait_interrupted # rest \<Rightarrow> event_loop env ctx rest
       | Wait_failed # rest \<Rightarrow> Some (DEVMGR_ERROR_IO, ctx)
       | Ready evs # rest \<Rightarrow>
           (case handle_events env ctx evs of
              (result, ctx1) \<Rightarrow> if result \<noteq> DEVMGR_OK then Some (result, ctx1) else event_loop env ctx1 rest))"

declare event_loop.simps [simp del]

definition devmgr_daemon_run ::
  "daemon_env \<Rightarrow> setup_env \<Rightarrow> devmgr_daemon_config ptr \<Rightarrow> wait_result list \<Rightarrow> thread_action list \<Rightarrow> unit sysret list \<Rightarrow>
   (devmgr_status \<times> daemon_effect list) option" where
  "devmgr_daemon_run env senv config waits acts closes =
    (case config of
       None \<Rightarrow> Some (DEVMGR_ERROR_INVALID, [])
     | Some c \<Rightarrow>
         if dc_device_path c = None \<or> dc_socket_path c = None then Some (DEVMGR_ERROR_INVALID, [])
         else
           let finish = (\<lambda>(result, ctx). (result, cx_effects (cleanup_context acts closes ctx))) in
           case setup_context env senv c of
             (result, ctx) \<Rightarrow>
               if result \<noteq> DEVMGR_OK then Some (finish (result, ctx))
               else
                 (case start_handshake env ctx of
                    (result, ctx1) \<Rightarrow>
                      if result \<noteq> DEVMGR_OK then Some (finish (result, ctx1))
                      else map_option finish (event_loop env ctx1 waits)))"

end
