(* ===== verification/Daemon_Inv.thy ===== *)
theory Daemon_Inv
  imports Daemon
begin

section \<open>Invariants of the daemon\<close>

text \<open>
  What holds of the daemon's context between any two events: buffers stay inside their arrays,
  parser and session keep their invariants, an upgrade in progress holds the mapped image its
  requests are cut from and nothing else holds one, and a client that waits for the device has a
  pending request. Each handler keeps this, whatever the operating system answers and whatever the
  worker thread does in between.
\<close>

subsection \<open>The invariant\<close>

definition working :: "devmgr_upgrade \<Rightarrow> bool" where
  "working u \<longleftrightarrow> devmgr_upgrade_active u \<and> up_state u \<noteq> DEVMGR_UPGRADE_VALIDATING"

definition job_held :: "devmgr_upgrade \<Rightarrow> devmgr_firmware_image \<Rightarrow> bool" where
  "job_held u fw \<longleftrightarrow> upgrade_inv u \<and> image_valid fw \<and> up_image_data u = fi_data fw \<and> up_image_size u = fi_size fw"

definition upgrade_ok :: "devmgr_session \<Rightarrow> devmgr_upgrade \<Rightarrow> devmgr_firmware_image \<Rightarrow> bool" where
  "upgrade_ok se u fw \<longleftrightarrow> (se_state se = DEVMGR_DEVICE_UPGRADING \<longleftrightarrow> working u) \<and>
     (if working u then job_held u fw else fw = zero_image)"

definition waiting_ok :: "devmgr_session \<Rightarrow> devmgr_upgrade \<Rightarrow> int \<Rightarrow> int list \<Rightarrow> bool" where
  "waiting_ok se u a fds \<longleftrightarrow> -1 \<le> a \<and> (0 \<le> a \<longrightarrow> nat a < length fds \<and> 0 \<le> fds ! nat a \<and> pe_active (se_pending se) \<and>
     \<not> devmgr_upgrade_active u \<and> (se_state se = DEVMGR_DEVICE_READY \<or> se_state se = DEVMGR_DEVICE_STREAMING))"

definition result_ok :: "devmgr_validation_result \<Rightarrow> bool" where
  "result_ok r \<longleftrightarrow> (vr_status r = DEVMGR_OK \<longrightarrow> image_valid (vr_image r))"

definition mailbox_ok :: "devmgr_worker \<Rightarrow> worker_pc \<Rightarrow> bool" where
  "mailbox_ok w pc \<longleftrightarrow> (wk_result_pending w \<longrightarrow> result_ok (wk_result w)) \<and>
     (case pc of Posting r \<Rightarrow> result_ok r | _ \<Rightarrow> True)"

definition client_ok :: "daemon_client \<Rightarrow> bool" where
  "client_ok c \<longleftrightarrow> length (cl_input c) \<le> CLIENT_INPUT_SIZE \<and> cl_output_offset c \<le> length (cl_output c) \<and>
     length (cl_output c) \<le> CLIENT_OUTPUT_SIZE"

definition io_ok :: "daemon_context \<Rightarrow> bool" where
  "io_ok ctx \<longleftrightarrow> length (cx_clients ctx) = MAX_CLIENTS \<and> (\<forall>c \<in> set (cx_clients ctx). client_ok c) \<and>
     cx_transport_output_offset ctx \<le> length (cx_transport_output ctx) \<and>
     length (cx_transport_output ctx) \<le> DEVMGR_PROTOCOL_MAX_FRAME \<and>
     length (cx_latest_telemetry ctx) = 16 \<and> cx_latest_telemetry_length ctx \<le> 16 \<and>
     0 \<notin> set (cx_pending_upgrade_version ctx)"

abbreviation client_fds :: "daemon_context \<Rightarrow> int list" where
  "client_fds ctx \<equiv> map cl_fd (cx_clients ctx)"

definition daemon_inv :: "daemon_context \<Rightarrow> bool" where
  "daemon_inv ctx \<longleftrightarrow> session_inv (cx_session ctx) \<and> upgrade_ok (cx_session ctx) (cx_upgrade ctx) (cx_firmware ctx) \<and>
     waiting_ok (cx_session ctx) (cx_upgrade ctx) (cx_active_client ctx) (client_fds ctx) \<and>
     mailbox_ok (cx_worker ctx) (cx_thread ctx) \<and> io_ok ctx \<and> parser_inv (cx_parser ctx)"

text \<open>Fields the invariant does not look at.\<close>

lemma io_ok_simps [simp]:
  "io_ok (ctx\<lparr>cx_calls := n\<rparr>) = io_ok ctx" "io_ok (ctx\<lparr>cx_interest := m\<rparr>) = io_ok ctx"
  "io_ok (ctx\<lparr>cx_effects := es\<rparr>) = io_ok ctx" "io_ok (ctx\<lparr>cx_running := b\<rparr>) = io_ok ctx"
  "io_ok (ctx\<lparr>cx_session := se\<rparr>) = io_ok ctx" "io_ok (ctx\<lparr>cx_upgrade := u\<rparr>) = io_ok ctx"
  "io_ok (ctx\<lparr>cx_firmware := fw\<rparr>) = io_ok ctx" "io_ok (ctx\<lparr>cx_worker := w\<rparr>) = io_ok ctx"
  "io_ok (ctx\<lparr>cx_thread := pc\<rparr>) = io_ok ctx" "io_ok (ctx\<lparr>cx_active_client := a\<rparr>) = io_ok ctx"
  "io_ok (ctx\<lparr>cx_upgrade_result := r\<rparr>) = io_ok ctx" "io_ok (ctx\<lparr>cx_upgrade_operation_id := i\<rparr>) = io_ok ctx"
  "io_ok (ctx\<lparr>cx_parser := p\<rparr>) = io_ok ctx"
  "io_ok (ctx\<lparr>cx_telemetry_frames := k\<rparr>) = io_ok ctx" "io_ok (ctx\<lparr>cx_transport := t\<rparr>) = io_ok ctx"
  by (simp_all add: io_ok_def)

lemma daemon_inv_simps [simp]:
  "daemon_inv (ctx\<lparr>cx_calls := n\<rparr>) = daemon_inv ctx" "daemon_inv (ctx\<lparr>cx_interest := m\<rparr>) = daemon_inv ctx"
  "daemon_inv (ctx\<lparr>cx_effects := es\<rparr>) = daemon_inv ctx" "daemon_inv (ctx\<lparr>cx_running := b\<rparr>) = daemon_inv ctx"
  "daemon_inv (ctx\<lparr>cx_upgrade_result := r\<rparr>) = daemon_inv ctx" "daemon_inv (ctx\<lparr>cx_upgrade_operation_id := i\<rparr>) = daemon_inv ctx"
  "daemon_inv (ctx\<lparr>cx_telemetry_frames := k\<rparr>) = daemon_inv ctx" "daemon_inv (ctx\<lparr>cx_transport := t\<rparr>) = daemon_inv ctx"
  "daemon_inv (release es' ctx) = daemon_inv ctx"
  by (simp_all add: daemon_inv_def release_def)

lemma release_fields [simp]:
  "cx_session (release es ctx) = cx_session ctx" "cx_upgrade (release es ctx) = cx_upgrade ctx"
  "cx_firmware (release es ctx) = cx_firmware ctx" "cx_clients (release es ctx) = cx_clients ctx"
  "cx_active_client (release es ctx) = cx_active_client ctx" "cx_worker (release es ctx) = cx_worker ctx"
  "cx_thread (release es ctx) = cx_thread ctx" "io_ok (release es ctx) = io_ok ctx"
  "cx_parser (release es ctx) = cx_parser ctx" "cx_calls (release es ctx) = cx_calls ctx"
  by (simp_all add: release_def)

lemma daemon_invI:
  assumes "session_inv (cx_session ctx)" "upgrade_ok (cx_session ctx) (cx_upgrade ctx) (cx_firmware ctx)"
    "waiting_ok (cx_session ctx) (cx_upgrade ctx) (cx_active_client ctx) (client_fds ctx)"
    "mailbox_ok (cx_worker ctx) (cx_thread ctx)" "io_ok ctx" "parser_inv (cx_parser ctx)"
  shows "daemon_inv ctx"
  using assms by (simp add: daemon_inv_def)

lemma daemon_invD:
  assumes "daemon_inv ctx"
  shows "session_inv (cx_session ctx)" "upgrade_ok (cx_session ctx) (cx_upgrade ctx) (cx_firmware ctx)"
    "waiting_ok (cx_session ctx) (cx_upgrade ctx) (cx_active_client ctx) (client_fds ctx)"
    "mailbox_ok (cx_worker ctx) (cx_thread ctx)" "io_ok ctx" "length (cx_clients ctx) = 16"
    "parser_inv (cx_parser ctx)"
  using assms by (simp_all add: daemon_inv_def io_ok_def)

subsection \<open>Output\<close>

text \<open>The part of the context that queueing output leaves alone: everything but buffers and the kernel's tables.\<close>

definition quiet :: "daemon_context \<Rightarrow> daemon_context" where
  "quiet ctx = ctx\<lparr>cx_clients := map (\<lambda>c. zero_client\<lparr>cl_fd := cl_fd c\<rparr>) (cx_clients ctx), cx_transport_output := [],
     cx_transport_output_offset := 0, cx_calls := 0, cx_interest := (\<lambda>_. None)\<rparr>"

lemma quiet_fields:
  assumes "quiet a = quiet b"
  shows "cx_session a = cx_session b" "cx_upgrade a = cx_upgrade b" "cx_firmware a = cx_firmware b"
    "cx_active_client a = cx_active_client b" "cx_worker a = cx_worker b" "cx_thread a = cx_thread b"
    "cx_parser a = cx_parser b" "cx_transport a = cx_transport b" "cx_latest_telemetry a = cx_latest_telemetry b"
    "cx_latest_telemetry_length a = cx_latest_telemetry_length b" "client_fds a = client_fds b"
    "cx_effects a = cx_effects b" "cx_upgrade_operation_id a = cx_upgrade_operation_id b"
    "cx_pending_upgrade_version a = cx_pending_upgrade_version b" "cx_upgrade_result a = cx_upgrade_result b"
    "cx_running a = cx_running b" "cx_listen_fd a = cx_listen_fd b" "cx_signal_fd a = cx_signal_fd b"
    "cx_timer_fd a = cx_timer_fd b"
proof -
  have "map (cl_fd \<circ> (\<lambda>c. zero_client\<lparr>cl_fd := cl_fd c\<rparr>)) (cx_clients a) =
      map (cl_fd \<circ> (\<lambda>c. zero_client\<lparr>cl_fd := cl_fd c\<rparr>)) (cx_clients b)"
    using arg_cong [OF assms, of "\<lambda>c. map cl_fd (cx_clients c)"] by (simp add: quiet_def)
  then show "client_fds a = client_fds b" by (simp add: comp_def)
qed (use arg_cong [OF assms, of cx_session] arg_cong [OF assms, of cx_upgrade] arg_cong [OF assms, of cx_firmware]
    arg_cong [OF assms, of cx_active_client] arg_cong [OF assms, of cx_worker] arg_cong [OF assms, of cx_thread]
    arg_cong [OF assms, of cx_parser] arg_cong [OF assms, of cx_transport] arg_cong [OF assms, of cx_latest_telemetry]
    arg_cong [OF assms, of cx_latest_telemetry_length] arg_cong [OF assms, of cx_effects]
    arg_cong [OF assms, of cx_upgrade_operation_id] arg_cong [OF assms, of cx_pending_upgrade_version]
    arg_cong [OF assms, of cx_upgrade_result] arg_cong [OF assms, of cx_running] arg_cong [OF assms, of cx_listen_fd]
    arg_cong [OF assms, of cx_signal_fd] arg_cong [OF assms, of cx_timer_fd] in \<open>simp_all add: quiet_def\<close>)

lemma daemon_inv_quiet:
  assumes "quiet a = quiet b" "daemon_inv b" "io_ok a"
  shows "daemon_inv a"
  using assms(2,3) quiet_fields [OF assms(1)] by (simp add: daemon_inv_def)

lemma quiet_updates [simp]:
  "quiet (ctx\<lparr>cx_calls := n\<rparr>) = quiet ctx" "quiet (ctx\<lparr>cx_interest := m\<rparr>) = quiet ctx"
  "quiet (ctx\<lparr>cx_transport_output := w\<rparr>) = quiet ctx" "quiet (ctx\<lparr>cx_transport_output_offset := k\<rparr>) = quiet ctx"
  by (simp_all add: quiet_def)

lemma quiet_set_client:
  "cl_fd c = cl_fd (cx_clients ctx ! i) \<Longrightarrow> i < length (cx_clients ctx) \<Longrightarrow> quiet (set_client ctx i c) = quiet ctx"
  by (simp add: quiet_def set_client_def map_update list_update_same_conv)

lemma epoll_update_quiet [simp]: "quiet (snd (epoll_update env ctx fd events)) = quiet ctx"
  by (simp add: epoll_update_def Let_def)

lemma epoll_update_io [simp]:
  "io_ok (snd (epoll_update env ctx fd events)) = io_ok ctx" "cx_clients (snd (epoll_update env ctx fd events)) = cx_clients ctx"
  "cx_transport_output (snd (epoll_update env ctx fd events)) = cx_transport_output ctx"
  "cx_transport_output_offset (snd (epoll_update env ctx fd events)) = cx_transport_output_offset ctx"
  "cx_latest_telemetry (snd (epoll_update env ctx fd events)) = cx_latest_telemetry ctx"
  "cx_latest_telemetry_length (snd (epoll_update env ctx fd events)) = cx_latest_telemetry_length ctx"
  "cx_pending_upgrade_version (snd (epoll_update env ctx fd events)) = cx_pending_upgrade_version ctx"
  by (simp_all add: epoll_update_def Let_def)

lemma io_ok_set_client: "io_ok ctx \<Longrightarrow> client_ok c \<Longrightarrow> io_ok (set_client ctx i c)"
  by (auto simp: io_ok_def set_client_def dest!: set_update_subset_insert [THEN subsetD])

lemma client_at: "io_ok ctx \<Longrightarrow> i < 16 \<Longrightarrow> client_ok (cx_clients ctx ! i)"
  by (simp add: io_ok_def)

lemma encode_response_length:
  "devmgr_ipc_encode_response (Some r) False n False = Inr w \<Longrightarrow> length w \<le> n"
  by (auto simp: devmgr_ipc_encode_response_def Let_def split: if_splits)

lemma queue_client_response_quiet:
  assumes "io_ok ctx" "i < 16"
  shows "quiet (snd (queue_client_response env ctx i cmd st p n)) = quiet ctx"
    "io_ok (snd (queue_client_response env ctx i cmd st p n))"
proof -
  have l: "i < length (cx_clients ctx)" using assms by (simp add: io_ok_def)
  show "quiet (snd (queue_client_response env ctx i cmd st p n)) = quiet ctx"
    using l by (auto simp: queue_client_response_def Let_def quiet_set_client split: sum.split)
  show "io_ok (snd (queue_client_response env ctx i cmd st p n))"
    using assms client_at [OF assms] unfolding queue_client_response_def Let_def
    by (auto split: sum.split intro!: io_ok_set_client dest!: encode_response_length simp: client_ok_def)
qed

lemma queue_client_response_ok:
  "daemon_inv ctx \<Longrightarrow> i < 16 \<Longrightarrow> daemon_inv (snd (queue_client_response env ctx i cmd st p n))"
  using queue_client_response_quiet daemon_inv_quiet daemon_invD(5) by metis

lemma frame_encode_length: "devmgr_frame_encode f n = Inr w \<Longrightarrow> length w \<le> n"
  by (auto simp: devmgr_frame_encode_def frame_body_def Let_def split: if_splits)

lemma queue_frame_quiet:
  shows "quiet (snd (queue_frame env ctx f)) = quiet ctx"
    and "io_ok ctx \<Longrightarrow> io_ok (snd (queue_frame env ctx f))"
proof -
  show "quiet (snd (queue_frame env ctx f)) = quiet ctx"
    by (auto simp: queue_frame_def update_transport_events_def Let_def split: sum.split)
  show "io_ok (snd (queue_frame env ctx f))" if "io_ok ctx"
    using that by (auto simp: queue_frame_def update_transport_events_def Let_def io_ok_def
        dest!: frame_encode_length split: sum.split)
qed

lemma queue_frame_ok: "daemon_inv ctx \<Longrightarrow> daemon_inv (snd (queue_frame env ctx f))"
  using queue_frame_quiet daemon_inv_quiet daemon_invD(5) by metis

subsection \<open>Session and upgrade\<close>

lemma transition_done:
  "se_state (snd (devmgr_session_transition se DEVMGR_SESSION_UPGRADE_DONE)) =
     (if se_state se = DEVMGR_DEVICE_UPGRADING then DEVMGR_DEVICE_READY else se_state se)"
  "se_pending (snd (devmgr_session_transition se DEVMGR_SESSION_UPGRADE_DONE)) = se_pending se"
  by (cases "se_state se"; simp add: devmgr_session_transition_def)+

lemma transition_start_upgrade:
  "devmgr_session_transition se DEVMGR_SESSION_START_UPGRADE =
    (if se_state se = DEVMGR_DEVICE_READY then (DEVMGR_OK, se\<lparr>se_state := DEVMGR_DEVICE_UPGRADING\<rparr>) else (DEVMGR_ERROR_STATE, se))"
  by (cases "se_state se") (simp_all add: devmgr_session_transition_def)

lemma transition_stream:
  assumes "e = DEVMGR_SESSION_START_STREAM \<or> e = DEVMGR_SESSION_STOP_STREAM"
    "se_state se = DEVMGR_DEVICE_READY \<or> se_state se = DEVMGR_DEVICE_STREAMING"
  shows "se_state (snd (devmgr_session_transition se e)) \<in> {DEVMGR_DEVICE_READY, DEVMGR_DEVICE_STREAMING}"
  using assms by (auto simp: devmgr_session_transition_def)

lemma transition_handshake:
  "se_state se = DEVMGR_DEVICE_HANDSHAKING \<Longrightarrow>
   devmgr_session_transition se DEVMGR_SESSION_HANDSHAKE_OK = (DEVMGR_OK, se\<lparr>se_state := DEVMGR_DEVICE_READY\<rparr>)"
  by (simp add: devmgr_session_transition_def)

lemma transition_snd_inv: "session_inv se \<Longrightarrow> session_inv (snd (devmgr_session_transition se e))"
  using transition_inv by (metis prod.collapse)

lemma accept_response_state:
  assumes "devmgr_session_accept_response se f = (r, se')"
  shows "se_state se' = se_state se" "r \<noteq> DEVMGR_OK \<Longrightarrow> se_pending se' = se_pending se"
    "r = DEVMGR_OK \<Longrightarrow> se_pending se' = (se_pending se)\<lparr>pe_active := False\<rparr>"
  using assms by (auto simp: devmgr_session_accept_response_def Let_def split: if_splits)

lemma begin_request_state:
  assumes "devmgr_session_begin_request se t fl p n policy now = (x, se')"
  shows "se_state se' = se_state se" "\<And>q. x = Inr q \<Longrightarrow> pe_active (se_pending se')"
    "\<And>e. x = Inl e \<Longrightarrow> e \<noteq> DEVMGR_OK \<and> se' = se"
  using assms by (auto simp: devmgr_session_begin_request_def Let_def split: if_splits)

lemma tick_state:
  assumes "devmgr_session_tick se now cb c = (r, se', c')"
  shows "se_state se' = se_state se"
    "r \<noteq> DEVMGR_ERROR_TIMEOUT \<Longrightarrow> pe_active (se_pending se') = pe_active (se_pending se)"
    "c' = c \<or> c' = snd (cb (retry_frame se) c)"
  using assms by (auto simp: devmgr_session_tick_def Let_def split: if_splits prod.splits)

lemma cancel_state:
  "se_state (devmgr_session_cancel_request se) = se_state se"
  "\<not> pe_active (se_pending (devmgr_session_cancel_request se))"
  by (simp_all add: devmgr_session_cancel_request_def)

lemma build_request_error: "devmgr_upgrade_build_request u = (Inl e, u') \<Longrightarrow> e \<noteq> DEVMGR_OK"
  by (cases "up_state u") (auto simp: devmgr_upgrade_build_request_def Let_def split: if_splits)

text \<open>The context without session, upgrade and output.\<close>

definition aside :: "daemon_context \<Rightarrow> daemon_context" where
  "aside ctx = (quiet ctx)\<lparr>cx_session := devmgr_session_init, cx_upgrade := devmgr_upgrade_init\<rparr>"

lemma aside_alt: "aside ctx = quiet (ctx\<lparr>cx_session := devmgr_session_init, cx_upgrade := devmgr_upgrade_init\<rparr>)"
  by (cases ctx) (simp add: aside_def quiet_def)

lemma aside_quiet: "quiet a = quiet b \<Longrightarrow> aside a = aside b"
  by (simp add: aside_def)

lemma aside_simps [simp]: "aside (a\<lparr>cx_session := se\<rparr>) = aside a" "aside (a\<lparr>cx_upgrade := u\<rparr>) = aside a"
  by (cases a; simp add: aside_def quiet_def)+

lemma aside_fields:
  assumes "aside a = aside b"
  shows "cx_firmware a = cx_firmware b" "cx_active_client a = cx_active_client b" "cx_worker a = cx_worker b"
    "cx_thread a = cx_thread b" "client_fds a = client_fds b" "cx_parser a = cx_parser b" "cx_transport a = cx_transport b"
    "cx_effects a = cx_effects b" "cx_listen_fd a = cx_listen_fd b" "cx_signal_fd a = cx_signal_fd b"
    "cx_timer_fd a = cx_timer_fd b" "cx_running a = cx_running b" "cx_upgrade_operation_id a = cx_upgrade_operation_id b"
  using quiet_fields [OF assms [unfolded aside_alt]] by simp_all

lemma monotonic_ns_fields [simp]:
  "quiet (snd (monotonic_ns env ctx)) = quiet ctx" "io_ok (snd (monotonic_ns env ctx)) = io_ok ctx"
  "cx_session (snd (monotonic_ns env ctx)) = cx_session ctx" "cx_upgrade (snd (monotonic_ns env ctx)) = cx_upgrade ctx"
  "cx_firmware (snd (monotonic_ns env ctx)) = cx_firmware ctx"
  by (simp_all add: monotonic_ns_def)

lemma queue_frame_session [simp]:
  "cx_session (snd (queue_frame env ctx f)) = cx_session ctx" "cx_upgrade (snd (queue_frame env ctx f)) = cx_upgrade ctx"
  "aside (snd (queue_frame env ctx f)) = aside ctx"
  using quiet_fields [OF queue_frame_quiet(1)] aside_quiet [OF queue_frame_quiet(1)] by simp_all

lemma job_held_build:
  assumes "job_held u fw" "devmgr_upgrade_build_request u = (x, u')"
  shows "job_held u' fw" "working u' = working u" "devmgr_upgrade_active u' = devmgr_upgrade_active u"
  using assms upgrade_build_inv [of u x u'] build_request_frame [OF assms(2)]
  by (simp_all add: job_held_def working_def devmgr_upgrade_active_def)

lemma queue_upgrade_request_effect:
  assumes h: "queue_upgrade_request env ctx = (r, ctx')" and j: "job_held (cx_upgrade ctx) fw"
    and se: "session_inv (cx_session ctx)" and io: "io_ok ctx"
  shows "job_held (cx_upgrade ctx') fw \<and> working (cx_upgrade ctx') = working (cx_upgrade ctx) \<and>
    session_inv (cx_session ctx') \<and> se_state (cx_session ctx') = se_state (cx_session ctx) \<and>
    aside ctx' = aside ctx \<and> io_ok ctx'"
proof -
  obtain x u where b: "devmgr_upgrade_build_request (cx_upgrade ctx) = (x, u)" by (rule prod.exhaust)
  note jb = job_held_build [OF j b]
  show ?thesis
  proof (cases x)
    case (Inl e)
    then have "ctx' = ctx\<lparr>cx_upgrade := u, cx_session := devmgr_session_cancel_request (cx_session ctx)\<rparr>"
      using h b by (simp add: queue_upgrade_request_def Let_def)
    then show ?thesis using jb se io by (simp add: cancel_inv cancel_state)
  next
    case (Inr f)
    have wf: "frame_wf f" using build_request_wf [of "cx_upgrade ctx" f u] b Inr j by (simp add: job_held_def)
    obtain now ctx1 where m: "monotonic_ns env (ctx\<lparr>cx_upgrade := u\<rparr>) = (now, ctx1)" by (rule prod.exhaust)
    have c1: "cx_session ctx1 = cx_session ctx" "cx_upgrade ctx1 = u" "aside ctx1 = aside ctx" "io_ok ctx1"
      using monotonic_ns_fields [of env "ctx\<lparr>cx_upgrade := u\<rparr>"] aside_quiet [of ctx1 "ctx\<lparr>cx_upgrade := u\<rparr>"] m io by simp_all
    let ?policy = "\<lparr>timeout_ms = 2000, retry_interval_ms = 750, max_retries = 4\<rparr>"
    obtain y se1 where br: "devmgr_session_begin_request (cx_session ctx1) (fr_type f) (fr_flags f)
        (Some (fr_payload f)) (fr_payload_length f) ?policy now = (y, se1)" by (rule prod.exhaust)
    have s1: "session_inv se1" "se_state se1 = se_state (cx_session ctx)"
      using begin_request_inv [OF _ _ br] begin_request_state(1) [OF br] se wf c1(1) by (simp_all add: frame_wf_def)
    show ?thesis
    proof (cases y)
      case (Inl e)
      then have "ctx' = ctx1\<lparr>cx_session := devmgr_session_cancel_request se1\<rparr>"
        using h b m br \<open>x = Inr f\<close> by (simp add: queue_upgrade_request_def Let_def)
      then show ?thesis using c1 s1 jb by (simp add: cancel_inv cancel_state)
    next
      case (Inr q)
      obtain r2 ctx2 where qf: "queue_frame env (ctx1\<lparr>cx_session := se1\<rparr>) q = (r2, ctx2)" by (rule prod.exhaust)
      have c2: "cx_session ctx2 = se1" "cx_upgrade ctx2 = u" "aside ctx2 = aside ctx" "io_ok ctx2"
        using queue_frame_session [of env "ctx1\<lparr>cx_session := se1\<rparr>" q] queue_frame_quiet(2) [of "ctx1\<lparr>cx_session := se1\<rparr>" env q]
          c1 qf by simp_all
      have "ctx' = (if r2 \<noteq> DEVMGR_OK then ctx2\<lparr>cx_session := devmgr_session_cancel_request se1\<rparr> else ctx2)"
        using h b m br qf c2(1) \<open>x = Inr f\<close> Inr by (auto simp: queue_upgrade_request_def Let_def split: if_splits)
      then show ?thesis using c2 s1 jb by (simp add: cancel_inv cancel_state)
    qed
  qed
qed

subsection \<open>Frames from the device\<close>

lemma close_firmware_fields [simp]:
  "cx_firmware (close_firmware ctx) = zero_image" "cx_session (close_firmware ctx) = cx_session ctx"
  "cx_upgrade (close_firmware ctx) = cx_upgrade ctx" "cx_active_client (close_firmware ctx) = cx_active_client ctx"
  "cx_clients (close_firmware ctx) = cx_clients ctx" "cx_worker (close_firmware ctx) = cx_worker ctx"
  "cx_thread (close_firmware ctx) = cx_thread ctx" "io_ok (close_firmware ctx) = io_ok ctx"
  "cx_parser (close_firmware ctx) = cx_parser ctx"
  by (simp_all add: close_firmware_def devmgr_firmware_close_def)

lemma session_event_fields [simp]:
  "cx_firmware (session_event e ctx) = cx_firmware ctx"
  "cx_session (session_event e ctx) = snd (devmgr_session_transition (cx_session ctx) e)"
  "cx_upgrade (session_event e ctx) = cx_upgrade ctx" "cx_active_client (session_event e ctx) = cx_active_client ctx"
  "cx_clients (session_event e ctx) = cx_clients ctx" "cx_worker (session_event e ctx) = cx_worker ctx"
  "cx_thread (session_event e ctx) = cx_thread ctx" "io_ok (session_event e ctx) = io_ok ctx"
  "cx_parser (session_event e ctx) = cx_parser ctx"
  by (simp_all add: session_event_def)

lemma set_upgrade_state_fields [simp]:
  "cx_firmware (set_upgrade_state st ctx) = cx_firmware ctx" "cx_session (set_upgrade_state st ctx) = cx_session ctx"
  "cx_upgrade (set_upgrade_state st ctx) = (cx_upgrade ctx)\<lparr>up_state := st\<rparr>"
  "cx_active_client (set_upgrade_state st ctx) = cx_active_client ctx"
  "cx_clients (set_upgrade_state st ctx) = cx_clients ctx" "cx_worker (set_upgrade_state st ctx) = cx_worker ctx"
  "cx_thread (set_upgrade_state st ctx) = cx_thread ctx" "io_ok (set_upgrade_state st ctx) = io_ok ctx"
  "cx_parser (set_upgrade_state st ctx) = cx_parser ctx"
  "cx_upgrade_operation_id (set_upgrade_state st ctx) = cx_upgrade_operation_id ctx"
  by (simp_all add: set_upgrade_state_def)

lemma ended_upgrade:
  assumes "up_state u = DEVMGR_UPGRADE_COMPLETE \<or> up_state u = DEVMGR_UPGRADE_ERROR \<or> up_state u = DEVMGR_UPGRADE_IDLE"
  shows "\<not> working u" "\<not> devmgr_upgrade_active u"
  using assms by (auto simp: working_def devmgr_upgrade_active_def)

text \<open>An upgrade that has ended: the image is given back and the session leaves \<open>UPGRADING\<close>.\<close>

lemma upgrade_ended_ok:
  assumes "session_inv (cx_session ctx)" "cx_active_client ctx = -1" "mailbox_ok (cx_worker ctx) (cx_thread ctx)" "io_ok ctx"
    "parser_inv (cx_parser ctx)"
    and "up_state (cx_upgrade ctx) = DEVMGR_UPGRADE_COMPLETE \<or> up_state (cx_upgrade ctx) = DEVMGR_UPGRADE_ERROR"
  shows "daemon_inv (close_firmware (session_event DEVMGR_SESSION_UPGRADE_DONE ctx))"
proof -
  have "\<not> working (cx_upgrade ctx)" using ended_upgrade(1) assms(6) by blast
  then show ?thesis
    using assms by (intro daemon_invI) (simp_all add: transition_snd_inv upgrade_ok_def waiting_ok_def transition_done)
qed

lemma active_no_client:
  "waiting_ok se u a fds \<Longrightarrow> devmgr_upgrade_active u \<Longrightarrow> a = -1"
  by (auto simp: waiting_ok_def)

lemma accept_working:
  assumes "job_held u fw" "working u" "devmgr_upgrade_accept_response u t f = (DEVMGR_OK, u')"
    "up_state u' \<noteq> DEVMGR_UPGRADE_COMPLETE"
  shows "job_held u' fw" "working u'"
proof -
  have m: "upgrade_inv u'" using upgrade_accept_inv assms(1,3) by (auto simp: job_held_def)
  then show "job_held u' fw" using assms(1) accept_response_fixed [OF assms(3)] by (simp add: job_held_def)
  have "up_state u' \<noteq> DEVMGR_UPGRADE_ERROR"
    using assms(3) unfolding devmgr_upgrade_accept_response_def Let_def after_offset_def
    by (cases "up_state u") (auto split: if_splits)
  then show "working u'" using m assms(4) by (auto simp: working_def devmgr_upgrade_active_def upgrade_inv_def upgrade_progress_def)
qed

lemma accept_validating:
  "up_state u = DEVMGR_UPGRADE_VALIDATING \<Longrightarrow>
   devmgr_upgrade_accept_response u t f = (DEVMGR_ERROR_PROTOCOL, u\<lparr>up_state := DEVMGR_UPGRADE_ERROR\<rparr>)"
  by (simp add: devmgr_upgrade_accept_response_def)

lemma upgrade_response_ok:
  assumes ok: "daemon_inv ctx" and act: "devmgr_upgrade_active (cx_upgrade ctx)"
  shows "daemon_inv (snd (upgrade_response env ctx t f))"
proof -
  note D = daemon_invD [OF ok]
  have a: "cx_active_client ctx = -1" using active_no_client [OF D(3) act] .
  obtain r u where ar: "devmgr_upgrade_accept_response (cx_upgrade ctx) t f = (r, u)" by (rule prod.exhaust)
  consider "r \<noteq> DEVMGR_OK" | "r = DEVMGR_OK" "up_state u = DEVMGR_UPGRADE_COMPLETE"
    | "r = DEVMGR_OK" "up_state u \<noteq> DEVMGR_UPGRADE_COMPLETE" by blast
  then show ?thesis
  proof cases
    case 1
    have "up_state u = DEVMGR_UPGRADE_ERROR" using accept_response_error [OF ar] 1 by simp
    then have "daemon_inv (close_firmware (session_event DEVMGR_SESSION_UPGRADE_DONE (ctx\<lparr>cx_upgrade := u, cx_upgrade_result := r\<rparr>)))"
      using D a by (intro upgrade_ended_ok) simp_all
    then show ?thesis using 1 ar by (simp add: upgrade_response_def Let_def)
  next
    case 2
    then have "daemon_inv (close_firmware (session_event DEVMGR_SESSION_UPGRADE_DONE (ctx\<lparr>cx_upgrade := u, cx_upgrade_result := DEVMGR_OK\<rparr>)))"
      using D a by (intro upgrade_ended_ok) simp_all
    then show ?thesis using 2 ar by (simp add: upgrade_response_def Let_def)
  next
    case 3
    have w: "working (cx_upgrade ctx)" using accept_validating ar 3(1) act by (auto simp: working_def)
    then have j: "job_held (cx_upgrade ctx) (cx_firmware ctx)" "se_state (cx_session ctx) = DEVMGR_DEVICE_UPGRADING"
      using D(2) by (simp_all add: upgrade_ok_def)
    note ju = accept_working [OF j(1) w ar [unfolded 3(1)] 3(2)]
    obtain r2 ctx2 where q: "queue_upgrade_request env (ctx\<lparr>cx_upgrade := u\<rparr>) = (r2, ctx2)" by (rule prod.exhaust)
    have e: "job_held (cx_upgrade ctx2) (cx_firmware ctx)" "working (cx_upgrade ctx2)" "session_inv (cx_session ctx2)"
      "se_state (cx_session ctx2) = DEVMGR_DEVICE_UPGRADING" "aside ctx2 = aside ctx" "io_ok ctx2"
      using queue_upgrade_request_effect [OF q, of "cx_firmware ctx"] ju j(2) D by simp_all
    have "daemon_inv ctx2"
      using e D a aside_fields [OF e(5)] by (intro daemon_invI) (simp_all add: upgrade_ok_def waiting_ok_def)
    then show ?thesis using 3 ar q by (simp add: upgrade_response_def Let_def)
  qed
qed

lemma client_response_ok:
  assumes ok: "daemon_inv (ctx\<lparr>cx_active_client := -1\<rparr>)" and a: "0 \<le> cx_active_client ctx" "nat (cx_active_client ctx) < 16"
    and st: "se_state (cx_session ctx) = DEVMGR_DEVICE_READY \<or> se_state (cx_session ctx) = DEVMGR_DEVICE_STREAMING"
  shows "daemon_inv (snd (client_response env ctx t f))"
proof -
  let ?c = "ctx\<lparr>cx_active_client := -1\<rparr>"
  note D = daemon_invD [OF ok]
  have ev: "daemon_inv (session_event e ?c)" if "e = DEVMGR_SESSION_START_STREAM \<or> e = DEVMGR_SESSION_STOP_STREAM" for e
  proof -
    have s: "se_state (snd (devmgr_session_transition (cx_session ctx) e)) \<noteq> DEVMGR_DEVICE_UPGRADING"
      using transition_stream [OF that st] by auto
    have "\<not> working (cx_upgrade ctx)" using D(2) st by (auto simp: upgrade_ok_def)
    then show ?thesis
      using D s by (intro daemon_invI) (auto simp: transition_snd_inv upgrade_ok_def waiting_ok_def)
  qed
  show ?thesis
    unfolding client_response_def Let_def
    by (intro queue_client_response_ok a(2)) (use ok ev in simp)
qed

lemma on_device_frame_ok:
  assumes ok: "daemon_inv ctx" and wf: "frame_wf f"
  shows "daemon_inv (snd (on_device_frame env f ctx))"
proof -
  note D = daemon_invD [OF ok]
  show ?thesis
  proof (cases "fr_type f = DEVMGR_MSG_TELEMETRY \<and> fr_sequence f = 0")
    case True
    have "daemon_inv (ctx\<lparr>cx_latest_telemetry := fr_payload f, cx_latest_telemetry_length := unat (fr_payload_length f),
        cx_telemetry_frames := n\<rparr>)" if "unat (fr_payload_length f) = 16" for n
      using ok wf that by (simp add: daemon_inv_def io_ok_def frame_wf_def)
    then show ?thesis using True ok by (simp add: on_device_frame_def)
  next
    case False
    let ?t = "fr_type (pe_frame (se_pending (cx_session ctx)))"
    obtain r se where ar: "devmgr_session_accept_response (cx_session ctx) f = (r, se)" by (rule prod.exhaust)
    note A = accept_response_state [OF ar] and si = accept_response_inv [OF D(1) ar]
    let ?c = "ctx\<lparr>cx_session := se\<rparr>"
    have eq: "on_device_frame env f ctx =
      (if r \<noteq> DEVMGR_OK then (DEVMGR_OK, ?c)
       else if se_state se = DEVMGR_DEVICE_HANDSHAKING then handshake_response ?c f
       else if devmgr_upgrade_active (cx_upgrade ctx) then upgrade_response env ?c ?t f
       else if cx_active_client ctx \<ge> 0 then client_response env ?c ?t f
       else (DEVMGR_OK, ?c))"
      using False ar unfolding on_device_frame_def Let_def by (simp only: if_False prod.case) simp
    have up: "upgrade_ok se (cx_upgrade ctx) (cx_firmware ctx)" using D(2) A(1) by (simp add: upgrade_ok_def)
    have free: "daemon_inv (?c\<lparr>cx_active_client := -1\<rparr>)"
      using D si up by (intro daemon_invI) (simp_all add: waiting_ok_def)
    have same: "daemon_inv ?c" if "cx_active_client ctx = -1"
    proof -
      have "?c\<lparr>cx_active_client := -1\<rparr> = ?c" using that by simp
      then show ?thesis using free by simp
    qed
    have low: "-1 \<le> cx_active_client ctx" using D(3) by (simp add: waiting_ok_def)
    show ?thesis
    proof (cases "r = DEVMGR_OK")
      case no: False
      have "waiting_ok se (cx_upgrade ctx) (cx_active_client ctx) (client_fds ctx)"
        using D(3) A(1) A(2) [OF no] by (simp add: waiting_ok_def del: nth_map)
      then have "daemon_inv ?c" using D si up by (intro daemon_invI) simp_all
      then show ?thesis using no by (simp add: eq)
    next
      case yes: True
      show ?thesis
      proof (cases "se_state se = DEVMGR_DEVICE_HANDSHAKING")
        case True
        have na: "cx_active_client ctx = -1" using D(3) True A(1) low by (auto simp: waiting_ok_def)
        have "\<not> working (cx_upgrade ctx)" using up True by (simp add: upgrade_ok_def)
        then have "daemon_inv (?c\<lparr>cx_session := se\<lparr>se_state := DEVMGR_DEVICE_READY\<rparr>\<rparr>)"
          using D si up na by (intro daemon_invI) (simp_all add: waiting_ok_def upgrade_ok_def session_inv_def)
        then show ?thesis
          using yes True same [OF na] by (simp add: eq handshake_response_def transition_handshake)
      next
        case nh: False
        show ?thesis
        proof (cases "devmgr_upgrade_active (cx_upgrade ctx)")
          case True
          have "daemon_inv ?c" using same active_no_client [OF D(3) True] by simp
          then show ?thesis using upgrade_response_ok [of ?c env ?t f] yes nh True by (simp add: eq)
        next
          case na: False
          show ?thesis
          proof (cases "0 \<le> cx_active_client ctx")
            case True
            have "daemon_inv (snd (client_response env ?c ?t f))"
              by (rule client_response_ok) (use free True D(3,6) A(1) in \<open>auto simp: waiting_ok_def\<close>)
            then show ?thesis using yes nh na True by (simp add: eq)
          next
            case False
            then have "daemon_inv ?c" using same low by simp
            then show ?thesis using yes nh na False by (simp add: eq)
          qed
        qed
      qed
    qed
  qed
qed

lemma on_device_frame_keeps: "keeps (on_device_frame env) daemon_inv"
  by (simp add: keeps_def on_device_frame_ok)

subsection \<open>Timeouts and results of the worker\<close>

lemma no_upgrade_ok:
  assumes "session_inv (cx_session ctx)" "se_state (cx_session ctx) \<noteq> DEVMGR_DEVICE_UPGRADING" "\<not> working (cx_upgrade ctx)"
    "cx_firmware ctx = zero_image" "cx_active_client ctx = -1" "mailbox_ok (cx_worker ctx) (cx_thread ctx)" "io_ok ctx"
    "parser_inv (cx_parser ctx)"
  shows "daemon_inv ctx"
  using assms by (intro daemon_invI) (simp_all add: upgrade_ok_def waiting_ok_def)

lemma error_state [simp]: "\<not> working (u\<lparr>up_state := DEVMGR_UPGRADE_ERROR\<rparr>)"
  by (simp add: working_def devmgr_upgrade_active_def)

lemma validating_state [simp]: "\<not> working (u\<lparr>up_state := DEVMGR_UPGRADE_VALIDATING\<rparr>)"
  by (simp add: working_def)

lemma result_fields [simp]:
  "cx_session (ctx\<lparr>cx_upgrade_result := r\<rparr>) = cx_session ctx" "cx_active_client (ctx\<lparr>cx_upgrade_result := r\<rparr>) = cx_active_client ctx"
  "cx_worker (ctx\<lparr>cx_upgrade_result := r\<rparr>) = cx_worker ctx" "cx_thread (ctx\<lparr>cx_upgrade_result := r\<rparr>) = cx_thread ctx"
  by simp_all

definition give_up :: "devmgr_status \<Rightarrow> daemon_context \<Rightarrow> daemon_context" where
  "give_up r c = session_event DEVMGR_SESSION_UPGRADE_DONE
     (close_firmware (set_upgrade_state DEVMGR_UPGRADE_ERROR (c\<lparr>cx_upgrade_result := r\<rparr>)))"

lemma give_up_ok:
  assumes "session_inv (cx_session c)" "cx_active_client c = -1" "mailbox_ok (cx_worker c) (cx_thread c)" "io_ok c"
    "parser_inv (cx_parser c)"
  shows "daemon_inv (give_up r c)"
  unfolding give_up_def
  by (rule no_upgrade_ok) (use assms in \<open>simp_all add: transition_snd_inv transition_done\<close>)

lemma transition_done_idle:
  "se_state se \<noteq> DEVMGR_DEVICE_UPGRADING \<Longrightarrow> snd (devmgr_session_transition se DEVMGR_SESSION_UPGRADE_DONE) = se"
  by (cases "se_state se") (auto simp: devmgr_session_transition_def)

lemma upgrade_timeout_alt:
  "upgrade_timeout env ctx =
    (case devmgr_upgrade_begin_recovery (cx_upgrade ctx) of
       (result, u) \<Rightarrow>
         if result \<noteq> DEVMGR_OK then give_up DEVMGR_ERROR_TIMEOUT (ctx\<lparr>cx_upgrade := u\<rparr>)
         else
           (case queue_upgrade_request env (ctx\<lparr>cx_upgrade := u\<rparr>) of
              (result, ctx1) \<Rightarrow> if result = DEVMGR_OK then ctx1 else give_up DEVMGR_ERROR_TIMEOUT ctx1))"
  by (simp only: upgrade_timeout_def give_up_def Let_def)

lemma recovery_working:
  assumes "job_held u fw" "devmgr_upgrade_begin_recovery u = (DEVMGR_OK, u')"
  shows "job_held u' fw" "working u'"
  using assms upgrade_recovery_inv [of u DEVMGR_OK u']
  by (auto simp: devmgr_upgrade_begin_recovery_def job_held_def working_def devmgr_upgrade_active_def split: if_splits)

lemma queued_upgrade_ok:
  assumes "queue_upgrade_request env ctx = (r, ctx')" "job_held (cx_upgrade ctx) (cx_firmware ctx)" "working (cx_upgrade ctx)"
    "se_state (cx_session ctx) = DEVMGR_DEVICE_UPGRADING" "cx_active_client ctx = -1"
    "session_inv (cx_session ctx)" "mailbox_ok (cx_worker ctx) (cx_thread ctx)" "io_ok ctx"
    "parser_inv (cx_parser ctx)"
  shows "daemon_inv ctx'" "daemon_inv (give_up e ctx')"
proof -
  have e: "job_held (cx_upgrade ctx') (cx_firmware ctx)" "working (cx_upgrade ctx')" "session_inv (cx_session ctx')"
    "se_state (cx_session ctx') = DEVMGR_DEVICE_UPGRADING" "aside ctx' = aside ctx" "io_ok ctx'"
    using queue_upgrade_request_effect [OF assms(1), of "cx_firmware ctx"] assms by simp_all
  note f = aside_fields [OF e(5)]
  show "daemon_inv ctx'" using e f assms by (intro daemon_invI) (simp_all add: upgrade_ok_def waiting_ok_def)
  show "daemon_inv (give_up e ctx')" using e f assms by (intro give_up_ok) simp_all
qed

lemma upgrade_timeout_ok:
  assumes ok: "daemon_inv ctx" and act: "devmgr_upgrade_active (cx_upgrade ctx)"
  shows "daemon_inv (upgrade_timeout env ctx)"
proof -
  note D = daemon_invD [OF ok]
  have a: "cx_active_client ctx = -1" using active_no_client [OF D(3) act] .
  obtain r u where br: "devmgr_upgrade_begin_recovery (cx_upgrade ctx) = (r, u)" by (rule prod.exhaust)
  show ?thesis
  proof (cases "r = DEVMGR_OK")
    case False
    have "daemon_inv (give_up DEVMGR_ERROR_TIMEOUT (ctx\<lparr>cx_upgrade := u\<rparr>))"
      using D a by (intro give_up_ok) simp_all
    then show ?thesis using False br by (simp add: upgrade_timeout_alt)
  next
    case True
    have "up_state (cx_upgrade ctx) \<noteq> DEVMGR_UPGRADE_VALIDATING"
      using br True by (auto simp: devmgr_upgrade_begin_recovery_def split: if_splits)
    then have j: "job_held (cx_upgrade ctx) (cx_firmware ctx)" "se_state (cx_session ctx) = DEVMGR_DEVICE_UPGRADING"
      using D(2) act by (simp_all add: upgrade_ok_def working_def)
    note ju = recovery_working [OF j(1) br [unfolded True]]
    obtain r2 ctx2 where q: "queue_upgrade_request env (ctx\<lparr>cx_upgrade := u\<rparr>) = (r2, ctx2)" by (rule prod.exhaust)
    note qo = queued_upgrade_ok [OF q]
    show ?thesis
      using qo ju j(2) a D True br q by (simp add: upgrade_timeout_alt)
  qed
qed

lemma handle_timer_ok:
  assumes ok: "daemon_inv ctx"
  shows "daemon_inv (snd (handle_timer env ctx))"
proof -
  obtain now ctx1 where m: "monotonic_ns env ctx = (now, ctx1)" by (rule prod.exhaust)
  have q1: "quiet ctx1 = quiet ctx" "io_ok ctx1"
    using monotonic_ns_fields(1,2) [of env ctx] daemon_invD(5) [OF ok] m by simp_all
  have ok1: "daemon_inv ctx1" using daemon_inv_quiet [OF q1(1) ok q1(2)] .
  obtain r se ctx2 where t: "devmgr_session_tick (cx_session ctx1) now (retransmit_frame env) ctx1 = (r, se, ctx2)"
    by (rule prod_cases3)
  have q2: "quiet ctx2 = quiet ctx1" "io_ok ctx2"
    using tick_state(3) [OF t] queue_frame_quiet daemon_invD(5) [OF ok1] by (auto simp: retransmit_frame_def)
  note f = quiet_fields [OF q2(1)] and S = tick_state [OF t] and D = daemon_invD [OF ok1]
  have si: "session_inv se" using tick_inv [OF D(1) t] .
  let ?c = "ctx2\<lparr>cx_session := se\<rparr>"
  have up: "upgrade_ok se (cx_upgrade ctx2) (cx_firmware ctx2)" using D(2) S(1) f by (simp add: upgrade_ok_def)
  have free: "daemon_inv (?c\<lparr>cx_active_client := -1\<rparr>)"
    using D si up f q2(2) by (intro daemon_invI) (simp_all add: waiting_ok_def)
  have low: "-1 \<le> cx_active_client ctx2" using D(3) f by (simp add: waiting_ok_def)
  have none: "daemon_inv ?c" if "cx_active_client ctx2 = -1"
  proof -
    have "?c\<lparr>cx_active_client := -1\<rparr> = ?c" using that by simp
    then show ?thesis using free by simp
  qed
  have eq: "handle_timer env ctx =
     (if r \<noteq> DEVMGR_ERROR_TIMEOUT then (r, ?c)
      else if devmgr_upgrade_active (cx_upgrade ctx2) then (DEVMGR_OK, upgrade_timeout env ?c)
      else if cx_active_client ctx2 \<ge> 0 then
        queue_client_response env (?c\<lparr>cx_active_client := -1\<rparr>) (nat (cx_active_client ctx2)) 0 DEVMGR_ERROR_TIMEOUT None 0
      else (r, ?c))"
    unfolding handle_timer_def m prod.case t Let_def by simp
  show ?thesis
  proof (cases "r = DEVMGR_ERROR_TIMEOUT")
    case False
    have "waiting_ok se (cx_upgrade ctx2) (cx_active_client ctx2) (client_fds ctx2)"
      using D(3) S(1) S(2) [OF False] f unfolding waiting_ok_def by (simp del: nth_map)
    then have "daemon_inv ?c" using D si up f q2(2) by (intro daemon_invI) simp_all
    then show ?thesis using False by (simp add: eq)
  next
    case True
    show ?thesis
    proof (cases "devmgr_upgrade_active (cx_upgrade ctx2)")
      case act: True
      have "cx_active_client ctx2 = -1" using active_no_client [OF D(3)] act f by simp
      then have "daemon_inv (upgrade_timeout env ?c)" using upgrade_timeout_ok none act by simp
      then show ?thesis using True act by (simp add: eq)
    next
      case na: False
      show ?thesis
      proof (cases "0 \<le> cx_active_client ctx2")
        case wait: True
        have "nat (cx_active_client ctx2) < 16" using D(3,6) f wait by (simp add: waiting_ok_def)
        then show ?thesis using True na wait queue_client_response_ok [OF free] by (simp add: eq)
      next
        case False
        then have "daemon_inv ?c" using none low by simp
        then show ?thesis using True na False by (simp add: eq)
      qed
    qed
  qed
qed

lemma failed_give_up:
  "(let c1 = close_firmware (set_upgrade_state DEVMGR_UPGRADE_ERROR (c\<lparr>cx_upgrade_result := r\<rparr>))
    in (DEVMGR_OK, if se_state (cx_session c1) = DEVMGR_DEVICE_UPGRADING
                   then session_event DEVMGR_SESSION_UPGRADE_DONE c1 else c1)) = (DEVMGR_OK, give_up r c)"
  by (simp add: give_up_def Let_def session_event_def transition_done_idle)

lemma handle_worker_completion_alt:
  assumes "fst (retry_eintr results) = Inr 8" "devmgr_worker_take_result (cx_worker ctx) = (Inr v, w)"
    "vr_job_id v = cx_upgrade_operation_id ctx" "up_state (cx_upgrade ctx) = DEVMGR_UPGRADE_VALIDATING"
    "vr_status v = DEVMGR_OK"
  shows "handle_worker_completion env ctx results =
    (let ctx2 = ctx\<lparr>cx_worker := w, cx_firmware := vr_image v\<rparr> in
     case devmgr_upgrade_start (cx_upgrade ctx) (fi_data (vr_image v)) (fi_size (vr_image v)) (fi_crc32 (vr_image v))
            (Some (cx_pending_upgrade_version ctx)) DEVMGR_UPGRADE_DEFAULT_CHUNK of
       (result, u) \<Rightarrow>
         if result \<noteq> DEVMGR_OK then (DEVMGR_OK, give_up result (ctx2\<lparr>cx_upgrade := u\<rparr>))
         else
           (case devmgr_session_transition (cx_session ctx) DEVMGR_SESSION_START_UPGRADE of
              (result, se) \<Rightarrow>
                let ctx3 = ctx2\<lparr>cx_upgrade := u, cx_session := se\<rparr> in
                if result \<noteq> DEVMGR_OK then (DEVMGR_OK, give_up result ctx3)
                else
                  (case queue_upgrade_request env ctx3 of
                     (result, ctx4) \<Rightarrow>
                       if result \<noteq> DEVMGR_OK then (DEVMGR_OK, give_up result ctx4) else (DEVMGR_OK, ctx4))))"
  unfolding handle_worker_completion_def assms(1,2) prod.case sum.case Let_def [of "\<lambda>(result, c). _ result c"]
    failed_give_up
  using assms(3-5) by (simp add: Let_def cong: prod.case_cong if_cong)

lemma upgrade_start_working:
  assumes "image_valid fw" "devmgr_upgrade_start u (fi_data fw) (fi_size fw) crc v c = (DEVMGR_OK, u')"
  shows "job_held u' fw" "working u'"
  using assms upgrade_start_inv [OF assms(2)]
  by (auto simp: image_valid_def job_held_def working_def devmgr_upgrade_active_def devmgr_upgrade_start_def split: if_splits)

lemma take_result_ok:
  assumes "mailbox_ok w pc" "devmgr_worker_take_result w = (x, w')"
  shows "mailbox_ok w' pc" "x = Inr v \<Longrightarrow> result_ok v"
  using assms by (auto simp: devmgr_worker_take_result_def mailbox_ok_def Let_def split: if_splits)

lemma handle_worker_completion_ok:
  assumes ok: "daemon_inv ctx"
  shows "daemon_inv (snd (handle_worker_completion env ctx results))"
proof -
  note D = daemon_invD [OF ok]
  obtain x w where tr: "devmgr_worker_take_result (cx_worker ctx) = (x, w)" by (rule prod.exhaust)
  note T = take_result_ok [OF D(4) tr]
  have keep: "daemon_inv (ctx\<lparr>cx_worker := w\<rparr>)" using D T(1) by (intro daemon_invI) simp_all
  show ?thesis
  proof (cases "fst (retry_eintr results) = Inr 8")
    case False
    then show ?thesis using ok by (simp add: handle_worker_completion_def)
  next
    case True
    show ?thesis
    proof (cases x)
      case (Inl e)
      then show ?thesis using True tr keep by (simp add: handle_worker_completion_def)
    next
      case (Inr v)
      show ?thesis
      proof (cases "vr_job_id v = cx_upgrade_operation_id ctx \<and> up_state (cx_upgrade ctx) = DEVMGR_UPGRADE_VALIDATING")
        case stale: False
        then show ?thesis using True Inr tr keep by (auto simp: handle_worker_completion_def Let_def)
      next
        case val: True
        have nw: "\<not> working (cx_upgrade ctx)" using val by (simp add: working_def)
        have a: "cx_active_client ctx = -1"
          using active_no_client [OF D(3)] val by (simp add: devmgr_upgrade_active_def)
        show ?thesis
        proof (cases "vr_status v = DEVMGR_OK")
          case False
          have "daemon_inv (set_upgrade_state DEVMGR_UPGRADE_ERROR (ctx\<lparr>cx_worker := w, cx_upgrade_result := vr_status v\<rparr>))"
            by (rule no_upgrade_ok) (use D(1,2,5,7) T(1) nw a in \<open>simp_all add: upgrade_ok_def\<close>)
          then show ?thesis using True Inr tr val False by (simp add: handle_worker_completion_def Let_def)
        next
          case st: True
          have iv: "image_valid (vr_image v)" using T(2) [OF Inr] st by (simp add: result_ok_def)
          obtain r u where us: "devmgr_upgrade_start (cx_upgrade ctx) (fi_data (vr_image v)) (fi_size (vr_image v))
              (fi_crc32 (vr_image v)) (Some (cx_pending_upgrade_version ctx)) DEVMGR_UPGRADE_DEFAULT_CHUNK = (r, u)"
            by (rule prod.exhaust)
          let ?c = "ctx\<lparr>cx_worker := w, cx_firmware := vr_image v, cx_upgrade := u\<rparr>"
          note alt = handle_worker_completion_alt [OF True tr [unfolded Inr] val [THEN conjunct1] val [THEN conjunct2] st,
              of env, unfolded us prod.case Let_def transition_start_upgrade]
          show ?thesis
          proof (cases "r = DEVMGR_OK")
            case False
            have "daemon_inv (give_up r ?c)" by (rule give_up_ok) (use D T(1) a in simp_all)
            then show ?thesis using False by (simp add: alt)
          next
            case ro: True
            note uw = upgrade_start_working [OF iv us [unfolded ro]]
            show ?thesis
            proof (cases "se_state (cx_session ctx) = DEVMGR_DEVICE_READY")
              case False
              have "daemon_inv (give_up DEVMGR_ERROR_STATE ?c)" by (rule give_up_ok) (use D T(1) a in simp_all)
              then show ?thesis using False ro by (simp add: alt)
            next
              case rd: True
              let ?d = "?c\<lparr>cx_session := (cx_session ctx)\<lparr>se_state := DEVMGR_DEVICE_UPGRADING\<rparr>\<rparr>"
              obtain r2 ctx4 where q: "queue_upgrade_request env ?d = (r2, ctx4)" by (rule prod.exhaust)
              have "session_inv (cx_session ?d)" using D(1) by (simp add: session_inv_def)
              then have "daemon_inv ctx4" "daemon_inv (give_up r2 ctx4)"
                using queued_upgrade_ok [OF q] uw a D T(1) by simp_all
              then show ?thesis using ro rd q by (simp add: alt)
            qed
          qed
        qed
      qed
    qed
  qed
qed

subsection \<open>Requests of the clients\<close>

lemma submit_ok:
  assumes "mailbox_ok w pc" "devmgr_worker_submit_firmware w i p = (r, w')"
  shows "mailbox_ok w' pc"
  using assms by (auto simp: devmgr_worker_submit_firmware_def mailbox_ok_def split: if_splits)

lemma version_update_io:
  "io_ok ctx \<Longrightarrow> 0 \<notin> set v \<Longrightarrow> io_ok (ctx\<lparr>cx_upgrade_operation_id := op, cx_upgrade_result := r, cx_pending_upgrade_version := v\<rparr>)"
  by (simp add: io_ok_def)

lemma upgrade_arguments_version:
  assumes "upgrade_arguments q = Some (path, v)"
  shows "0 \<notin> set v"
proof -
  obtain p n where "memchr0 p = Some n" "v = take n p"
    using assms by (auto simp: upgrade_arguments_def Let_def split: option.splits if_splits)
  then show ?thesis by (auto simp: memchr0_Some in_set_conv_nth)
qed

lemma request_upgrade_ok:
  assumes ok: "daemon_inv ctx" and i: "i < 16"
  shows "daemon_inv (snd (request_upgrade env ctx i q))"
proof -
  note D = daemon_invD [OF ok]
  have a: "cx_active_client ctx < 0 \<Longrightarrow> cx_active_client ctx = -1" using D(3) by (simp add: waiting_ok_def)
  have v: "daemon_inv (set_upgrade_state st (ctx\<lparr>cx_upgrade_operation_id := op, cx_upgrade_result := r,
      cx_pending_upgrade_version := ver, cx_worker := w\<rparr>))"
    if "st = DEVMGR_UPGRADE_VALIDATING \<or> st = DEVMGR_UPGRADE_ERROR" "mailbox_ok w (cx_thread ctx)"
      "se_state (cx_session ctx) = DEVMGR_DEVICE_READY" "cx_active_client ctx < 0"
      "0 \<notin> set ver"
    for st op r ver w
  proof (rule no_upgrade_ok)
    have "\<not> working (cx_upgrade ctx)" using D(2) that(3) by (simp add: upgrade_ok_def)
    then show "cx_firmware (set_upgrade_state st (ctx\<lparr>cx_upgrade_operation_id := op, cx_upgrade_result := r,
      cx_pending_upgrade_version := ver, cx_worker := w\<rparr>)) = zero_image" using D(2) by (simp add: upgrade_ok_def)
  qed (use that D a in \<open>auto intro: version_update_io\<close>)
  show ?thesis
  proof (cases "upgrade_arguments q")
    case None
    then show ?thesis using ok i by (simp add: request_upgrade_def queue_client_response_ok)
  next
    case (Some pv)
    obtain path ver where pv: "pv = (path, ver)" by (rule prod.exhaust)
    define op where "op = (if cx_upgrade_operation_id ctx + 1 = 0 then 1 else cx_upgrade_operation_id ctx + 1)"
    obtain r w where s: "devmgr_worker_submit_firmware (cx_worker ctx) op (Some path) = (r, w)" by (rule prod.exhaust)
    note m = submit_ok [OF D(4) s]
    have eq: "request_upgrade env ctx i q =
      (if se_state (cx_session ctx) \<noteq> DEVMGR_DEVICE_READY \<or> cx_active_client ctx \<ge> 0 \<or> devmgr_upgrade_active (cx_upgrade ctx)
       then queue_client_response env ctx i (rq_command q) DEVMGR_ERROR_BUSY None 0
       else if r \<noteq> DEVMGR_OK then
         queue_client_response env (set_upgrade_state DEVMGR_UPGRADE_ERROR
           (ctx\<lparr>cx_upgrade_operation_id := op, cx_upgrade_result := r, cx_pending_upgrade_version := ver, cx_worker := w\<rparr>))
           i (rq_command q) r None 0
       else queue_client_response env (set_upgrade_state DEVMGR_UPGRADE_VALIDATING
           (ctx\<lparr>cx_upgrade_operation_id := op, cx_upgrade_result := DEVMGR_OK, cx_pending_upgrade_version := ver, cx_worker := w\<rparr>))
           i (rq_command q) DEVMGR_OK (Some (devmgr_put_le32 op)) 4)"
      using Some s [unfolded op_def] by (cases ctx) (simp add: request_upgrade_def pv Let_def set_upgrade_state_def op_def cong: if_cong)
    show ?thesis
      using ok i v m upgrade_arguments_version [OF Some [unfolded pv]] by (simp add: eq queue_client_response_ok not_le)
  qed
qed

text \<open>When a request is not passed on, and what happens when it is.\<close>

definition device_refuses :: "daemon_context \<Rightarrow> devmgr_ipc_request \<Rightarrow> bool" where
  "device_refuses ctx q \<longleftrightarrow> devmgr_upgrade_active (cx_upgrade ctx) \<or> cx_active_client ctx \<ge> 0 \<or>
     \<not> (se_state (cx_session ctx) = DEVMGR_DEVICE_READY \<or> se_state (cx_session ctx) = DEVMGR_DEVICE_STREAMING) \<or>
     (rq_command q = DEVMGR_MSG_START_TELEMETRY \<and> se_state (cx_session ctx) \<noteq> DEVMGR_DEVICE_READY) \<or>
     (rq_command q = DEVMGR_MSG_STOP_TELEMETRY \<and> se_state (cx_session ctx) \<noteq> DEVMGR_DEVICE_STREAMING)"

lemma request_device_refused:
  assumes "device_refuses ctx q"
  obtains e where "request_device env ctx i q = queue_client_response env ctx i (rq_command q) e None 0"
    "e = DEVMGR_ERROR_BUSY \<or> e = DEVMGR_ERROR_STATE"
proof -
  have "request_device env ctx i q = queue_client_response env ctx i (rq_command q) DEVMGR_ERROR_BUSY None 0 \<or>
    request_device env ctx i q = queue_client_response env ctx i (rq_command q) DEVMGR_ERROR_STATE None 0"
    using assms unfolding request_device_def device_refuses_def Let_def by (auto simp only: if_True if_False split: if_split)
  then show thesis using that by blast
qed

lemma request_device_alt:
  "\<not> device_refuses ctx q \<Longrightarrow> request_device env ctx i q =
    (case monotonic_ns env ctx of
       (now, ctx1) \<Rightarrow>
         (case devmgr_session_begin_request (cx_session ctx1) (rq_command q) DEVMGR_FRAME_ACK_REQUIRED
                 (Some (rq_payload q)) (ucast (rq_payload_length q))
                 \<lparr>timeout_ms = 1000, retry_interval_ms = 500, max_retries = 2\<rparr> now of
            (Inl result, se) \<Rightarrow> queue_client_response env (ctx1\<lparr>cx_session := se\<rparr>) i (rq_command q) result None 0
          | (Inr frame, se) \<Rightarrow>
              (case queue_frame env (ctx1\<lparr>cx_session := se\<rparr>) frame of
                 (result, ctx2) \<Rightarrow>
                   if result \<noteq> DEVMGR_OK
                   then queue_client_response env (ctx2\<lparr>cx_session := devmgr_session_cancel_request (cx_session ctx2)\<rparr>)
                          i (rq_command q) result None 0
                   else (DEVMGR_OK, ctx2\<lparr>cx_active_client := int i\<rparr>))))"
  unfolding request_device_def device_refuses_def Let_def by (auto simp only: if_True if_False split: if_split)

lemma request_device_ok:
  assumes ok: "daemon_inv ctx" and i: "i < 16" and fd: "0 \<le> cl_fd (cx_clients ctx ! i)"
    and wf: "unat (rq_payload_length q) \<le> length (rq_payload q)"
  shows "daemon_inv (snd (request_device env ctx i q))"
proof (cases "device_refuses ctx q")
  case True
  then show ?thesis by (rule request_device_refused [of ctx q env i]) (simp add: queue_client_response_ok [OF ok i])
next
  case fwd: False
  note D = daemon_invD [OF ok] and False = fwd [unfolded device_refuses_def]
  have a: "cx_active_client ctx = -1" using D(3) False by (simp add: waiting_ok_def)
  obtain now ctx1 where m: "monotonic_ns env ctx = (now, ctx1)" by (rule prod.exhaust)
  have q1: "quiet ctx1 = quiet ctx" "io_ok ctx1" using monotonic_ns_fields(1,2) [of env ctx] D(5) m by simp_all
  note f = quiet_fields [OF q1(1)]
  let ?p = "\<lparr>timeout_ms = 1000, retry_interval_ms = 500, max_retries = 2\<rparr>"
  obtain x se where b: "devmgr_session_begin_request (cx_session ctx1) (rq_command q) DEVMGR_FRAME_ACK_REQUIRED
      (Some (rq_payload q)) (ucast (rq_payload_length q)) ?p now = (x, se)" by (rule prod.exhaust)
  note B = begin_request_state [OF b]
  have "unat (ucast (rq_payload_length q) :: u16) \<le> length (rq_payload q)"
    using wf order_trans [OF take_bit_nat_less_eq_self] by (simp add: unsigned_ucast_eq)
  then have si: "session_inv se" using begin_request_inv [OF _ _ b] D(1) f(1) by simp
  have ok1: "daemon_inv (ctx1\<lparr>cx_session := se\<rparr>)"
    using D f q1 si B(1) a by (intro daemon_invI) (simp_all add: upgrade_ok_def waiting_ok_def)
  show ?thesis
  proof (cases x)
    case (Inl e)
    then show ?thesis using m b queue_client_response_ok [OF ok1 i] by (simp add: request_device_alt [OF fwd])
  next
    case (Inr fr)
    obtain r ctx2 where q: "queue_frame env (ctx1\<lparr>cx_session := se\<rparr>) fr = (r, ctx2)" by (rule prod.exhaust)
    have ok2: "daemon_inv ctx2" "cx_session ctx2 = se" "client_fds ctx2 = client_fds ctx" "cx_active_client ctx2 = cx_active_client ctx1"
      using queue_frame_ok [OF ok1, of env fr] queue_frame_session [of env "ctx1\<lparr>cx_session := se\<rparr>" fr]
        quiet_fields(4,11) [OF queue_frame_quiet(1), of env "ctx1\<lparr>cx_session := se\<rparr>" fr] f(11) q by simp_all
    note E = daemon_invD [OF ok2(1)]
    have fd2: "0 \<le> client_fds ctx2 ! i" using ok2(3) fd i D(6) by simp
    show ?thesis
    proof (cases "r = DEVMGR_OK")
      case ro: True
      have g: "\<not> devmgr_upgrade_active (cx_upgrade ctx2)"
        using queue_frame_session(2) [of env "ctx1\<lparr>cx_session := se\<rparr>" fr] q f(2) False by simp
      have "daemon_inv (ctx2\<lparr>cx_active_client := int i\<rparr>)"
        using E fd2 i g B(1) B(2) [OF Inr] ok2(2) f(1) False
        by (intro daemon_invI) (simp_all add: waiting_ok_def del: nth_map)
      then show ?thesis using m b Inr q ro by (simp add: request_device_alt [OF fwd])
    next
      case rn: False
      have "daemon_inv (ctx2\<lparr>cx_session := devmgr_session_cancel_request se\<rparr>)"
        using E ok2(2,4) a f(4) cancel_inv [OF si] cancel_state(1) [of se]
        by (intro daemon_invI) (simp_all add: waiting_ok_def upgrade_ok_def)
      then show ?thesis using m b Inr q rn ok2(2) queue_client_response_ok [OF _ i] by (simp add: request_device_alt [OF fwd])
    qed
  qed
qed

lemma start_request_ok:
  assumes "daemon_inv ctx" "i < 16" "0 \<le> cl_fd (cx_clients ctx ! i)" "unat (rq_payload_length q) \<le> length (rq_payload q)"
  shows "daemon_inv (snd (start_request env ctx i q))"
  using queue_client_response_ok [OF assms(1,2)] request_upgrade_ok [OF assms(1,2)] request_device_ok [OF assms]
  by (simp add: start_request_def request_telemetry_def request_upgrade_status_def)

subsection \<open>Client connections\<close>

lemma set_client_ok:
  assumes "daemon_inv ctx" "i < 16" "cl_fd c = cl_fd (cx_clients ctx ! i)" "client_ok c"
  shows "daemon_inv (set_client ctx i c)"
  using daemon_inv_quiet [OF quiet_set_client assms(1)] io_ok_set_client assms daemon_invD(5,6) [OF assms(1)] by simp

lemma close_client_ok:
  assumes ok: "daemon_inv ctx" and i: "i < 16"
  shows "daemon_inv (close_client ctx i)"
proof -
  note D = daemon_invD [OF ok]
  let ?c = "cx_clients ctx ! i"
  let ?d = "set_client ctx i (?c\<lparr>cl_fd := -1\<rparr>)"
  have "client_ok (?c\<lparr>cl_fd := -1\<rparr>)" using client_at [OF D(5) i] by (simp add: client_ok_def)
  then have io: "io_ok ?d" using io_ok_set_client D(5) by blast
  have "cl_fd (cx_clients ?d ! nat (cx_active_client ctx)) = cl_fd (cx_clients ctx ! nat (cx_active_client ctx))"
    if "0 \<le> cx_active_client ctx" "cx_active_client ctx \<noteq> int i"
    using that by (simp add: set_client_def nat_eq_iff)
  then have closed: "daemon_inv (?d\<lparr>cx_active_client := if cx_active_client ctx = int i then -1 else cx_active_client ctx\<rparr>)"
    using D i io by (intro daemon_invI) (auto simp: waiting_ok_def set_client_def)
  have gone: "daemon_inv (ctx\<lparr>cx_active_client := -1\<rparr>)"
    using D by (intro daemon_invI) (auto simp: waiting_ok_def)
  show ?thesis
  proof (cases "cl_fd ?c \<ge> 0")
    case True
    let ?e = "close_client ctx i"
    have "?e = release [Closed (nat (cl_fd ?c))] (?d\<lparr>cx_active_client := if cx_active_client ctx = int i then -1 else
        cx_active_client ctx, cx_calls := cx_calls ctx + 1, cx_interest := (cx_interest ctx)(cl_fd ?c := None)\<rparr>)"
      using True by (cases ctx) (simp add: close_client_def Let_def release_def set_client_def)
    then show ?thesis using closed by simp
  next
    case False
    then show ?thesis using ok gone by (simp add: close_client_def)
  qed
qed

lemma decoded_length:
  "devmgr_ipc_decode_request (Some d) False = Inr q \<Longrightarrow> unat (rq_payload_length q) \<le> length (rq_payload q)"
  using request_wire_decode [of d q] by (simp add: request_wf_def)

lemma client_bytes_ok:
  assumes ok: "daemon_inv ctx" and i: "i < 16" and fd: "0 \<le> cl_fd (cx_clients ctx ! i)"
    and n: "length (cl_input (cx_clients ctx ! i)) + length bs \<le> CLIENT_INPUT_SIZE"
    and h: "client_bytes env ctx i bs = (ctx1, x)"
  shows "case x of None \<Rightarrow> daemon_inv ctx1 \<and> cl_fd (cx_clients ctx1 ! i) = cl_fd (cx_clients ctx ! i) | Some r \<Rightarrow> daemon_inv (snd r)"
proof -
  let ?c = "cx_clients ctx ! i"
  note D = daemon_invD [OF ok]
  have c: "daemon_inv (set_client ctx i (?c\<lparr>cl_input := cl_input ?c @ bs\<rparr>))"
    "daemon_inv (set_client ctx i (?c\<lparr>cl_input := cl_input ?c @ bs, cl_expected_size := m\<rparr>))" for m
    using n client_at [OF D(5) i] by (auto intro!: set_client_ok ok i simp: client_ok_def)
  have f: "cl_fd (cx_clients (set_client ctx i c') ! i) = cl_fd c'" for c'
    using i D(6) by (simp add: set_client_def)
  have q: "queue_client_response env ctx' i cmd st p k = (r, ctx2) \<Longrightarrow> daemon_inv ctx' \<Longrightarrow> daemon_inv ctx2" for ctx' cmd st p k r ctx2
    using queue_client_response_ok [of ctx' i env cmd st p k] i by simp
  have s: "start_request env (set_client ctx i c') i req = (r, ctx2) \<Longrightarrow> daemon_inv (set_client ctx i c') \<Longrightarrow> cl_fd c' = cl_fd ?c \<Longrightarrow>
      devmgr_ipc_decode_request (Some d) False = Inr req \<Longrightarrow> daemon_inv ctx2" for c' r ctx2 d req
    using start_request_ok [of "set_client ctx i c'" i req env] decoded_length [of d req] i fd f by simp
  show ?thesis
    using h c f
    by (auto simp: client_bytes_def Let_def split: if_splits option.splits sum.splits intro: q s)
qed

lemma handle_client_input_ok:
  assumes "daemon_inv ctx" "i < 16" "0 \<le> cl_fd (cx_clients ctx ! i)"
  shows "daemon_inv (snd (handle_client_input env ctx i results))"
  using assms
proof (induction env ctx i results rule: handle_client_input.induct)
  case (3 env ctx i available results)
  let ?bs = "take (CLIENT_INPUT_SIZE - length (cl_input (cx_clients ctx ! i))) available"
  have n: "length (cl_input (cx_clients ctx ! i)) + length ?bs \<le> CLIENT_INPUT_SIZE"
    using client_at [OF daemon_invD(5) [OF "3.prems"(1)] "3.prems"(2)] by (auto simp: client_ok_def min_def)
  obtain ctx1 x where b: "client_bytes env ctx i ?bs = (ctx1, x)" by (rule prod.exhaust)
  note B = client_bytes_ok [OF "3.prems" n b]
  show ?case
  proof (cases x)
    case None
    then show ?thesis
      using B b "3.IH" [OF refl _ b [symmetric]] "3.prems" by (auto simp: Let_def close_client_ok)
  next
    case (Some r)
    then show ?thesis using B b "3.prems" by (auto simp: Let_def close_client_ok)
  qed
qed (simp_all add: close_client_ok)

lemma handle_client_output_ok:
  assumes "daemon_inv ctx" "i < 16"
  shows "daemon_inv (snd (handle_client_output ctx i results))"
  using assms
proof (induction ctx i results rule: handle_client_output.induct)
  case (1 ctx i results)
  let ?c = "cx_clients ctx ! i"
  have c: "daemon_inv (set_client ctx i (?c\<lparr>cl_output_offset := cl_output_offset ?c + min n (length (cl_output ?c) - cl_output_offset ?c)\<rparr>))" for n
    using client_at [OF daemon_invD(5) [OF "1.prems"(1)] "1.prems"(2)]
    by (intro set_client_ok "1.prems") (auto simp: client_ok_def)
  show ?case
    using 1 c
    by (subst handle_client_output.simps)
       (auto simp: Let_def client_output_done_def close_client_ok split: list.split sum.split)
qed

lemma free_slot_spec:
  assumes "free_slot ctx \<noteq> 16" "length (cx_clients ctx) = 16"
  shows "free_slot ctx < 16" "cl_fd (cx_clients ctx ! free_slot ctx) < 0"
proof -
  have "free_slot ctx \<le> 16" using length_takeWhile_le [of _ "cx_clients ctx"] assms(2) by (simp add: free_slot_def)
  then show l: "free_slot ctx < 16" using assms(1) by simp
  show "cl_fd (cx_clients ctx ! free_slot ctx) < 0"
    using nth_length_takeWhile [of "\<lambda>c. cl_fd c \<ge> 0" "cx_clients ctx"] l assms(2) by (simp add: free_slot_def)
qed

lemma accept_client_ok:
  assumes ok: "daemon_inv ctx"
  shows "daemon_inv (accept_client env ctx fd)"
proof (cases "free_slot ctx = 16")
  case True
  then show ?thesis using ok by (simp add: accept_client_def)
next
  case False
  note D = daemon_invD [OF ok]
  note s = free_slot_spec [OF False D(6)]
  let ?d = "set_client ctx (free_slot ctx) (zero_client\<lparr>cl_fd := int fd\<rparr>)"
  have "cx_active_client ctx \<noteq> int (free_slot ctx)" using D(3,6) s by (auto simp: waiting_ok_def)
  then have "waiting_ok (cx_session ?d) (cx_upgrade ?d) (cx_active_client ?d) (client_fds ?d)"
    using D(3) by (auto simp: waiting_ok_def set_client_def nat_eq_iff nth_list_update)
  moreover have "io_ok ?d" by (intro io_ok_set_client D(5)) (simp add: client_ok_def zero_client_def)
  ultimately have "daemon_inv ?d" using D by (intro daemon_invI) (auto simp: set_client_def)
  then have "daemon_inv (snd (epoll_update env ?d (int fd) (EPOLLIN OR EPOLLRDHUP)))"
    using daemon_inv_quiet [OF epoll_update_quiet] daemon_invD(5) by simp
  then show ?thesis
    using False s(1) by (auto simp: accept_client_def Let_def close_client_ok split: prod.split)
qed

lemma accept_clients_ok: "daemon_inv ctx \<Longrightarrow> daemon_inv (snd (accept_clients env ctx results))"
  by (induction env ctx results rule: accept_clients.induct) (simp_all add: accept_client_ok)

lemma handle_client_ok:
  assumes "daemon_inv ctx" "i < 16" "0 \<le> cl_fd (cx_clients ctx ! i)"
  shows "daemon_inv (snd (handle_client env ctx i ev))"
proof -
  let ?a = "if has_flag ev EPOLLIN then handle_client_input env ctx i (ev_reads ev) else (DEVMGR_OK, ctx)"
  have a: "daemon_inv (snd ?a)" using handle_client_input_ok [OF assms] assms(1) by simp
  let ?b = "if fst ?a = DEVMGR_OK \<and> cl_fd (cx_clients (snd ?a) ! i) \<ge> 0 \<and> has_flag ev EPOLLOUT
    then handle_client_output (snd ?a) i (ev_writes ev) else ?a"
  have b: "daemon_inv (snd ?b)" using handle_client_output_ok [OF a assms(2)] a by (simp only: split: if_split) simp
  have "snd (handle_client env ctx i ev) = snd ?b \<or> snd (handle_client env ctx i ev) = close_client (snd ?b) i"
    unfolding handle_client_def by (simp only: case_prod_beta prod.collapse snd_conv split: if_split) simp
  then show ?thesis using b close_client_ok [OF b assms(2)] by auto
qed

subsection \<open>The transport\<close>

lemma transport_write_bound:
  "devmgr_transport_write t data results = (Inr n, rest) \<Longrightarrow> n \<le> length data"
  by (auto simp: devmgr_transport_write_def map_sum_def split: if_splits prod.splits sum.splits)

lemma flush_loop_ok: "daemon_inv ctx \<Longrightarrow> daemon_inv (snd (flush_loop ctx results))"
proof (induction ctx results rule: flush_loop.induct)
  case (1 ctx results)
  have n: "daemon_inv (ctx\<lparr>cx_transport_output_offset := cx_transport_output_offset ctx + n\<rparr>)"
    if "n \<le> length (drop (cx_transport_output_offset ctx) (cx_transport_output ctx))"
      "cx_transport_output_offset ctx < length (cx_transport_output ctx)" for n
    using "1.prems" that by (auto simp: daemon_inv_def io_ok_def)
  obtain x rest where w: "devmgr_transport_write (cx_transport ctx)
      (drop (cx_transport_output_offset ctx) (cx_transport_output ctx)) results = (x, rest)" by (rule prod.exhaust)
  show ?case
  proof (cases x)
    case (Inl e)
    then show ?thesis using w "1.prems" by (simp add: flush_loop.simps [of ctx results])
  next
    case (Inr k)
    then show ?thesis
      using w n [OF transport_write_bound [OF w [unfolded Inr]]] "1.prems" "1.IH" [OF _ w [symmetric] Inr]
      by (simp add: flush_loop.simps [of ctx results])
  qed
qed

lemma flush_transport_ok:
  assumes "daemon_inv ctx"
  shows "daemon_inv (snd (flush_transport env ctx results))"
proof -
  obtain b ctx1 where f: "flush_loop ctx results = (b, ctx1)" by (rule prod.exhaust)
  have ok1: "daemon_inv ctx1" using flush_loop_ok [OF assms, of results] f by simp
  then have "daemon_inv (ctx1\<lparr>cx_transport_output_offset := 0, cx_transport_output := []\<rparr>)"
    by (simp add: daemon_inv_def io_ok_def)
  then have "daemon_inv (snd (update_transport_events env (if c then ctx1\<lparr>cx_transport_output_offset := 0, cx_transport_output := []\<rparr> else ctx1)))" for c
    using ok1 unfolding update_transport_events_def
    by (intro daemon_inv_quiet [OF epoll_update_quiet]) (auto dest: daemon_invD(5))
  then show ?thesis using f ok1 by (simp add: flush_transport_def)
qed

lemma daemon_inv_parser: "daemon_inv ctx \<Longrightarrow> parser_inv p \<Longrightarrow> daemon_inv (ctx\<lparr>cx_parser := p\<rparr>)"
  by (simp add: daemon_inv_def)

lemma read_transport_ok: "daemon_inv ctx \<Longrightarrow> daemon_inv (snd (read_transport env ctx results))"
proof (induction env ctx results rule: read_transport.induct)
  case (1 env ctx results)
  obtain x rest where rd: "devmgr_transport_read (cx_transport ctx) 2048 results = (x, rest)" by (rule prod.exhaust)
  show ?case
  proof (cases x)
    case (Inl e)
    then show ?thesis using rd "1.prems" by (simp add: read_transport.simps [of env ctx results])
  next
    case (Inr input)
    obtain r p ctx1 k where fd: "devmgr_parser_feed (on_device_frame env) (cx_parser ctx) input ctx = (r, p, ctx1, k)"
      by (rule prod_cases4)
    have "daemon_inv (ctx1\<lparr>cx_parser := p\<rparr>)"
      using parser_feed_keeps [OF daemon_invD(7) [OF "1.prems"] on_device_frame_keeps "1.prems" fd]
      by (simp add: daemon_inv_parser)
    then show ?thesis
      using rd Inr fd "1.prems" "1.IH" [OF rd [symmetric] Inr _ fd [symmetric] refl refl]
      by (simp add: read_transport.simps [of env ctx results])
  qed
qed

lemma handle_transport_ok:
  assumes "daemon_inv ctx"
  shows "daemon_inv (snd (handle_transport env ctx ev))"
proof -
  let ?a = "if has_flag ev EPOLLOUT then flush_transport env ctx (ev_writes ev) else (DEVMGR_OK, ctx)"
  have a: "daemon_inv (snd ?a)" using flush_transport_ok [OF assms] assms by simp
  then have "daemon_inv (snd (if fst ?a = DEVMGR_OK \<and> has_flag ev EPOLLIN then read_transport env (snd ?a) (ev_reads ev) else ?a))"
    using read_transport_ok [OF a] by (simp only: split: if_split) simp
  then show ?thesis unfolding handle_transport_def by (simp only: case_prod_beta prod.collapse snd_conv)
qed

subsection \<open>The worker thread\<close>

fun file_ok :: "thread_action \<Rightarrow> bool" where
  "file_ok (Thread_validates fenv) = mmap_law fenv"
| "file_ok _ = True"

lemma validated_ok: "mmap_law fenv \<Longrightarrow> result_ok (fst (worker_validate fenv i p))"
  using worker_validate_valid [of fenv i p]
  by (cases "worker_validate fenv i p") (simp add: result_ok_def held_image_def)

lemma thread_acts_ok:
  assumes "file_ok act" "mailbox_ok w pc"
  shows "case thread_acts act (w, pc) of (w', pc') \<Rightarrow> mailbox_ok w' pc'"
proof (cases act)
  case Thread_wakes
  then show ?thesis
    using assms(2) by (cases pc) (auto simp: worker_wake_def mailbox_ok_def split: if_splits)
next
  case (Thread_validates fenv)
  then show ?thesis
    using assms validated_ok [of fenv] by (cases pc) (auto simp: mailbox_ok_def)
next
  case Thread_posts
  then show ?thesis
    using assms(2) by (cases pc) (auto simp: mailbox_ok_def worker_post_def)
next
  case Thread_notifies
  then show ?thesis
    using assms(2) by (cases pc) (auto simp: mailbox_ok_def)
qed

lemma run_thread_ok:
  assumes "daemon_inv ctx" "list_all file_ok acts"
  shows "daemon_inv (run_thread acts ctx)"
proof -
  have "case fold thread_acts acts (w, pc) of (w', pc') \<Rightarrow> mailbox_ok w' pc'" if "mailbox_ok w pc" for w pc
    using assms(2) that
  proof (induction acts arbitrary: w pc)
    case (Cons a acts)
    then show ?case
      using thread_acts_ok [of a w pc] by (cases "thread_acts a (w, pc)") simp
  qed simp
  then show ?thesis
    using assms(1) by (fastforce simp: run_thread_def daemon_inv_def split: prod.split)
qed

subsection \<open>Events\<close>

text \<open>The kernel reports open descriptors, and \<open>mmap\<close> maps what it was asked for.\<close>

definition event_ok :: "daemon_event \<Rightarrow> bool" where
  "event_ok ev \<longleftrightarrow> 0 \<le> ev_fd ev \<and> list_all file_ok (ev_thread ev)"

lemma handle_event_ok:
  assumes ok: "daemon_inv ctx" and ev: "0 \<le> ev_fd ev"
  shows "daemon_inv (snd (handle_event env ctx ev))"
proof -
  let ?i = "length (takeWhile (\<lambda>c. cl_fd c \<noteq> ev_fd ev) (cx_clients ctx))"
  have "daemon_inv (snd (handle_client env ctx ?i ev))" if "?i < 16"
  proof (rule handle_client_ok [OF ok that])
    have "cl_fd (cx_clients ctx ! ?i) = ev_fd ev"
      using nth_length_takeWhile [of "\<lambda>c. cl_fd c \<noteq> ev_fd ev" "cx_clients ctx"] that daemon_invD(6) [OF ok] by simp
    then show "0 \<le> cl_fd (cx_clients ctx ! ?i)" using ev by simp
  qed
  then show ?thesis
    using ok by (simp add: handle_event_def Let_def accept_clients_ok handle_worker_completion_ok handle_timer_ok
        handle_transport_ok)
qed

end
