(* ===== verification/Daemon_Run.thy ===== *)
theory Daemon_Run
  imports Daemon_Inv
begin

section \<open>Runs of the daemon\<close>

text \<open>
  The event loop as a step relation, start-up, and what holds of every state in between.
\<close>

text \<open>One event of the loop, with what the worker thread did before it.\<close>

inductive daemon_step :: "daemon_env \<Rightarrow> daemon_context \<Rightarrow> daemon_context \<Rightarrow> bool" for env where
  daemon_event: "event_ok ev \<Longrightarrow> handle_event env (run_thread (ev_thread ev) ctx) ev = (r, ctx') \<Longrightarrow>
    daemon_step env ctx ctx'"

inductive_cases daemon_stepE: "daemon_step env ctx ctx'"

interpretation daemon: inductive_invariant "daemon_step env" daemon_inv for env
proof unfold_locales
  fix ctx ctx'
  assume ok: "daemon_inv ctx" and st: "daemon_step env ctx ctx'"
  from st show "daemon_inv ctx'"
  proof (rule daemon_stepE)
    fix ev r
    assume ev: "event_ok ev" and h: "handle_event env (run_thread (ev_thread ev) ctx) ev = (r, ctx')"
    show "daemon_inv ctx'"
      using handle_event_ok [OF run_thread_ok [OF ok], of "ev_thread ev" ev env] ev h by (simp add: event_ok_def)
  qed
qed

text \<open>The loops of the program take exactly such steps.\<close>

lemma handle_events_reach:
  assumes "handle_events env ctx evs = (r, ctx')" "list_all event_ok evs"
  shows "reach (daemon_step env) ctx ctx'"
  using assms
proof (induction evs arbitrary: ctx)
  case (Cons ev evs)
  obtain r1 ctx1 where h: "handle_event env (run_thread (ev_thread ev) ctx) ev = (r1, ctx1)" by (rule prod.exhaust)
  have s: "reach (daemon_step env) ctx ctx1" using Cons.prems(2) h by (auto intro: daemon_event)
  show ?case
    using Cons h s reach_trans [OF Cons.IH s] by (cases "r1 = DEVMGR_OK") auto
qed auto

fun wait_ok :: "wait_result \<Rightarrow> bool" where
  "wait_ok (Ready evs) = list_all event_ok evs"
| "wait_ok _ = True"

lemma event_loop_reach:
  assumes "event_loop env ctx waits = Some (r, ctx')" "list_all wait_ok waits"
  shows "reach (daemon_step env) ctx ctx'"
  using assms
proof (induction waits arbitrary: ctx)
  case Nil
  then show ?case by (auto simp: event_loop.simps split: if_splits)
next
  case (Cons x waits)
  show ?case
  proof (cases "cx_running ctx")
    case False
    then show ?thesis using Cons.prems by (auto simp: event_loop.simps)
  next
    case run: True
    show ?thesis
    proof (cases x)
      case (Ready evs)
      obtain r1 ctx1 where h: "handle_events env ctx evs = (r1, ctx1)" by (rule prod.exhaust)
      have s: "reach (daemon_step env) ctx ctx1" using handle_events_reach [OF h] Cons.prems(2) Ready by simp
      show ?thesis
        using Cons.prems Ready run h s reach_trans [OF Cons.IH s]
        by (cases "r1 = DEVMGR_OK") (auto simp: event_loop.simps [of env ctx])
    qed (use Cons run in \<open>auto simp: event_loop.simps [of env ctx]\<close>)
  qed
qed

subsection \<open>Start-up\<close>

lemma watch_all_quiet: "watch_all env ctx fds = (r, ctx') \<Longrightarrow> quiet ctx' = quiet ctx \<and> (io_ok ctx \<longrightarrow> io_ok ctx')"
proof (induction fds arbitrary: ctx)
  case (Cons fd fds)
  obtain r1 ctx1 where e: "epoll_update env ctx fd EPOLLIN = (r1, ctx1)" by (rule prod.exhaust)
  show ?case
    using Cons e epoll_update_quiet [of env ctx fd EPOLLIN] epoll_update_io(1) [of env ctx fd EPOLLIN]
    by (cases "r1 = DEVMGR_OK") auto
qed auto

lemma init_session_inv: "session_inv devmgr_session_init"
  by (simp add: session_inv_def devmgr_session_init_def zero_pending_def)

lemma setup_context_stages:
  assumes "setup_context env senv config = (DEVMGR_OK, ctx)"
  obtains w p t line es fd es' where "devmgr_worker_init (su_worker senv) = (DEVMGR_OK, w)"
    "devmgr_parser_init zero_parser = (DEVMGR_OK, p)"
    "devmgr_transport_open (su_serial senv) \<lparr>tr_fd = -1, tr_kind = 0\<rparr>
       \<lparr>tc_kind = DEVMGR_TRANSPORT_SERIAL, tc_path = dc_device_path config, tc_baud_rate = 115200,
        tc_hardware_flow_control = False\<rparr> = (DEVMGR_OK, t, line, es)"
    "create_listener (su_listener senv) (the (dc_socket_path config)) = (fd, es')"
    "0 \<le> fd" "0 \<le> su_epoll_create senv" "0 \<le> su_timerfd senv" "0 \<le> su_signalfd senv"
    "watch_all env ((fresh_context config)\<lparr>cx_worker := w, cx_parser := p, cx_transport := t,
       cx_effects := map Released es @ es', cx_listen_fd := fd, cx_epoll_fd := su_epoll_create senv,
       cx_timer_fd := su_timerfd senv, cx_signal_fd := su_signalfd senv\<rparr>)
       [fd, su_timerfd senv, su_signalfd senv, devmgr_worker_get_event_fd (Some w), devmgr_transport_get_fd (Some t)] =
     (DEVMGR_OK, ctx)"
  using assms
  by (auto simp: setup_context_def Let_def release_def fresh_context_def not_less split: if_splits prod.splits)

lemma fresh_context_inv:
  assumes "parser_inv p" "\<not> wk_result_pending w"
  shows "daemon_inv ((fresh_context config)\<lparr>cx_worker := w, cx_parser := p, cx_transport := t, cx_effects := es,
    cx_listen_fd := a, cx_epoll_fd := b, cx_timer_fd := c, cx_signal_fd := d\<rparr>)"
  using assms init_session_inv
  by (intro daemon_invI)
     (simp_all add: fresh_context_def init_session_inv upgrade_ok_def waiting_ok_def mailbox_ok_def io_ok_def client_ok_def
       zero_client_def zero_image_def working_def devmgr_upgrade_active_def devmgr_upgrade_init_def devmgr_session_init_def)

lemma setup_context_ok:
  assumes "setup_context env senv config = (DEVMGR_OK, ctx)"
  shows "daemon_inv ctx" "cx_session ctx = devmgr_session_init" "cx_upgrade ctx = devmgr_upgrade_init" "cx_active_client ctx = -1"
proof -
  obtain w p t line es fd es' where s: "devmgr_worker_init (su_worker senv) = (DEVMGR_OK, w)"
    "devmgr_parser_init zero_parser = (DEVMGR_OK, p)"
    "watch_all env ((fresh_context config)\<lparr>cx_worker := w, cx_parser := p, cx_transport := t,
       cx_effects := map Released es @ es', cx_listen_fd := fd, cx_epoll_fd := su_epoll_create senv,
       cx_timer_fd := su_timerfd senv, cx_signal_fd := su_signalfd senv\<rparr>)
       [fd, su_timerfd senv, su_signalfd senv, devmgr_worker_get_event_fd (Some w), devmgr_transport_get_fd (Some t)] =
     (DEVMGR_OK, ctx)"
    using setup_context_stages [OF assms] by metis
  note W = watch_all_quiet [OF s(3)]
  have p: "parser_inv p" using parser_init_ready [of zero_parser] s(2) by (simp add: parser_ready_def)
  have w: "\<not> wk_result_pending w" using s(1) by (auto simp: devmgr_worker_init_def zero_worker_def split: if_splits)
  note F = fresh_context_inv [OF p w]
  show "daemon_inv ctx" using daemon_inv_quiet [OF conjunct1 [OF W] F] W daemon_invD(5) [OF F] by blast
  show "cx_session ctx = devmgr_session_init" "cx_upgrade ctx = devmgr_upgrade_init" "cx_active_client ctx = -1"
    using quiet_fields(1,2,4) [OF conjunct1 [OF W]] by (simp_all add: fresh_context_def)
qed

lemma start_handshake_ok:
  assumes ok: "daemon_inv ctx" and si: "cx_session ctx = devmgr_session_init" and u: "cx_upgrade ctx = devmgr_upgrade_init"
    and a: "cx_active_client ctx = -1"
  shows "daemon_inv (snd (start_handshake env ctx))"
proof -
  note D = daemon_invD [OF ok]
  let ?se = "devmgr_session_init\<lparr>se_state := DEVMGR_DEVICE_HANDSHAKING\<rparr>"
  obtain now ctx1 where m: "monotonic_ns env (ctx\<lparr>cx_session := ?se\<rparr>) = (now, ctx1)" by (rule prod.exhaust)
  have q: "quiet ctx1 = quiet (ctx\<lparr>cx_session := ?se\<rparr>)" "io_ok ctx1"
    using monotonic_ns_fields(1,2) [of env "ctx\<lparr>cx_session := ?se\<rparr>"] D(5) m by simp_all
  note f = quiet_fields [OF q(1)]
  obtain x se where b: "devmgr_session_begin_request ?se DEVMGR_MSG_PING DEVMGR_FRAME_ACK_REQUIRED None 0
      \<lparr>timeout_ms = 1000, retry_interval_ms = 500, max_retries = 3\<rparr> now = (x, se)" by (rule prod.exhaust)
  have i: "session_inv ?se" using init_session_inv by (simp add: session_inv_def)
  have s: "session_inv se" "se_state se = DEVMGR_DEVICE_HANDSHAKING"
    using begin_request_inv [OF i _ b] begin_request_state(1) [OF b] by simp_all
  have nw: "\<not> working devmgr_upgrade_init"
    by (simp add: working_def devmgr_upgrade_active_def devmgr_upgrade_init_def)
  have ok1: "daemon_inv (ctx1\<lparr>cx_session := se\<rparr>)"
    by (rule no_upgrade_ok) (use D f q s nw u a in \<open>auto simp: upgrade_ok_def\<close>)
  have "start_handshake env ctx = (case x of Inl e \<Rightarrow> (e, ctx1\<lparr>cx_session := se\<rparr>)
      | Inr fr \<Rightarrow> queue_frame env (ctx1\<lparr>cx_session := se\<rparr>) fr)"
    using m b by (simp add: start_handshake_def si devmgr_session_transition_def devmgr_session_init_def split: sum.split)
  then show ?thesis using ok1 queue_frame_ok [OF ok1] by (simp split: sum.split)
qed

text \<open>C4. Whatever the operating system answers, whatever the clients and the device send and however
the worker thread is scheduled: after a successful start-up every state of the event loop has intact
parser, session and buffers; a firmware image is mapped exactly while the session is upgrading, it is the
validated one and the upgrade job works on it within its bounds; and a client that waits for the
device has an open connection and a pending request, with no upgrade in the way.\<close>

theorem daemon_keeps_invariant:
  assumes "setup_context env senv config = (DEVMGR_OK, ctx0)" "start_handshake env ctx0 = (r, ctx1)"
    "reach (daemon_step env) ctx1 ctx"
  shows "parser_inv (cx_parser ctx) \<and> session_inv (cx_session ctx) \<and> io_ok ctx \<and>
    (if se_state (cx_session ctx) = DEVMGR_DEVICE_UPGRADING then job_held (cx_upgrade ctx) (cx_firmware ctx)
     else cx_firmware ctx = zero_image) \<and>
    (\<forall>i. cx_active_client ctx = int i \<longrightarrow> i < MAX_CLIENTS \<and> 0 \<le> cl_fd (cx_clients ctx ! i) \<and>
       pe_active (se_pending (cx_session ctx)) \<and> \<not> devmgr_upgrade_active (cx_upgrade ctx))"
proof -
  have "daemon_inv ctx1" using start_handshake_ok [OF setup_context_ok [OF assms(1)], of env] assms(2) by simp
  then have "daemon_inv ctx" by (rule daemon.reach_preserves [OF assms(3)])
  then show ?thesis
    using daemon_invD [of ctx] by (auto simp: upgrade_ok_def waiting_ok_def)
qed

text \<open>A start-up in which every system call succeeds.\<close>

definition sample_env :: daemon_env where
  "sample_env = \<lparr>dv_clock = (\<lambda>n. Some (of_nat n, 0)), dv_epoll_ctl = (\<lambda>_. True)\<rparr>"

definition sample_config :: devmgr_daemon_config where
  "sample_config = \<lparr>dc_device_path = Some [47, 100], dc_socket_path = Some [47, 115]\<rparr>"

definition sample_setup :: setup_env where
  "sample_setup = \<lparr>su_sigprocmask_ok = True,
     su_worker = \<lparr>wi_mutex_ok = True, wi_cond_ok = True, wi_eventfd = 3, wi_thread_ok = True\<rparr>,
     su_serial = witness_serial,
     su_listener = \<lparr>le_lstat = Inl ENOENT, le_unlink_ok = True, le_socket = Some 6, le_bind_ok = True, le_chmod_ok = True,
       le_listen_ok = True\<rparr>,
     su_epoll_create = 7, su_timerfd = 8, su_signalfd = 9, su_settime_ok = True\<rparr>"

lemma sample_setup_succeeds:
  obtains ctx where "setup_context sample_env sample_setup sample_config = (DEVMGR_OK, ctx)"
    "cx_listen_fd ctx = 6" "cx_signal_fd ctx = 9" "cx_timer_fd ctx = 8" "tr_fd (cx_transport ctx) = 5"
proof -
  obtain p where p: "devmgr_parser_init zero_parser = (DEVMGR_OK, p)"
    using parser_init_ready [of zero_parser] by (metis prod.collapse)
  have "\<exists>ctx. setup_context sample_env sample_setup sample_config = (DEVMGR_OK, ctx) \<and>
      cx_listen_fd ctx = 6 \<and> cx_signal_fd ctx = 9 \<and> cx_timer_fd ctx = 8 \<and> tr_fd (cx_transport ctx) = 5"
    using p
    by (simp add: setup_context_def sample_setup_def sample_config_def sample_env_def fresh_context_def Let_def
        devmgr_worker_init_def devmgr_transport_open_def witness_serial_def configure_serial_def baud_to_speed_def
        create_listener_def epoll_update_def release_def)
  then show thesis using that by blast
qed

lemma run_thread_nil [simp]: "run_thread [] ctx = ctx"
  by (simp add: run_thread_def)

lemma start_handshake_aside: "aside (snd (start_handshake env ctx)) = aside ctx"
proof -
  have "aside (snd (monotonic_ns env (ctx\<lparr>cx_session := se\<rparr>))) = aside ctx" for se
    using aside_quiet [OF monotonic_ns_fields(1)] by simp
  then show ?thesis
    by (auto simp: start_handshake_def Let_def case_prod_beta split: sum.split)
qed

theorem daemon_keeps_invariant_witness:
  "\<exists>ctx. parser_inv (cx_parser ctx) \<and> session_inv (cx_session ctx) \<and> io_ok ctx \<and> \<not> cx_running ctx"
proof -
  obtain ctx0 where s: "setup_context sample_env sample_setup sample_config = (DEVMGR_OK, ctx0)"
    "cx_listen_fd ctx0 = 6" "cx_signal_fd ctx0 = 9" by (rule sample_setup_succeeds)
  obtain r ctx1 where h: "start_handshake sample_env ctx0 = (r, ctx1)" by (rule prod.exhaust)
  let ?ev = "\<lparr>ev_fd = cx_signal_fd ctx1, ev_flags = EPOLLIN, ev_reads = [], ev_writes = [], ev_accepts = [], ev_notified = [],
    ev_thread = []\<rparr>"
  have "daemon_step sample_env ctx1 (ctx1\<lparr>cx_running := False\<rparr>)"
    using aside_fields(9,10) [OF start_handshake_aside, of sample_env ctx0] h s(2,3)
    by (intro daemon_event [of ?ev]) (simp_all add: event_ok_def handle_event_def)
  then have "reach (daemon_step sample_env) ctx1 (ctx1\<lparr>cx_running := False\<rparr>)" by blast
  from daemon_keeps_invariant [OF s(1) h this] show ?thesis
    by (intro exI [of _ "ctx1\<lparr>cx_running := False\<rparr>"]) simp
qed

end
