(* ===== verification/Daemon_Upgrade.thy ===== *)
theory Daemon_Upgrade
  imports Daemon_Run Sim_Upgrade Stm32_Upgrade
begin

section \<open>The daemon's part in an upgrade\<close>

text \<open>
  The handlers of \<open>src/daemon/daemon.c\<close> drive an upgrade: the worker's result starts it, frames of
  the device continue it, the timer retransmits and recovers. Here the daemon is put on a line to a
  device, with frames that may be lost in both directions, and every other event of the reactor in
  between. As long as the upgrade works, the daemon takes exactly steps of the link of
  \<open>Fw_Device\<close> (a refinement), so an upgrade the daemon completes has installed the image.
\<close>

subsection \<open>What the other handlers leave alone\<close>

text \<open>Session, upgrade and the bytes on their way to the device.\<close>

definition line :: "daemon_context \<Rightarrow> devmgr_session \<times> devmgr_upgrade \<times> bytes \<times> nat" where
  "line ctx = (cx_session ctx, cx_upgrade ctx, cx_transport_output ctx, cx_transport_output_offset ctx)"

lemma line_simps [simp]:
  "line (ctx\<lparr>cx_calls := n\<rparr>) = line ctx" "line (ctx\<lparr>cx_interest := m\<rparr>) = line ctx"
  "line (ctx\<lparr>cx_effects := es\<rparr>) = line ctx" "line (ctx\<lparr>cx_running := b\<rparr>) = line ctx"
  "line (ctx\<lparr>cx_active_client := a\<rparr>) = line ctx" "line (ctx\<lparr>cx_worker := w\<rparr>) = line ctx"
  "line (ctx\<lparr>cx_thread := pc\<rparr>) = line ctx" "line (set_client ctx i c) = line ctx" "line (release fs ctx) = line ctx"
  "line (ctx\<lparr>cx_clients := cs\<rparr>) = line ctx"
  by (simp_all add: line_def set_client_def release_def)

lemma epoll_update_line [simp]: "line (snd (epoll_update env ctx fd evs)) = line ctx"
  by (simp add: epoll_update_def Let_def)

lemma queue_client_response_line [simp]: "line (snd (queue_client_response env ctx i cmd st p n)) = line ctx"
  by (simp add: queue_client_response_def Let_def split: sum.split)

lemma close_client_line [simp]: "line (close_client ctx i) = line ctx"
  by (simp add: close_client_def Let_def)

lemma monotonic_ns_line [simp]: "line (snd (monotonic_ns env ctx)) = line ctx"
  by (simp add: monotonic_ns_def)

lemma line_cong:
  "line a = line b \<Longrightarrow> cx_session a = cx_session b \<and> cx_upgrade a = cx_upgrade b \<and>
    cx_transport_output a = cx_transport_output b \<and> cx_transport_output_offset a = cx_transport_output_offset b"
  by (simp add: line_def)

definition upgrading :: "daemon_context \<Rightarrow> bool" where
  "upgrading ctx \<longleftrightarrow> working (cx_upgrade ctx) \<and> se_state (cx_session ctx) = DEVMGR_DEVICE_UPGRADING"

lemma upgrading_line: "line a = line b \<Longrightarrow> upgrading a = upgrading b"
  by (simp add: upgrading_def line_def)

lemma start_request_line:
  assumes "upgrading ctx"
  shows "line (snd (start_request env ctx i q)) = line ctx"
proof -
  have act: "devmgr_upgrade_active (cx_upgrade ctx)" "se_state (cx_session ctx) = DEVMGR_DEVICE_UPGRADING"
    using assms by (simp_all add: upgrading_def working_def)
  have "line (snd (request_upgrade env ctx i q)) = line ctx"
    using act by (auto simp: request_upgrade_def split: option.split)
  then show ?thesis
    using act by (simp add: start_request_def request_telemetry_def request_upgrade_status_def request_device_def)
qed

lemma client_bytes_line:
  assumes "upgrading ctx" "client_bytes env ctx i bs = (ctx1, x)"
  shows "line ctx1 = line ctx \<and> (case x of None \<Rightarrow> True | Some r \<Rightarrow> line (snd r) = line ctx)"
proof -
  have q: "queue_client_response env ctx' i cmd st p k = (r, ctx2) \<Longrightarrow> line ctx2 = line ctx'" for ctx' cmd st p k r ctx2
    using queue_client_response_line [of env ctx' i cmd st p k] by simp
  have s: "start_request env (set_client ctx i c) i req = (r, ctx2) \<Longrightarrow> line ctx2 = line ctx" for c req r ctx2
    using start_request_line [of "set_client ctx i c" env i req] upgrading_line [of "set_client ctx i c" ctx] assms(1) by simp
  show ?thesis
    using assms(2) by (auto simp: client_bytes_def Let_def split: if_splits option.splits sum.splits dest!: q s)
qed

lemma handle_client_input_line: "upgrading ctx \<Longrightarrow> line (snd (handle_client_input env ctx i results)) = line ctx"
proof (induction env ctx i results rule: handle_client_input.induct)
  case (3 env ctx i available results)
  let ?bs = "take (CLIENT_INPUT_SIZE - length (cl_input (cx_clients ctx ! i))) available"
  obtain ctx1 x where b: "client_bytes env ctx i ?bs = (ctx1, x)" by (rule prod.exhaust)
  note B = client_bytes_line [OF "3.prems" b]
  show ?case
  proof (cases x)
    case None
    then show ?thesis
      using B b "3.IH" [OF refl _ b [symmetric]] "3.prems" upgrading_line [of ctx1 ctx] by (auto simp: Let_def)
  next
    case (Some r)
    then show ?thesis using B b by (auto simp: Let_def)
  qed
qed simp_all

lemma handle_client_output_line: "line (snd (handle_client_output ctx i results)) = line ctx"
proof (induction ctx i results rule: handle_client_output.induct)
  case (1 ctx i results)
  then show ?case
    by (subst handle_client_output.simps) (auto simp: Let_def client_output_done_def split: list.split sum.split)
qed

lemma handle_client_line:
  assumes "upgrading ctx"
  shows "line (snd (handle_client env ctx i ev)) = line ctx"
proof -
  let ?a = "if has_flag ev EPOLLIN then handle_client_input env ctx i (ev_reads ev) else (DEVMGR_OK, ctx)"
  have a: "line (snd ?a) = line ctx" using handle_client_input_line [OF assms] by simp
  let ?b = "if fst ?a = DEVMGR_OK \<and> cl_fd (cx_clients (snd ?a) ! i) \<ge> 0 \<and> has_flag ev EPOLLOUT
    then handle_client_output (snd ?a) i (ev_writes ev) else ?a"
  have b: "line (snd ?b) = line ctx" using a handle_client_output_line by (simp only: split: if_split) simp
  have "snd (handle_client env ctx i ev) = snd ?b \<or> snd (handle_client env ctx i ev) = close_client (snd ?b) i"
    unfolding handle_client_def by (simp only: case_prod_beta prod.collapse snd_conv split: if_split) simp
  then show ?thesis using b by auto
qed

lemma accept_clients_line: "line (snd (accept_clients env ctx results)) = line ctx"
proof (induction env ctx results rule: accept_clients.induct)
  case (3 env ctx fd results)
  have "line (accept_client env ctx fd) = line ctx"
    by (simp add: accept_client_def Let_def case_prod_beta)
  then show ?case using 3 by simp
qed simp_all

lemma handle_worker_completion_line:
  assumes "upgrading ctx"
  shows "line (snd (handle_worker_completion env ctx results)) = line ctx"
  using assms
  by (auto simp: handle_worker_completion_def upgrading_def working_def Let_def split: prod.split sum.split)

lemma run_thread_line [simp]: "line (run_thread acts ctx) = line ctx"
  by (simp add: run_thread_def split: prod.split)

text \<open>All events but those of timer and transport.\<close>

lemma handle_event_line:
  assumes "upgrading ctx" "ev_fd ev \<noteq> cx_timer_fd ctx" "ev_fd ev \<noteq> devmgr_transport_get_fd (Some (cx_transport ctx))"
  shows "line (snd (handle_event env ctx ev)) = line ctx"
  using assms
  by (simp add: handle_event_def accept_clients_line handle_worker_completion_line handle_client_line Let_def)

subsection \<open>Frames the daemon puts out\<close>

text \<open>The frame in the transport buffer whose bytes are not all written yet.\<close>

definition unsent :: "daemon_context \<Rightarrow> devmgr_frame list" where
  "unsent ctx =
    (if cx_transport_output_offset ctx < length (cx_transport_output ctx)
     then case devmgr_frame_decode (cx_transport_output ctx) of Inr f \<Rightarrow> [f] | Inl _ \<Rightarrow> [] else [])"

lemma unsent_line: "line a = line b \<Longrightarrow> unsent a = unsent b"
  by (simp add: line_def unsent_def)

lemma unsent_fields [simp]: "unsent (ctx\<lparr>cx_upgrade := u\<rparr>) = unsent ctx" "unsent (ctx\<lparr>cx_session := se\<rparr>) = unsent ctx"
  "unsent (ctx\<lparr>cx_worker := w\<rparr>) = unsent ctx" "unsent (ctx\<lparr>cx_firmware := fw\<rparr>) = unsent ctx"
  by (simp_all add: unsent_def)

lemma queue_frame_sends:
  assumes q: "queue_frame env ctx f = (r, ctx')" and wf: "frame_wf f"
  shows "r \<noteq> DEVMGR_ERROR_TIMEOUT" "r = DEVMGR_OK \<Longrightarrow> unsent ctx = [] \<and> unsent ctx' = [f]"
proof -
  let ?c = "ctx\<lparr>cx_transport_output_offset := 0, cx_transport_output := frame_wire f\<rparr>"
  have e: "devmgr_frame_encode f DEVMGR_PROTOCOL_MAX_FRAME = Inr (frame_wire f)" using frame_encode_max [OF wf] .
  have q': "if cx_transport_output_offset ctx < length (cx_transport_output ctx) then (r, ctx') = (DEVMGR_ERROR_BUSY, ctx)
      else (r, ctx') = update_transport_events env ?c"
    using q e unfolding queue_frame_def Let_def by (auto split: if_splits)
  then show "r \<noteq> DEVMGR_ERROR_TIMEOUT"
    by (auto simp: update_transport_events_def epoll_update_def Let_def split: if_splits)
  have "line (snd (update_transport_events env ?c)) = line ?c" by (simp add: update_transport_events_def)
  moreover have "unsent ?c = [f]" using frame_decode_wire [OF wf] length_frame_wire [OF wf] by (simp add: unsent_def)
  ultimately have u: "unsent (snd (update_transport_events env ?c)) = [f]" using unsent_line by metis
  show "unsent ctx = [] \<and> unsent ctx' = [f]" if "r = DEVMGR_OK"
  proof (cases "cx_transport_output_offset ctx < length (cx_transport_output ctx)")
    case True
    then show ?thesis using q' that by simp
  next
    case False
    then have "(r, ctx') = update_transport_events env ?c" using q' by simp
    then have "unsent ctx' = [f]" using u by (metis snd_conv)
    then show ?thesis using False by (simp add: unsent_def)
  qed
qed

lemma queue_upgrade_request_sends:
  assumes h: "queue_upgrade_request env ctx = (DEVMGR_OK, ctx')"
    and ui: "upgrade_inv (cx_upgrade ctx)" and si: "session_inv (cx_session ctx)"
  obtains f u policy now q where "devmgr_upgrade_build_request (cx_upgrade ctx) = (Inr f, u)"
    "devmgr_session_begin_request (cx_session ctx) (fr_type f) (fr_flags f) (Some (fr_payload f)) (fr_payload_length f)
       policy now = (Inr q, cx_session ctx')"
    "cx_upgrade ctx' = u" "unsent ctx = []" "unsent ctx' = [q]"
proof -
  obtain x u where b: "devmgr_upgrade_build_request (cx_upgrade ctx) = (x, u)" by (rule prod.exhaust)
  obtain f where x: "x = Inr f"
    using h b build_request_error [of "cx_upgrade ctx"] by (cases x) (auto simp: queue_upgrade_request_def)
  obtain now ctx1 where m: "monotonic_ns env (ctx\<lparr>cx_upgrade := u\<rparr>) = (now, ctx1)" by (rule prod.exhaust)
  have l1: "line ctx1 = line (ctx\<lparr>cx_upgrade := u\<rparr>)" using monotonic_ns_line [of env "ctx\<lparr>cx_upgrade := u\<rparr>"] m by simp
  have c1: "cx_session ctx1 = cx_session ctx" "cx_upgrade ctx1 = u" "unsent ctx1 = unsent ctx"
    using line_cong [OF l1] unsent_line [OF l1] by simp_all
  let ?policy = "\<lparr>timeout_ms = 2000, retry_interval_ms = 750, max_retries = 4\<rparr>"
  obtain y se where br: "devmgr_session_begin_request (cx_session ctx) (fr_type f) (fr_flags f) (Some (fr_payload f))
      (fr_payload_length f) ?policy now = (y, se)" by (rule prod.exhaust)
  obtain q where y: "y = Inr q"
    using h b x m br c1 begin_request_state(3) [OF br] by (cases y) (auto simp: queue_upgrade_request_def Let_def)
  obtain r ctx2 where qf: "queue_frame env (ctx1\<lparr>cx_session := se\<rparr>) q = (r, ctx2)" by (rule prod.exhaust)
  have r: "r = DEVMGR_OK \<and> ctx' = ctx2"
    using h b x m br y c1 qf by (cases "r = DEVMGR_OK") (simp_all add: queue_upgrade_request_def Let_def)
  have "frame_wf f" using build_request_wf [OF ui b [unfolded x]] .
  then have "session_inv se" using begin_request_inv [OF si _ br] by (simp add: frame_wf_def)
  then have wf: "frame_wf q" using begin_request_frame [OF br [unfolded y]] by (simp add: session_inv_def)
  have "unsent (ctx1\<lparr>cx_session := se\<rparr>) = []" "unsent ctx2 = [q]" using queue_frame_sends(2) [OF qf wf] r by simp_all
  moreover have "unsent (ctx1\<lparr>cx_session := se\<rparr>) = unsent ctx" using c1(3) by simp
  moreover have "cx_session ctx2 = se" "cx_upgrade ctx2 = u"
    using queue_frame_session(1,2) [of env "ctx1\<lparr>cx_session := se\<rparr>" q] qf c1 by simp_all
  ultimately show thesis using that [OF b [unfolded x], of ?policy now q] br y r by simp
qed

lemma tick_sends:
  assumes t: "devmgr_session_tick (cx_session ctx) now (retransmit_frame env) ctx = (r, se, ctx')"
    and si: "session_inv (cx_session ctx)" and r: "r = DEVMGR_OK \<or> r = DEVMGR_ERROR_TIMEOUT"
  obtains xs where "\<And>out. devmgr_session_tick (cx_session ctx) now send_log out = (r, se, out @ xs)"
    "unsent ctx' = unsent ctx @ xs" "cx_upgrade ctx' = cx_upgrade ctx"
proof -
  let ?p = "se_pending (cx_session ctx)"
  show thesis
  proof (cases "pe_active ?p \<and> \<not> now < pe_deadline_ns ?p \<and> \<not> pe_retries_done ?p \<ge> max_retries (pe_policy ?p)")
    case False
    then show ?thesis
      using t by (intro that [of "[]"]) (auto simp: devmgr_session_tick_def Let_def split: if_splits)
  next
    case True
    obtain r1 ctx1 where q: "queue_frame env ctx (retry_frame (cx_session ctx)) = (r1, ctx1)" by (rule prod.exhaust)
    have "frame_wf (pe_frame ?p)" using si True by (simp add: session_inv_def)
    then have wf: "frame_wf (retry_frame (cx_session ctx))" by simp
    have r1: "r1 = DEVMGR_OK" "ctx' = ctx1"
      using t True q r queue_frame_sends(1) [OF q wf]
      by (auto simp: devmgr_session_tick_def retransmit_frame_def Let_def split: if_splits)
    have "cx_upgrade ctx1 = cx_upgrade ctx" using queue_frame_session(2) [of env ctx "retry_frame (cx_session ctx)"] q by simp
    then show ?thesis
      using t True q r1 queue_frame_sends(2) [OF q wf]
      by (intro that [of "[retry_frame (cx_session ctx)]"])
         (auto simp: devmgr_session_tick_def retransmit_frame_def send_log_def Let_def)
  qed
qed

lemma flush_loop_line:
  "flush_loop ctx results = (b, ctx') \<Longrightarrow> cx_session ctx' = cx_session ctx \<and> cx_upgrade ctx' = cx_upgrade ctx \<and>
    cx_transport_output ctx' = cx_transport_output ctx \<and>
    cx_transport_output_offset ctx \<le> cx_transport_output_offset ctx'"
proof (induction ctx results rule: flush_loop.induct)
  case (1 ctx results)
  then show ?case
    by (subst (asm) flush_loop.simps [of ctx results]) (auto split: if_splits prod.splits sum.splits)
qed

lemma flush_transport_line:
  assumes "flush_transport env ctx results = (DEVMGR_OK, ctx')"
  shows "cx_session ctx' = cx_session ctx" "cx_upgrade ctx' = cx_upgrade ctx" "unsent ctx' = [] \<or> unsent ctx' = unsent ctx"
proof -
  obtain b ctx1 where f: "flush_loop ctx results = (b, ctx1)" by (rule prod.exhaust)
  note F = flush_loop_line [OF f]
  let ?c = "if cx_transport_output_offset ctx1 = length (cx_transport_output ctx1)
    then ctx1\<lparr>cx_transport_output_offset := 0, cx_transport_output := []\<rparr> else ctx1"
  have "line (snd (update_transport_events env ?c)) = line ?c" by (simp only: update_transport_events_def epoll_update_line)
  then have l: "line ctx' = line ?c" using assms f by (auto simp: flush_transport_def split: if_splits)
  then show "cx_session ctx' = cx_session ctx" "cx_upgrade ctx' = cx_upgrade ctx" using F by (auto simp: line_def)
  have "unsent ?c = [] \<or> unsent ?c = unsent ctx" using F by (auto simp: unsent_def)
  then show "unsent ctx' = [] \<or> unsent ctx' = unsent ctx" using unsent_line [OF l] by simp
qed

subsection \<open>Daemon, line and device\<close>

record 's system =
  sy_daemon :: daemon_context
  sy_out :: "devmgr_frame list"
  sy_device :: 's
  sy_in :: "devmgr_frame list"

text \<open>
  The steps while an upgrade works: the daemon handles a frame of the device, writes what it can of
  its output (the frame is on the line when its last byte is), or handles any other event, its timer
  included; the line loses a frame; the device answers one. Handlers that fail end the daemon.
\<close>

inductive system_step ::
  "daemon_env \<Rightarrow> ('e \<Rightarrow> 's \<Rightarrow> devmgr_frame \<Rightarrow> devmgr_frame option \<times> 's) \<Rightarrow> ('e \<Rightarrow> bool) \<Rightarrow> 's system \<Rightarrow> 's system \<Rightarrow> bool"
  for env :: daemon_env and handle :: "'e \<Rightarrow> 's \<Rightarrow> devmgr_frame \<Rightarrow> devmgr_frame option \<times> 's" and env_ok :: "'e \<Rightarrow> bool" where
  sys_frame: "upgrading (sy_daemon y) \<Longrightarrow> sy_in y = r # rs \<Longrightarrow> frame_wf r \<Longrightarrow>
    on_device_frame env r (sy_daemon y) = (DEVMGR_OK, ctx) \<Longrightarrow>
    system_step env handle env_ok y (y\<lparr>sy_daemon := ctx, sy_in := rs\<rparr>)"
| sys_flush: "upgrading (sy_daemon y) \<Longrightarrow> flush_transport env (sy_daemon y) results = (DEVMGR_OK, ctx) \<Longrightarrow>
    system_step env handle env_ok y
      (y\<lparr>sy_daemon := ctx, sy_out := sy_out y @ (if unsent ctx = [] then unsent (sy_daemon y) else [])\<rparr>)"
| sys_event: "upgrading (sy_daemon y) \<Longrightarrow> event_ok ev \<Longrightarrow>
    ev_fd ev \<noteq> devmgr_transport_get_fd (Some (cx_transport (sy_daemon y))) \<Longrightarrow>
    handle_event env (run_thread (ev_thread ev) (sy_daemon y)) ev = (DEVMGR_OK, ctx) \<Longrightarrow>
    system_step env handle env_ok y (y\<lparr>sy_daemon := ctx\<rparr>)"
| sys_lose_out: "sy_out y = xs @ q # ys \<Longrightarrow> system_step env handle env_ok y (y\<lparr>sy_out := xs @ ys\<rparr>)"
| sys_lose_in: "sy_in y = xs @ r # ys \<Longrightarrow> system_step env handle env_ok y (y\<lparr>sy_in := xs @ ys\<rparr>)"
| sys_deliver: "upgrading (sy_daemon y) \<Longrightarrow> sy_out y = q # qs \<Longrightarrow> env_ok e \<Longrightarrow> handle e (sy_device y) q = (ro, s) \<Longrightarrow>
    system_step env handle env_ok y (y\<lparr>sy_out := qs, sy_device := s,
      sy_in := sy_in y @ (case ro of None \<Rightarrow> [] | Some r \<Rightarrow> [r])\<rparr>)"

inductive_cases system_stepE: "system_step env handle env_ok y y'"

text \<open>The link a system stands for, and when a link accounts for it.\<close>

definition link_of :: "'s system \<Rightarrow> 's link" where
  "link_of y = \<lparr>lk_upgrade = cx_upgrade (sy_daemon y), lk_session = cx_session (sy_daemon y),
     lk_out = sy_out y @ unsent (sy_daemon y), lk_device = sy_device y, lk_in = sy_in y\<rparr>"

definition implements :: "'s system \<Rightarrow> 's link \<Rightarrow> bool" where
  "implements y l \<longleftrightarrow> daemon_inv (sy_daemon y) \<and>
     (up_state (cx_upgrade (sy_daemon y)) = DEVMGR_UPGRADE_ERROR \<or>
      (if upgrading (sy_daemon y) then l = link_of y
       else lk_upgrade l = cx_upgrade (sy_daemon y) \<and> lk_device l = sy_device y))"

lemma upgrading_job:
  assumes "daemon_inv ctx" "upgrading ctx"
  shows "upgrade_inv (cx_upgrade ctx)" "devmgr_upgrade_active (cx_upgrade ctx)" "working (cx_upgrade ctx)"
    "session_inv (cx_session ctx)" "se_state (cx_session ctx) = DEVMGR_DEVICE_UPGRADING"
  using assms daemon_invD(1,2) [OF assms(1)] by (auto simp: upgrading_def working_def upgrade_ok_def job_held_def)

lemma ended_states: "up_state u = DEVMGR_UPGRADE_ERROR \<or> up_state u = DEVMGR_UPGRADE_COMPLETE \<Longrightarrow> \<not> working u"
  using ended_upgrade(1) by blast

text \<open>A request put out continues the link.\<close>

lemma send_link:
  assumes h: "queue_upgrade_request env ctx = (DEVMGR_OK, ctx')" and ui: "upgrade_inv (cx_upgrade ctx)"
    and si: "session_inv (cx_session ctx)"
  shows "link_step handle env_ok
    \<lparr>lk_upgrade = cx_upgrade ctx, lk_session = cx_session ctx, lk_out = out @ unsent ctx, lk_device = s, lk_in = ins\<rparr>
    \<lparr>lk_upgrade = cx_upgrade ctx', lk_session = cx_session ctx', lk_out = out @ unsent ctx', lk_device = s, lk_in = ins\<rparr>"
proof -
  let ?l = "\<lparr>lk_upgrade = cx_upgrade ctx, lk_session = cx_session ctx, lk_out = out @ unsent ctx, lk_device = s, lk_in = ins\<rparr>"
  obtain f u policy now q where q: "devmgr_upgrade_build_request (cx_upgrade ctx) = (Inr f, u)"
    "devmgr_session_begin_request (cx_session ctx) (fr_type f) (fr_flags f) (Some (fr_payload f)) (fr_payload_length f)
       policy now = (Inr q, cx_session ctx')"
    "cx_upgrade ctx' = u" "unsent ctx = []" "unsent ctx' = [q]"
    using queue_upgrade_request_sends [OF h ui si] by metis
  then show ?thesis using link_send [of ?l f u policy now q "cx_session ctx'" handle env_ok] by simp
qed

lemma queue_upgrade_request_state:
  assumes "queue_upgrade_request env ctx = (DEVMGR_OK, ctx')" "upgrade_inv (cx_upgrade ctx)" "session_inv (cx_session ctx)"
  shows "upgrading ctx' = upgrading ctx" "up_state (cx_upgrade ctx') = up_state (cx_upgrade ctx)"
proof -
  obtain f u policy now q where q: "devmgr_upgrade_build_request (cx_upgrade ctx) = (Inr f, u)"
    "devmgr_session_begin_request (cx_session ctx) (fr_type f) (fr_flags f) (Some (fr_payload f)) (fr_payload_length f)
       policy now = (Inr q, cx_session ctx')" "cx_upgrade ctx' = u"
    using queue_upgrade_request_sends [OF assms] by metis
  show "up_state (cx_upgrade ctx') = up_state (cx_upgrade ctx)" using build_request_frame(1) [OF q(1)] q(3) by simp
  then show "upgrading ctx' = upgrading ctx"
    using begin_request_state(1) [OF q(2)] by (simp add: upgrading_def working_def devmgr_upgrade_active_def)
qed

lemma frame_link:
  assumes inv: "daemon_inv (sy_daemon y)" and up: "upgrading (sy_daemon y)" and i: "sy_in y = r # rs" and wf: "frame_wf r"
    and h: "on_device_frame env r (sy_daemon y) = (DEVMGR_OK, ctx)"
  shows "\<exists>l. reach (link_step handle env_ok) (link_of y) l \<and> implements (y\<lparr>sy_daemon := ctx, sy_in := rs\<rparr>) l"
proof -
  let ?d = "sy_daemon y" and ?y = "y\<lparr>sy_daemon := ctx, sy_in := rs\<rparr>"
  note J = upgrading_job [OF inv up]
  have inv': "daemon_inv ctx" using on_device_frame_ok [OF inv wf, of env] h by simp
  have dropped: ?thesis if "line ctx = line ?d"
  proof -
    have "link_step handle env_ok (link_of y) (link_of ?y)"
      using link_lose_in [of "link_of y" "[]" r rs handle env_ok] i line_cong [OF that] unsent_line [OF that]
      by (simp add: link_of_def)
    moreover have "implements ?y (link_of ?y)" using inv' up upgrading_line [OF that] by (simp add: implements_def)
    ultimately show ?thesis by blast
  qed
  show ?thesis
  proof (cases "fr_type r = DEVMGR_MSG_TELEMETRY \<and> fr_sequence r = 0")
    case True
    then show ?thesis using h by (intro dropped) (auto simp: on_device_frame_def line_def split: if_splits)
  next
    case tel: False
    let ?t = "fr_type (pe_frame (se_pending (cx_session ?d)))"
    obtain st se where ar: "devmgr_session_accept_response (cx_session ?d) r = (st, se)" by (rule prod.exhaust)
    have s: "se_state se = DEVMGR_DEVICE_UPGRADING" "session_inv se"
      using accept_response_state(1) [OF ar] accept_response_inv [OF J(4) ar] J(5) by simp_all
    show ?thesis
    proof (cases "st = DEVMGR_OK")
      case False
      then have c: "ctx = ?d\<lparr>cx_session := se\<rparr>" using h tel ar by (simp add: on_device_frame_def)
      have "link_step handle env_ok (link_of y) (link_of ?y)"
        using link_ignore [of "link_of y" r rs st se handle env_ok] i ar False c by (simp add: link_of_def)
      moreover have "implements ?y (link_of ?y)" using inv' up s(1) c by (simp add: implements_def upgrading_def)
      ultimately show ?thesis by blast
    next
      case True
      obtain st2 u where ua: "devmgr_upgrade_accept_response (cx_upgrade ?d) ?t r = (st2, u)" by (rule prod.exhaust)
      have e: "upgrade_response env (?d\<lparr>cx_session := se\<rparr>) ?t r = (DEVMGR_OK, ctx)"
        using h tel ar True s(1) J(2) by (simp add: on_device_frame_def)
      let ?l = "(link_of y)\<lparr>lk_in := rs, lk_session := se, lk_upgrade := u\<rparr>"
      have recv: "link_step handle env_ok (link_of y) ?l"
        using link_receive [of "link_of y" r rs se st2 u handle env_ok] i ar True ua J(2) by (simp add: link_of_def)
      consider "st2 \<noteq> DEVMGR_OK" | "st2 = DEVMGR_OK" "up_state u = DEVMGR_UPGRADE_COMPLETE"
        | "st2 = DEVMGR_OK" "up_state u \<noteq> DEVMGR_UPGRADE_COMPLETE" by blast
      then show ?thesis
      proof cases
        case 1
        then have "cx_upgrade ctx = u" using e ua by (auto simp: upgrade_response_def Let_def)
        then have "implements ?y ?l" using accept_response_error [OF ua] 1 inv' by (simp add: implements_def)
        then show ?thesis using recv by blast
      next
        case 2
        then have c: "cx_upgrade ctx = u" using e ua by (auto simp: upgrade_response_def Let_def)
        then have "\<not> upgrading ctx" using ended_states 2(2) by (simp add: upgrading_def)
        then have "implements ?y ?l" using c inv' by (simp add: implements_def link_of_def)
        then show ?thesis using recv by blast
      next
        case 3
        let ?c = "?d\<lparr>cx_session := se, cx_upgrade := u\<rparr>"
        have q: "queue_upgrade_request env ?c = (DEVMGR_OK, ctx)" using e ua 3 by (simp add: upgrade_response_def Let_def)
        have "job_held (cx_upgrade ?d) (cx_firmware ?d)" using daemon_invD(2) [OF inv] J(3) by (simp add: upgrade_ok_def)
        note w = accept_working [OF this J(3) ua [unfolded 3(1)] 3(2)]
        have ui: "upgrade_inv (cx_upgrade ?c)" using w(1) by (simp add: job_held_def)
        have "link_step handle env_ok ?l (link_of ?y)"
          using send_link [OF q ui, of handle env_ok "sy_out y" "sy_device y" rs] s(2) by (simp add: link_of_def)
        moreover have "upgrading ctx"
          using queue_upgrade_request_state(1) [OF q ui] s w(2) by (simp add: upgrading_def)
        then have "implements ?y (link_of ?y)" using inv' by (simp add: implements_def)
        ultimately show ?thesis using recv by (meson reach_refl reach_step)
      qed
    qed
  qed
qed

lemma give_up_error: "up_state (cx_upgrade (give_up e c)) = DEVMGR_UPGRADE_ERROR"
  by (simp add: give_up_def)

lemma timer_link:
  assumes inv: "daemon_inv (sy_daemon y)" and up: "upgrading (sy_daemon y)"
    and h: "handle_timer env (sy_daemon y) = (DEVMGR_OK, ctx)"
  shows "\<exists>l. reach (link_step handle env_ok) (link_of y) l \<and> implements (y\<lparr>sy_daemon := ctx\<rparr>) l"
proof -
  let ?d = "sy_daemon y" and ?y = "y\<lparr>sy_daemon := ctx\<rparr>"
  note J = upgrading_job [OF inv up]
  have inv': "daemon_inv ctx" using handle_timer_ok [OF inv, of env] h by simp
  obtain now ctx1 where m: "monotonic_ns env ?d = (now, ctx1)" by (rule prod.exhaust)
  have l1: "line ctx1 = line ?d" using monotonic_ns_line [of env ?d] m by simp
  note c1 = line_cong [OF l1] and u1 = unsent_line [OF l1]
  obtain r se ctx2 where t: "devmgr_session_tick (cx_session ctx1) now (retransmit_frame env) ctx1 = (r, se, ctx2)"
    by (rule prod_cases3)
  have r: "r = DEVMGR_OK \<or> r = DEVMGR_ERROR_TIMEOUT"
    using h m t by (auto simp: handle_timer_def Let_def split: if_splits)
  have si1: "session_inv (cx_session ctx1)" using J(4) c1 by simp
  obtain xs where x: "\<And>out. devmgr_session_tick (cx_session ctx1) now send_log out = (r, se, out @ xs)"
    "unsent ctx2 = unsent ctx1 @ xs" "cx_upgrade ctx2 = cx_upgrade ctx1"
    using tick_sends [OF t si1 r] by metis
  have s: "se_state se = DEVMGR_DEVICE_UPGRADING" "session_inv se"
    using tick_state(1) [OF t] tick_inv [OF si1 t] J(5) c1 by simp_all
  let ?c = "ctx2\<lparr>cx_session := se\<rparr>"
  show ?thesis
  proof (cases "r = DEVMGR_OK")
    case True
    then have c: "ctx = ?c" using h m t by (simp add: handle_timer_def)
    have "link_step handle env_ok (link_of y) (link_of ?y)"
      using link_tick [of "link_of y" now r se "sy_out y @ unsent ?d @ xs" handle env_ok] x c1 u1 c True
      by (simp add: link_of_def)
    moreover have "implements ?y (link_of ?y)"
      using inv' s(1) up c x(3) c1 by (simp add: implements_def upgrading_def)
    ultimately show ?thesis by blast
  next
    case False
    then have to: "r = DEVMGR_ERROR_TIMEOUT" using r by simp
    have act: "devmgr_upgrade_active (cx_upgrade ctx2)" using x(3) c1 J(2) by simp
    have c: "ctx = upgrade_timeout env ?c" using h m t to act by (simp add: handle_timer_def)
    obtain st u where br: "devmgr_upgrade_begin_recovery (cx_upgrade ?d) = (st, u)" by (rule prod.exhaust)
    let ?l = "(link_of y)\<lparr>lk_session := se, lk_out := sy_out y @ unsent ctx2,
      lk_upgrade := if st = DEVMGR_OK then u else u\<lparr>up_state := DEVMGR_UPGRADE_ERROR\<rparr>\<rparr>"
    have step: "link_step handle env_ok (link_of y) ?l"
      using link_timeout [of "link_of y" now se "sy_out y @ unsent ctx2" st u handle env_ok] x c1 u1 to br
      by (simp add: link_of_def)
    have gave_up: ?thesis if "up_state (cx_upgrade ctx) = DEVMGR_UPGRADE_ERROR"
      using that inv' by (intro exI [of _ "link_of y"]) (auto simp: implements_def)
    show ?thesis
    proof (cases "st = DEVMGR_OK")
      case False
      then show ?thesis using c br x(3) c1 by (intro gave_up) (simp add: upgrade_timeout_alt give_up_error)
    next
      case True
      obtain st2 ctx3 where q: "queue_upgrade_request env (?c\<lparr>cx_upgrade := u\<rparr>) = (st2, ctx3)" by (rule prod.exhaust)
      have e: "ctx = (if st2 = DEVMGR_OK then ctx3 else give_up DEVMGR_ERROR_TIMEOUT ctx3)"
        using c br x(3) c1 True q by (simp add: upgrade_timeout_alt)
      show ?thesis
      proof (cases "st2 = DEVMGR_OK")
        case False
        then show ?thesis using e by (intro gave_up) (simp add: give_up_error)
      next
        case ok: True
        have "job_held (cx_upgrade ?d) (cx_firmware ?d)" using daemon_invD(2) [OF inv] J(3) by (simp add: upgrade_ok_def)
        note w = recovery_working [OF this br [unfolded True]]
        have ui: "upgrade_inv (cx_upgrade (?c\<lparr>cx_upgrade := u\<rparr>))" using w(1) by (simp add: job_held_def)
        note q' = q [unfolded ok]
        have "link_step handle env_ok ?l (link_of ?y)"
          using send_link [OF q' ui, of handle env_ok "sy_out y" "sy_device y" "sy_in y"] s(2) True ok e
          by (simp add: link_of_def)
        moreover have "upgrading ctx"
          using queue_upgrade_request_state(1) [OF q' ui] s w(2) e ok by (simp add: upgrading_def)
        then have "implements ?y (link_of ?y)" using inv' by (simp add: implements_def)
        ultimately show ?thesis using step by (meson reach_refl reach_step)
      qed
    qed
  qed
qed

lemma handle_event_cases:
  assumes "upgrading ctx" "ev_fd ev \<noteq> devmgr_transport_get_fd (Some (cx_transport ctx))"
  shows "line (snd (handle_event env ctx ev)) = line ctx \<or> handle_event env ctx ev = handle_timer env ctx"
  using assms
  by (simp add: handle_event_def accept_clients_line handle_worker_completion_line handle_client_line Let_def)

lemma same_line_implements:
  assumes "line ctx = line (sy_daemon y)" "daemon_inv ctx" "upgrading (sy_daemon y)"
  shows "link_of (y\<lparr>sy_daemon := ctx\<rparr>) = link_of y" "implements (y\<lparr>sy_daemon := ctx\<rparr>) (link_of y)"
proof -
  show "link_of (y\<lparr>sy_daemon := ctx\<rparr>) = link_of y"
    using line_cong [OF assms(1)] unsent_line [OF assms(1)] by (simp add: link_of_def)
  then show "implements (y\<lparr>sy_daemon := ctx\<rparr>) (link_of y)"
    using assms upgrading_line [OF assms(1)] by (simp add: implements_def)
qed

lemma event_link:
  assumes inv: "daemon_inv (sy_daemon y)" and up: "upgrading (sy_daemon y)" and ev: "event_ok ev"
    and fd: "ev_fd ev \<noteq> devmgr_transport_get_fd (Some (cx_transport (sy_daemon y)))"
    and h: "handle_event env (run_thread (ev_thread ev) (sy_daemon y)) ev = (DEVMGR_OK, ctx)"
  shows "\<exists>l. reach (link_step handle env_ok) (link_of y) l \<and> implements (y\<lparr>sy_daemon := ctx\<rparr>) l"
proof -
  let ?d = "run_thread (ev_thread ev) (sy_daemon y)" and ?y = "y\<lparr>sy_daemon := run_thread (ev_thread ev) (sy_daemon y)\<rparr>"
  have d: "daemon_inv ?d" "upgrading ?d" "cx_transport ?d = cx_transport (sy_daemon y)"
    using run_thread_ok [OF inv] ev upgrading_line [OF run_thread_line] up
    by (simp_all add: event_ok_def run_thread_def split: prod.split)
  have inv': "daemon_inv ctx" using handle_event_ok [OF d(1), of ev env] ev h by (simp add: event_ok_def)
  consider "line ctx = line ?d" | "handle_timer env ?d = (DEVMGR_OK, ctx)"
    using handle_event_cases [OF d(2), of ev env] fd d(3) h by auto
  then show ?thesis
  proof cases
    case 1
    then show ?thesis using same_line_implements(2) [of ctx y] inv' up by auto
  next
    case 2
    have "link_of ?y = link_of y" using same_line_implements(1) [of ?d y] d(1) up by simp
    then show ?thesis using timer_link [of ?y env ctx handle env_ok] d 2 by simp
  qed
qed

lemma flush_link:
  assumes inv: "daemon_inv (sy_daemon y)" and up: "upgrading (sy_daemon y)"
    and h: "flush_transport env (sy_daemon y) results = (DEVMGR_OK, ctx)"
  shows "implements (y\<lparr>sy_daemon := ctx, sy_out := sy_out y @ (if unsent ctx = [] then unsent (sy_daemon y) else [])\<rparr>) (link_of y)"
proof -
  note f = flush_transport_line [OF h]
  have "daemon_inv ctx" using flush_transport_ok [OF inv, of env results] h by simp
  moreover have "upgrading ctx" using f up by (simp add: upgrading_def)
  moreover have "(if unsent ctx = [] then unsent (sy_daemon y) else []) @ unsent ctx = unsent (sy_daemon y)" using f(3) by auto
  ultimately show ?thesis using f by (simp add: implements_def link_of_def)
qed

lemma error_not_upgrading: "up_state (cx_upgrade ctx) = DEVMGR_UPGRADE_ERROR \<Longrightarrow> \<not> upgrading ctx"
  by (simp add: upgrading_def ended_states)

lemma implements_link: "implements y l \<Longrightarrow> upgrading (sy_daemon y) \<Longrightarrow> l = link_of y \<and> daemon_inv (sy_daemon y)"
  using error_not_upgrading by (auto simp: implements_def)

lemma system_step_link:
  assumes step: "system_step env handle env_ok y y'" and im: "implements y l"
  shows "\<exists>l'. reach (link_step handle env_ok) l l' \<and> implements y' l'"
  using step
proof (rule system_stepE)
  fix r rs ctx
  assume a: "y' = y\<lparr>sy_daemon := ctx, sy_in := rs\<rparr>" "upgrading (sy_daemon y)" "sy_in y = r # rs" "frame_wf r"
    "on_device_frame env r (sy_daemon y) = (DEVMGR_OK, ctx)"
  show ?thesis using frame_link [OF _ a(2-5), of handle env_ok] implements_link [OF im a(2)] a(1) by simp
next
  fix results ctx
  assume a: "y' = y\<lparr>sy_daemon := ctx, sy_out := sy_out y @ (if unsent ctx = [] then unsent (sy_daemon y) else [])\<rparr>"
    "upgrading (sy_daemon y)" "flush_transport env (sy_daemon y) results = (DEVMGR_OK, ctx)"
  show ?thesis using flush_link [OF _ a(2,3)] implements_link [OF im a(2)] a(1) by blast
next
  fix ev ctx
  assume a: "y' = y\<lparr>sy_daemon := ctx\<rparr>" "upgrading (sy_daemon y)" "event_ok ev"
    "ev_fd ev \<noteq> devmgr_transport_get_fd (Some (cx_transport (sy_daemon y)))"
    "handle_event env (run_thread (ev_thread ev) (sy_daemon y)) ev = (DEVMGR_OK, ctx)"
  show ?thesis using event_link [OF _ a(2-5), of handle env_ok] implements_link [OF im a(2)] a(1) by simp
next
  fix xs q ys
  assume a: "y' = y\<lparr>sy_out := xs @ ys\<rparr>" "sy_out y = xs @ q # ys"
  show ?thesis
  proof (cases "upgrading (sy_daemon y)")
    case True
    have "link_step handle env_ok (link_of y) (link_of y')"
      using link_lose_out [of "link_of y" xs q "ys @ unsent (sy_daemon y)" handle env_ok] a by (simp add: link_of_def)
    moreover have "implements y' (link_of y')" using implements_link [OF im True] True a(1) by (simp add: implements_def)
    ultimately show ?thesis using implements_link [OF im True] by blast
  next
    case False
    then show ?thesis using im a(1) by (intro exI [of _ l]) (auto simp: implements_def)
  qed
next
  fix xs r ys
  assume a: "y' = y\<lparr>sy_in := xs @ ys\<rparr>" "sy_in y = xs @ r # ys"
  show ?thesis
  proof (cases "upgrading (sy_daemon y)")
    case True
    have "link_step handle env_ok (link_of y) (link_of y')"
      using link_lose_in [of "link_of y" xs r ys handle env_ok] a by (simp add: link_of_def)
    moreover have "implements y' (link_of y')" using implements_link [OF im True] True a(1) by (simp add: implements_def)
    ultimately show ?thesis using implements_link [OF im True] by blast
  next
    case False
    then show ?thesis using im a(1) by (intro exI [of _ l]) (auto simp: implements_def)
  qed
next
  fix q qs e ro s
  assume a: "y' = y\<lparr>sy_out := qs, sy_device := s, sy_in := sy_in y @ (case ro of None \<Rightarrow> [] | Some r \<Rightarrow> [r])\<rparr>"
    "upgrading (sy_daemon y)" "sy_out y = q # qs" "env_ok e" "handle e (sy_device y) q = (ro, s)"
  have "link_step handle env_ok (link_of y) (link_of y')"
    using link_deliver [of "link_of y" q "qs @ unsent (sy_daemon y)" env_ok e handle ro s] a by (simp add: link_of_def)
  moreover have "implements y' (link_of y')" using implements_link [OF im a(2)] a(1,2) by (simp add: implements_def)
  ultimately show ?thesis using implements_link [OF im a(2)] by blast
qed

lemma system_refines_link:
  assumes "reach (system_step env handle env_ok) y y'" "implements y l"
  shows "\<exists>l'. reach (link_step handle env_ok) l l' \<and> implements y' l'"
  using assms
proof (induction rule: reach.induct)
  case (reach_step y0 y1 y2)
  then obtain l1 where l1: "reach (link_step handle env_ok) l l1" "implements y1 l1" by blast
  obtain l2 where "reach (link_step handle env_ok) l1 l2" "implements y2 l2"
    using system_step_link [OF reach_step.hyps(2) l1(2)] by blast
  then show ?case using reach_trans [OF _ l1(1)] by blast
qed blast

subsection \<open>From the worker's result to the installed image\<close>

text \<open>The event that starts an upgrade.\<close>

definition upgrade_starts :: "daemon_env \<Rightarrow> daemon_context \<Rightarrow> nat sysret list \<Rightarrow> daemon_context \<Rightarrow> bool" where
  "upgrade_starts env ctx0 results ctx \<longleftrightarrow> up_state (cx_upgrade ctx0) = DEVMGR_UPGRADE_VALIDATING \<and>
     handle_worker_completion env ctx0 results = (DEVMGR_OK, ctx) \<and> upgrading ctx"

lemma upgrade_starts_sends:
  assumes inv: "daemon_inv ctx0" and st: "upgrade_starts env ctx0 results ctx"
  obtains u w where
    "devmgr_upgrade_start (cx_upgrade ctx0) (fi_data (vr_image (wk_result (cx_worker ctx0))))
       (fi_size (vr_image (wk_result (cx_worker ctx0)))) (fi_crc32 (vr_image (wk_result (cx_worker ctx0))))
       (Some (cx_pending_upgrade_version ctx0)) DEVMGR_UPGRADE_DEFAULT_CHUNK = (DEVMGR_OK, u)"
    "image_valid (vr_image (wk_result (cx_worker ctx0)))" "upgrade_inv u"
    "queue_upgrade_request env (ctx0\<lparr>cx_worker := w, cx_firmware := vr_image (wk_result (cx_worker ctx0)), cx_upgrade := u,
       cx_session := (cx_session ctx0)\<lparr>se_state := DEVMGR_DEVICE_UPGRADING\<rparr>\<rparr>) = (DEVMGR_OK, ctx)"
proof -
  note D = daemon_invD [OF inv]
  have val: "up_state (cx_upgrade ctx0) = DEVMGR_UPGRADE_VALIDATING"
    and h: "handle_worker_completion env ctx0 results = (DEVMGR_OK, ctx)" and up: "upgrading ctx"
    using st by (simp_all add: upgrade_starts_def)
  have nw: "\<not> working (cx_upgrade ctx0)" using val by (simp add: working_def)
  obtain x w where tr: "devmgr_worker_take_result (cx_worker ctx0) = (x, w)" by (rule prod.exhaust)
  have rd: "fst (retry_eintr results) = Inr 8" using h by (auto simp: handle_worker_completion_def split: if_splits)
  obtain v where x: "x = Inr v"
    using h rd tr nw up by (cases x) (auto simp: handle_worker_completion_def upgrading_def)
  have v: "v = wk_result (cx_worker ctx0)" "wk_result_pending (cx_worker ctx0)"
    using tr x by (auto simp: devmgr_worker_take_result_def Let_def split: if_splits)
  have id: "vr_job_id v = cx_upgrade_operation_id ctx0"
  proof (rule ccontr)
    assume "vr_job_id v \<noteq> cx_upgrade_operation_id ctx0"
    then have "cx_upgrade ctx = cx_upgrade ctx0" using h rd tr x by (auto simp: handle_worker_completion_def Let_def)
    then show False using nw up by (simp add: upgrading_def)
  qed
  have ok: "vr_status v = DEVMGR_OK"
  proof (rule ccontr)
    assume "vr_status v \<noteq> DEVMGR_OK"
    then have "up_state (cx_upgrade ctx) = DEVMGR_UPGRADE_ERROR"
      using h rd tr x id val by (auto simp: handle_worker_completion_def Let_def)
    then show False using error_not_upgrading up by blast
  qed
  have iv: "image_valid (vr_image v)" using D(4) v ok by (simp add: mailbox_ok_def result_ok_def)
  obtain r u where us: "devmgr_upgrade_start (cx_upgrade ctx0) (fi_data (vr_image v)) (fi_size (vr_image v))
      (fi_crc32 (vr_image v)) (Some (cx_pending_upgrade_version ctx0)) DEVMGR_UPGRADE_DEFAULT_CHUNK = (r, u)"
    by (rule prod.exhaust)
  note alt = handle_worker_completion_alt [OF rd tr [unfolded x] id val ok, of env, unfolded us prod.case Let_def
      transition_start_upgrade h]
  have no: "c \<noteq> ctx" if "c = give_up e c'" for c c' e
    using that give_up_error error_not_upgrading up by blast
  have r: "r = DEVMGR_OK" using alt no by (auto split: if_splits)
  have rd2: "se_state (cx_session ctx0) = DEVMGR_DEVICE_READY" using alt no r by (auto split: if_splits)
  let ?se = "(cx_session ctx0)\<lparr>se_state := DEVMGR_DEVICE_UPGRADING\<rparr>"
  let ?c = "ctx0\<lparr>cx_worker := w, cx_firmware := vr_image v, cx_upgrade := u, cx_session := ?se\<rparr>"
  obtain r2 ctx4 where q: "queue_upgrade_request env ?c = (r2, ctx4)" by (rule prod.exhaust)
  have q': "queue_upgrade_request env ?c = (DEVMGR_OK, ctx)" using alt no r rd2 q by (auto split: if_splits)
  have "upgrade_inv u" using upgrade_start_working(1) [OF iv us [unfolded r]] by (simp add: job_held_def)
  then show thesis using that us r iv q' v(1) by blast
qed

lemma upgrade_starts_link:
  assumes inv: "daemon_inv ctx0" and st: "upgrade_starts env ctx0 results ctx"
  obtains u f n where
    "devmgr_upgrade_start (cx_upgrade ctx0) (fi_data (vr_image (wk_result (cx_worker ctx0))))
       (fi_size (vr_image (wk_result (cx_worker ctx0)))) (fi_crc32 (vr_image (wk_result (cx_worker ctx0))))
       (Some (cx_pending_upgrade_version ctx0)) DEVMGR_UPGRADE_DEFAULT_CHUNK = (DEVMGR_OK, u)"
    "image_valid (vr_image (wk_result (cx_worker ctx0)))"
    "\<not> pe_active (se_pending (cx_session ctx0))"
    "link_step handle env_ok
       \<lparr>lk_upgrade = u, lk_session = (cx_session ctx0)\<lparr>se_state := DEVMGR_DEVICE_UPGRADING\<rparr>, lk_out = [], lk_device = s, lk_in = []\<rparr>
       (link_of \<lparr>sy_daemon = ctx, sy_out = [], sy_device = s, sy_in = []\<rparr>)"
    "devmgr_upgrade_build_request u = (Inr f, cx_upgrade ctx)" "unsent ctx = [f\<lparr>fr_sequence := n\<rparr>]"
    "pe_active (se_pending (cx_session ctx))" "pe_frame (se_pending (cx_session ctx)) = f\<lparr>fr_sequence := n\<rparr>"
proof -
  obtain u w where us: "devmgr_upgrade_start (cx_upgrade ctx0) (fi_data (vr_image (wk_result (cx_worker ctx0))))
       (fi_size (vr_image (wk_result (cx_worker ctx0)))) (fi_crc32 (vr_image (wk_result (cx_worker ctx0))))
       (Some (cx_pending_upgrade_version ctx0)) DEVMGR_UPGRADE_DEFAULT_CHUNK = (DEVMGR_OK, u)"
    and iv: "image_valid (vr_image (wk_result (cx_worker ctx0)))" and ui: "upgrade_inv u"
    and q: "queue_upgrade_request env (ctx0\<lparr>cx_worker := w, cx_firmware := vr_image (wk_result (cx_worker ctx0)), cx_upgrade := u,
       cx_session := (cx_session ctx0)\<lparr>se_state := DEVMGR_DEVICE_UPGRADING\<rparr>\<rparr>) = (DEVMGR_OK, ctx)"
    by (rule upgrade_starts_sends [OF inv st])
  let ?se = "(cx_session ctx0)\<lparr>se_state := DEVMGR_DEVICE_UPGRADING\<rparr>"
  let ?c = "ctx0\<lparr>cx_worker := w, cx_firmware := vr_image (wk_result (cx_worker ctx0)), cx_upgrade := u, cx_session := ?se\<rparr>"
  have uc: "upgrade_inv (cx_upgrade ?c)" and si: "session_inv (cx_session ?c)"
    using ui daemon_invD(1) [OF inv] by (simp_all add: session_inv_def)
  obtain f u' policy now qf where b: "devmgr_upgrade_build_request (cx_upgrade ?c) = (Inr f, u')"
    and s: "devmgr_session_begin_request (cx_session ?c) (fr_type f) (fr_flags f)
      (Some (fr_payload f)) (fr_payload_length f) policy now = (Inr qf, cx_session ctx)" "cx_upgrade ctx = u'" "unsent ?c = []"
      "unsent ctx = [qf]"
    by (rule queue_upgrade_request_sends [OF q uc si])
  have idle: "\<not> pe_active (se_pending (cx_session ctx0))" and to: "timeout_ms policy \<noteq> 0"
    using s(1) by (auto simp: devmgr_session_begin_request_def split: if_splits)
  have "frame_wf f" using build_request_wf [OF ui] b by simp
  then have qf: "qf = f\<lparr>fr_sequence := se_next_sequence ?se\<rparr>"
    using begin_request_idle [of ?se f policy now] idle to s(1) by simp
  have "link_step handle env_ok \<lparr>lk_upgrade = u, lk_session = ?se, lk_out = [], lk_device = s, lk_in = []\<rparr>
       (link_of \<lparr>sy_daemon = ctx, sy_out = [], sy_device = s, sy_in = []\<rparr>)"
    using send_link [OF q uc si, of handle env_ok "[]" s "[]"] s(3) by (simp add: link_of_def)
  then show thesis
    using that [OF us iv idle, of f "se_next_sequence ?se"] b s begin_request_frame [OF s(1)] qf by simp
qed

definition on_line :: "daemon_context \<Rightarrow> 's \<Rightarrow> 's system" where
  "on_line ctx s = \<lparr>sy_daemon = ctx, sy_out = [], sy_device = s, sy_in = []\<rparr>"

lemma upgrade_starts_inv: "daemon_inv ctx0 \<Longrightarrow> upgrade_starts env ctx0 results ctx \<Longrightarrow> daemon_inv ctx"
  using handle_worker_completion_ok [of ctx0 env results] by (simp add: upgrade_starts_def)

text \<open>Any device behind the interface: a run of the system is one of the link, from its start.\<close>

lemma system_run_link:
  assumes inv: "daemon_inv ctx0" and st: "upgrade_starts env ctx0 results ctx"
    and run: "reach (system_step env handle env_ok) (on_line ctx s) y"
    and fin: "up_state (cx_upgrade (sy_daemon y)) = DEVMGR_UPGRADE_COMPLETE"
    and img: "img = vr_image (wk_result (cx_worker ctx0))"
  obtains u l where
    "devmgr_upgrade_start (cx_upgrade ctx0) (fi_data img) (fi_size img) (fi_crc32 img)
       (Some (cx_pending_upgrade_version ctx0)) DEVMGR_UPGRADE_DEFAULT_CHUNK = (DEVMGR_OK, u)"
    "image_valid img" "\<not> pe_active (se_pending (cx_session ctx0))"
    "reach (link_step handle env_ok)
       \<lparr>lk_upgrade = u, lk_session = (cx_session ctx0)\<lparr>se_state := DEVMGR_DEVICE_UPGRADING\<rparr>, lk_out = [], lk_device = s, lk_in = []\<rparr> l"
    "up_state (lk_upgrade l) = DEVMGR_UPGRADE_COMPLETE" "lk_device l = sy_device y"
proof -
  obtain u where u: "devmgr_upgrade_start (cx_upgrade ctx0) (fi_data img) (fi_size img) (fi_crc32 img)
       (Some (cx_pending_upgrade_version ctx0)) DEVMGR_UPGRADE_DEFAULT_CHUNK = (DEVMGR_OK, u)" "image_valid img"
    "\<not> pe_active (se_pending (cx_session ctx0))"
    "link_step handle env_ok
       \<lparr>lk_upgrade = u, lk_session = (cx_session ctx0)\<lparr>se_state := DEVMGR_DEVICE_UPGRADING\<rparr>, lk_out = [], lk_device = s, lk_in = []\<rparr>
       (link_of (on_line ctx s))"
    unfolding img on_line_def by (rule upgrade_starts_link [OF inv st])
  have "implements (on_line ctx s) (link_of (on_line ctx s))"
    using st upgrade_starts_inv [OF inv st] by (simp add: implements_def upgrade_starts_def on_line_def)
  then obtain l where l: "reach (link_step handle env_ok) (link_of (on_line ctx s)) l" "implements y l"
    using system_refines_link [OF run] by blast
  have "\<not> upgrading (sy_daemon y)" using ended_states fin by (simp add: upgrading_def)
  then have "lk_upgrade l = cx_upgrade (sy_daemon y)" "lk_device l = sy_device y" using l(2) fin by (auto simp: implements_def)
  moreover have "reach (link_step handle env_ok)
       \<lparr>lk_upgrade = u, lk_session = (cx_session ctx0)\<lparr>se_state := DEVMGR_DEVICE_UPGRADING\<rparr>, lk_out = [], lk_device = s, lk_in = []\<rparr> l"
    by (rule reach_trans [OF l(1)]) (use u(4) in blast)
  ultimately show thesis using that u(1,2,3) fin by simp
qed

abbreviation upgrade_image :: "daemon_context \<Rightarrow> bytes" where
  "upgrade_image ctx0 \<equiv> take (fi_size (vr_image (wk_result (cx_worker ctx0)))) (the (fi_data (vr_image (wk_result (cx_worker ctx0)))))"

text \<open>What a completed upgrade has done to a device behind the interface.\<close>

context fw_device
begin

lemma system_installs:
  assumes inv0: "daemon_inv ctx0" and st: "upgrade_starts env ctx0 results ctx"
    and s: "inv s" "\<not> opened s" "\<not> sealed s"
    and run: "reach (system_step env handle env_ok) (on_line ctx s) y"
    and fin: "up_state (cx_upgrade (sy_daemon y)) = DEVMGR_UPGRADE_COMPLETE"
  shows "received (sy_device y) = upgrade_image ctx0 \<and> running (sy_device y) = cx_pending_upgrade_version ctx0"
proof -
  obtain u l where u: "devmgr_upgrade_start (cx_upgrade ctx0) (fi_data (vr_image (wk_result (cx_worker ctx0))))
      (fi_size (vr_image (wk_result (cx_worker ctx0)))) (fi_crc32 (vr_image (wk_result (cx_worker ctx0))))
      (Some (cx_pending_upgrade_version ctx0)) DEVMGR_UPGRADE_DEFAULT_CHUNK = (DEVMGR_OK, u)"
    and i: "image_valid (vr_image (wk_result (cx_worker ctx0)))" "\<not> pe_active (se_pending (cx_session ctx0))"
    and l: "reach (link_step handle env_ok)
       \<lparr>lk_upgrade = u, lk_session = (cx_session ctx0)\<lparr>se_state := DEVMGR_DEVICE_UPGRADING\<rparr>, lk_out = [], lk_device = s, lk_in = []\<rparr> l"
    "up_state (lk_upgrade l) = DEVMGR_UPGRADE_COMPLETE" "lk_device l = sy_device y"
    by (rule system_run_link [OF inv0 st run fin refl])
  let ?l = "\<lparr>lk_upgrade = u, lk_session = (cx_session ctx0)\<lparr>se_state := DEVMGR_DEVICE_UPGRADING\<rparr>, lk_out = [], lk_device = s, lk_in = []\<rparr>"
  have v: "0 \<notin> set (cx_pending_upgrade_version ctx0)" using daemon_invD(5) [OF inv0] by (simp add: io_ok_def)
  have "link_good ?l"
    by (rule link_start_good) (use u i s v in \<open>auto simp: image_valid_def\<close>)
  note c = completed_installs [OF this l(1,2)]
  show ?thesis
    using c link_reach_meta [OF l(1)] upgrade_start_fields [OF u] l(3) by (simp add: up_image_def)
qed

end

subsection \<open>Upgrades the daemon completes\<close>

text \<open>An operating system that registers every descriptor.\<close>

definition obliging :: "daemon_env \<Rightarrow> bool" where
  "obliging env \<longleftrightarrow> (\<forall>n. dv_epoll_ctl env n)"

definition drained :: "daemon_context \<Rightarrow> bool" where
  "drained ctx \<longleftrightarrow> \<not> cx_transport_output_offset ctx < length (cx_transport_output ctx)"

text \<open>The transport and the number of the operation, which no step of a running upgrade changes.\<close>

definition wiring :: "daemon_context \<Rightarrow> devmgr_transport \<times> u32" where
  "wiring ctx = (cx_transport ctx, cx_upgrade_operation_id ctx)"

lemma wiring_simps [simp]:
  "wiring (ctx\<lparr>cx_calls := n\<rparr>) = wiring ctx" "wiring (ctx\<lparr>cx_interest := m\<rparr>) = wiring ctx"
  "wiring (ctx\<lparr>cx_session := se\<rparr>) = wiring ctx" "wiring (ctx\<lparr>cx_upgrade := u\<rparr>) = wiring ctx"
  "wiring (ctx\<lparr>cx_transport_output := bs\<rparr>) = wiring ctx" "wiring (ctx\<lparr>cx_transport_output_offset := n\<rparr>) = wiring ctx"
  "wiring (ctx\<lparr>cx_worker := w\<rparr>) = wiring ctx" "wiring (ctx\<lparr>cx_firmware := img\<rparr>) = wiring ctx"
  by (simp_all add: wiring_def)

lemma wiring_aside:
  assumes "aside a = aside b"
  shows "wiring a = wiring b"
  using aside_fields(7,13) [OF assms] by (simp add: wiring_def)

lemma obliging_epoll:
  assumes "obliging env"
  shows "fst (epoll_update env ctx fd evs) = DEVMGR_OK" "wiring (snd (epoll_update env ctx fd evs)) = wiring ctx"
  using assms by (simp_all add: epoll_update_def obliging_def Let_def)

lemma obliging_update:
  assumes "obliging env"
  shows "fst (update_transport_events env ctx) = DEVMGR_OK" "wiring (snd (update_transport_events env ctx)) = wiring ctx"
    "line (snd (update_transport_events env ctx)) = line ctx"
  using obliging_epoll [OF assms] by (simp_all add: update_transport_events_def)

lemma obliging_queue_frame:
  assumes "obliging env" "drained ctx" "frame_wf f"
  shows "fst (queue_frame env ctx f) = DEVMGR_OK"
  using assms obliging_epoll(1)
  by (simp add: queue_frame_def drained_def frame_encode_max update_transport_events_def Let_def)

text \<open>A daemon that has put a request out and waits for the answer.\<close>

definition awaits :: "daemon_context \<Rightarrow> devmgr_frame \<Rightarrow> bool" where
  "awaits ctx q \<longleftrightarrow> daemon_inv ctx \<and> upgrading ctx \<and> unsent ctx = [q] \<and> pe_active (se_pending (cx_session ctx)) \<and>
     pe_frame (se_pending (cx_session ctx)) = q \<and> 0 \<le> tr_fd (cx_transport ctx)"

lemma queue_upgrade_request_succeeds:
  assumes b: "devmgr_upgrade_build_request (cx_upgrade ctx) = (Inr f, u)" and ui: "upgrade_inv (cx_upgrade ctx)"
    and idle: "\<not> pe_active (se_pending (cx_session ctx))" and dr: "drained ctx" and ob: "obliging env"
    and si: "session_inv (cx_session ctx)"
  shows "\<exists>ctx' n. queue_upgrade_request env ctx = (DEVMGR_OK, ctx') \<and> cx_upgrade ctx' = u \<and> unsent ctx' = [f\<lparr>fr_sequence := n\<rparr>] \<and>
    pe_active (se_pending (cx_session ctx')) \<and> pe_frame (se_pending (cx_session ctx')) = f\<lparr>fr_sequence := n\<rparr> \<and>
    wiring ctx' = wiring ctx"
proof -
  have wf: "frame_wf f" using build_request_wf [OF ui b] .
  obtain now ctx1 where m: "monotonic_ns env (ctx\<lparr>cx_upgrade := u\<rparr>) = (now, ctx1)" by (rule prod.exhaust)
  have c1: "cx_session ctx1 = cx_session ctx" "cx_upgrade ctx1 = u" "drained ctx1" "wiring ctx1 = wiring ctx"
    using m dr by (auto simp: monotonic_ns_def drained_def)
  let ?policy = "\<lparr>timeout_ms = 2000, retry_interval_ms = 750, max_retries = 4\<rparr>"
  let ?q = "f\<lparr>fr_sequence := se_next_sequence (cx_session ctx)\<rparr>"
  obtain se where se: "devmgr_session_begin_request (cx_session ctx) (fr_type f) (fr_flags f) (Some (fr_payload f))
      (fr_payload_length f) ?policy now = (Inr ?q, se)" "pe_frame (se_pending se) = ?q" "pe_active (se_pending se)"
    using begin_request_idle [OF idle wf, of ?policy now] by auto
  have wq: "frame_wf ?q" using wf by (simp add: frame_wf_def)
  obtain r ctx2 where q: "queue_frame env (ctx1\<lparr>cx_session := se\<rparr>) ?q = (r, ctx2)" by (rule prod.exhaust)
  have r: "r = DEVMGR_OK" using obliging_queue_frame [OF ob _ wq, of "ctx1\<lparr>cx_session := se\<rparr>"] c1(3) q by (simp add: drained_def)
  have e: "queue_upgrade_request env ctx = (DEVMGR_OK, ctx2)"
    using b m c1(1) se(1) q r by (simp add: queue_upgrade_request_def Let_def)
  have "unsent ctx2 = [?q]" using queue_frame_sends(2) [OF q wq r] by simp
  moreover have a: "aside ctx2 = aside ctx1" using queue_frame_session(3) [of env "ctx1\<lparr>cx_session := se\<rparr>" ?q] q by simp
  have "wiring ctx2 = wiring ctx" using wiring_aside [OF a] c1(4) by simp
  moreover have "cx_session ctx2 = se" "cx_upgrade ctx2 = u"
    using queue_frame_session(1,2) [of env "ctx1\<lparr>cx_session := se\<rparr>" ?q] q c1 by simp_all
  ultimately show ?thesis
    using e se(2,3) by (intro exI [of _ ctx2] exI [of _ "se_next_sequence (cx_session ctx)"] conjI) simp_all
qed

lemma flush_all:
  assumes aw: "awaits ctx q" and ob: "obliging env"
  obtains results ctx' where "flush_transport env ctx results = (DEVMGR_OK, ctx')" "unsent ctx' = []" "drained ctx'"
    "cx_session ctx' = cx_session ctx" "cx_upgrade ctx' = cx_upgrade ctx" "wiring ctx' = wiring ctx" "daemon_inv ctx'"
proof -
  let ?n = "length (cx_transport_output ctx) - cx_transport_output_offset ctx"
  have lt: "cx_transport_output_offset ctx < length (cx_transport_output ctx)"
    using aw by (auto simp: awaits_def unsent_def split: if_splits)
  have fd: "\<not> tr_fd (cx_transport ctx) < 0" using aw by (simp add: awaits_def)
  let ?c = "ctx\<lparr>cx_transport_output_offset := length (cx_transport_output ctx)\<rparr>"
  have "flush_loop ?c [] = (True, ?c)" by (simp add: flush_loop.simps)
  then have f: "flush_loop ctx [Inr ?n] = (True, ?c)"
    using lt fd by (simp add: flush_loop.simps [of ctx] devmgr_transport_write_def)
  let ?e = "ctx\<lparr>cx_transport_output_offset := 0, cx_transport_output := []\<rparr>"
  obtain r ctx' where u: "update_transport_events env ?e = (r, ctx')" by (rule prod.exhaust)
  have r: "r = DEVMGR_OK" "wiring ctx' = wiring ctx" "line ctx' = line ?e"
    using obliging_update [OF ob, of ?e] u by simp_all
  have fl: "flush_transport env ctx [Inr ?n] = (DEVMGR_OK, ctx')"
    using f u r(1) by (simp add: flush_transport_def)
  have "daemon_inv ctx'" using flush_transport_ok [of ctx env "[Inr ?n]"] fl aw by (simp add: awaits_def)
  moreover have "unsent ctx' = []" "drained ctx'" "cx_session ctx' = cx_session ctx" "cx_upgrade ctx' = cx_upgrade ctx"
    using unsent_line [OF r(3)] line_cong [OF r(3)] by (simp_all add: unsent_def drained_def)
  ultimately show thesis using that [OF fl] r(2) by simp
qed

lemma on_device_frame_upgrade:
  assumes "pe_active (se_pending (cx_session ctx))" "devmgr_upgrade_active (cx_upgrade ctx)"
    "se_state (cx_session ctx) = DEVMGR_DEVICE_UPGRADING" "fr_sequence (pe_frame (se_pending (cx_session ctx))) \<noteq> 0"
    "fr_type r = fr_type (pe_frame (se_pending (cx_session ctx)))"
    "fr_sequence r = fr_sequence (pe_frame (se_pending (cx_session ctx)))" "fr_flags r = DEVMGR_FRAME_RESPONSE"
  obtains se where "on_device_frame env r ctx = upgrade_response env (ctx\<lparr>cx_session := se\<rparr>) (fr_type r) r"
    "\<not> pe_active (se_pending se)" "se_state se = DEVMGR_DEVICE_UPGRADING"
    "devmgr_session_accept_response (cx_session ctx) r = (DEVMGR_OK, se)"
proof -
  obtain se where a: "devmgr_session_accept_response (cx_session ctx) r = (DEVMGR_OK, se)" "\<not> pe_active (se_pending se)"
    using accept_matching [of "cx_session ctx" r] assms by auto
  have s: "se_state se = DEVMGR_DEVICE_UPGRADING" using accept_response_state(1) [OF a(1)] assms(3) by simp
  have "on_device_frame env r ctx = upgrade_response env (ctx\<lparr>cx_session := se\<rparr>) (fr_type r) r"
    using assms a s by (simp add: on_device_frame_def)
  then show thesis using that a s by blast
qed

text \<open>One round: the request goes out, the device answers, the daemon takes the answer and sends the next request.\<close>

lemma system_round:
  assumes aw: "awaits ctx q" and ob: "obliging env" and e: "env_ok e"
    and h: "handle e s q = (Some r, s')" and rf: "frame_wf r" "fr_type r = fr_type q" "fr_sequence r = fr_sequence q"
      "fr_flags r = DEVMGR_FRAME_RESPONSE"
    and a: "devmgr_upgrade_accept_response (cx_upgrade ctx) (fr_type q) r = (DEVMGR_OK, u)"
    and next_request: "up_state u \<noteq> DEVMGR_UPGRADE_COMPLETE \<Longrightarrow> devmgr_upgrade_build_request u = (Inr f, u1)"
  shows "\<exists>ctx'. reach (system_step env handle env_ok) (on_line ctx s) (on_line ctx' s') \<and> daemon_inv ctx' \<and> wiring ctx' = wiring ctx \<and>
    (if up_state u = DEVMGR_UPGRADE_COMPLETE then cx_upgrade ctx' = u
     else cx_upgrade ctx' = u1 \<and> (\<exists>n. awaits ctx' (f\<lparr>fr_sequence := n\<rparr>)))"
proof -
  have inv: "daemon_inv ctx" and up: "upgrading ctx" and us: "unsent ctx = [q]"
    and pe: "pe_active (se_pending (cx_session ctx))" "pe_frame (se_pending (cx_session ctx)) = q"
    and fd: "0 \<le> tr_fd (cx_transport ctx)" using aw by (simp_all add: awaits_def)
  note J = upgrading_job [OF inv up]
  obtain results c1 where f1: "flush_transport env ctx results = (DEVMGR_OK, c1)" "unsent c1 = []" "drained c1"
    "cx_session c1 = cx_session ctx" "cx_upgrade c1 = cx_upgrade ctx" "wiring c1 = wiring ctx" "daemon_inv c1"
    by (rule flush_all [OF aw ob])
  have up1: "upgrading c1" using up f1(4,5) by (simp add: upgrading_def)
  let ?y1 = "\<lparr>sy_daemon = c1, sy_out = [q], sy_device = s, sy_in = []\<rparr>"
  have s1: "system_step env handle env_ok (on_line ctx s) ?y1"
    using sys_flush [of "on_line ctx s" env results c1 handle env_ok] up f1(1,2) us by (simp add: on_line_def)
  let ?y2 = "\<lparr>sy_daemon = c1, sy_out = [], sy_device = s', sy_in = [r]\<rparr>"
  have s2: "system_step env handle env_ok ?y1 ?y2"
    using sys_deliver [of ?y1 q "[]" env_ok e handle "Some r" s' env] up1 e h by simp
  have q0: "fr_sequence q \<noteq> 0" using J(4) pe by (simp add: session_inv_def)
  obtain se where o: "on_device_frame env r c1 = upgrade_response env (c1\<lparr>cx_session := se\<rparr>) (fr_type r) r"
    "\<not> pe_active (se_pending se)" "se_state se = DEVMGR_DEVICE_UPGRADING" "devmgr_session_accept_response (cx_session c1) r = (DEVMGR_OK, se)"
    by (rule on_device_frame_upgrade [of c1 r env]) (use pe f1(4,5) rf q0 J(2,5) in simp_all)
  show ?thesis
  proof (cases "up_state u = DEVMGR_UPGRADE_COMPLETE")
    case True
    obtain c2 where c2: "on_device_frame env r c1 = (DEVMGR_OK, c2)" "cx_upgrade c2 = u" "wiring c2 = wiring ctx"
      using o(1) a f1(5,6) rf(2) True
      by (simp add: upgrade_response_def Let_def wiring_def session_event_def close_firmware_def release_def split: prod.splits)
    have "system_step env handle env_ok ?y2 (on_line c2 s')"
      using sys_frame [of ?y2 r "[]" env c2 handle env_ok] up1 rf(1) c2(1) by (simp add: on_line_def)
    then have "reach (system_step env handle env_ok) (on_line ctx s) (on_line c2 s')" using s1 s2 by (meson reach_refl reach_step)
    moreover have "daemon_inv c2" using on_device_frame_ok [OF f1(7) rf(1), of env] c2(1) by simp
    ultimately show ?thesis using True c2(2,3) by auto
  next
    case False
    let ?c = "c1\<lparr>cx_session := se, cx_upgrade := u\<rparr>"
    have "job_held (cx_upgrade ctx) (cx_firmware ctx)" using daemon_invD(2) [OF inv] J(3) by (simp add: upgrade_ok_def)
    note w = accept_working [OF this J(3) a False]
    have ui: "upgrade_inv (cx_upgrade ?c)" using w(1) by (simp add: job_held_def)
    have si: "session_inv (cx_session ?c)" using accept_response_inv [OF _ o(4)] J(4) f1(4) by simp
    obtain c2 n where q2: "queue_upgrade_request env ?c = (DEVMGR_OK, c2)" "cx_upgrade c2 = u1"
      "unsent c2 = [f\<lparr>fr_sequence := n\<rparr>]" "pe_active (se_pending (cx_session c2))"
      "pe_frame (se_pending (cx_session c2)) = f\<lparr>fr_sequence := n\<rparr>" "wiring c2 = wiring ?c"
      using queue_upgrade_request_succeeds [of ?c f u1 env] next_request [OF False] ui si o(2) f1(3) ob
      by (auto simp: drained_def)
    have c2: "on_device_frame env r c1 = (DEVMGR_OK, c2)"
      using o(1) a f1(5) rf(2) False q2(1) by (simp add: upgrade_response_def Let_def)
    have "system_step env handle env_ok ?y2 (on_line c2 s')"
      using sys_frame [of ?y2 r "[]" env c2 handle env_ok] up1 rf(1) c2 by (simp add: on_line_def)
    then have "reach (system_step env handle env_ok) (on_line ctx s) (on_line c2 s')" using s1 s2 by (meson reach_refl reach_step)
    moreover have "daemon_inv c2" using on_device_frame_ok [OF f1(7) rf(1), of env] c2 by simp
    moreover have "upgrading c2" using queue_upgrade_request_state(1) [OF q2(1) ui si] w(2) o(3) by (simp add: upgrading_def)
    moreover have "wiring c2 = wiring ctx" using q2(6) f1(6) by simp
    ultimately have "reach (system_step env handle env_ok) (on_line ctx s) (on_line c2 s')" "awaits c2 (f\<lparr>fr_sequence := n\<rparr>)"
      "daemon_inv c2" "wiring c2 = wiring ctx"
      using q2 fd by (simp_all add: awaits_def wiring_def)
    then show ?thesis using False q2(2) by (intro exI [of _ c2]) auto
  qed
qed

lemma system_rounds_complete:
  assumes inv: "\<And>u s. P u s \<Longrightarrow> upgrade_inv u"
    and round: "\<And>u s. P u s \<Longrightarrow> up_state u \<noteq> DEVMGR_UPGRADE_COMPLETE \<Longrightarrow>
      \<exists>f u1. devmgr_upgrade_build_request u = (Inr f, u1) \<and> (\<forall>n. answers handle e P f u1 s n)"
    and wf: "\<And>s q r s'. frame_wf q \<Longrightarrow> handle e s q = (Some r, s') \<Longrightarrow> frame_wf r"
    and e: "env_ok e" and ob: "obliging env"
  shows "P u s \<Longrightarrow> devmgr_upgrade_build_request u = (Inr f, cx_upgrade ctx) \<Longrightarrow> (\<forall>n. answers handle e P f (cx_upgrade ctx) s n) \<Longrightarrow>
    awaits ctx (f\<lparr>fr_sequence := m\<rparr>) \<Longrightarrow>
    \<exists>y. reach (system_step env handle env_ok) (on_line ctx s) y \<and> up_state (cx_upgrade (sy_daemon y)) = DEVMGR_UPGRADE_COMPLETE \<and>
      daemon_inv (sy_daemon y) \<and> wiring (sy_daemon y) = wiring ctx"
proof (induction "phase_rank u" arbitrary: u s f ctx m rule: less_induct)
  case less
  let ?q = "f\<lparr>fr_sequence := m\<rparr>"
  note iv = inv [OF less.prems(1)]
  obtain r s2 u2 where r: "handle e s ?q = (Some r, s2)" "fr_type r = fr_type f" "fr_sequence r = m" "fr_flags r = DEVMGR_FRAME_RESPONSE"
    "devmgr_upgrade_accept_response (cx_upgrade ctx) (fr_type f) r = (DEVMGR_OK, u2)" "P u2 s2"
    using less.prems(3) unfolding answers_def by blast
  have q: "frame_wf ?q" using build_request_wf [OF iv less.prems(2)] by (simp add: frame_wf_def)
  have wr: "frame_wf r" using wf [OF q r(1)] .
  have rank: "phase_rank u2 < phase_rank u" by (rule answered_rank [OF iv less.prems(2) r(5)])
  show ?case
  proof (cases "up_state u2 = DEVMGR_UPGRADE_COMPLETE")
    case True
    then have "\<exists>ctx'. reach (system_step env handle env_ok) (on_line ctx s) (on_line ctx' s2) \<and> cx_upgrade ctx' = u2 \<and>
        daemon_inv ctx' \<and> wiring ctx' = wiring ctx"
      using system_round [where f = f and ?u1.0 = u2 and handle = handle and env_ok = env_ok and e = e, OF less.prems(4) ob e r(1) wr _ _ r(4), of u2] r by auto
    then show ?thesis using True by (auto simp: on_line_def)
  next
    case False
    obtain f3 u3 where b: "devmgr_upgrade_build_request u2 = (Inr f3, u3)" "\<forall>n. answers handle e P f3 u3 s2 n"
      using round [OF r(6) False] by blast
    have "\<exists>ctx'. reach (system_step env handle env_ok) (on_line ctx s) (on_line ctx' s2) \<and>
        cx_upgrade ctx' = u3 \<and> wiring ctx' = wiring ctx \<and> (\<exists>n. awaits ctx' (f3\<lparr>fr_sequence := n\<rparr>))"
      using system_round [where f = f3 and ?u1.0 = u3 and handle = handle and env_ok = env_ok and e = e, OF less.prems(4) ob e r(1) wr _ _ r(4), of u2] r b(1) False by auto
    then obtain ctx' n where c: "reach (system_step env handle env_ok) (on_line ctx s) (on_line ctx' s2)"
      "cx_upgrade ctx' = u3" "awaits ctx' (f3\<lparr>fr_sequence := n\<rparr>)" "wiring ctx' = wiring ctx" by blast
    obtain y where "reach (system_step env handle env_ok) (on_line ctx' s2) y" "up_state (cx_upgrade (sy_daemon y)) = DEVMGR_UPGRADE_COMPLETE"
      "daemon_inv (sy_daemon y)" "wiring (sy_daemon y) = wiring ctx'"
      using less.hyps [OF rank r(6), of f3 ctx' n] b c(2,3) by blast
    then show ?thesis using reach_trans [OF _ c(1)] c(4) by metis
  qed
qed

lemma upgrade_starts_awaits:
  assumes inv: "daemon_inv ctx0" and st: "upgrade_starts env ctx0 results ctx" and fd: "0 \<le> tr_fd (cx_transport ctx)"
  obtains u f n where "job_ok u" "up_state u = DEVMGR_UPGRADE_ENTER_BOOTLOADER"
    "devmgr_upgrade_build_request u = (Inr f, cx_upgrade ctx)" "awaits ctx (f\<lparr>fr_sequence := n\<rparr>)"
proof -
  obtain u f n where us: "devmgr_upgrade_start (cx_upgrade ctx0) (fi_data (vr_image (wk_result (cx_worker ctx0))))
       (fi_size (vr_image (wk_result (cx_worker ctx0)))) (fi_crc32 (vr_image (wk_result (cx_worker ctx0))))
       (Some (cx_pending_upgrade_version ctx0)) DEVMGR_UPGRADE_DEFAULT_CHUNK = (DEVMGR_OK, u)"
    and iv: "image_valid (vr_image (wk_result (cx_worker ctx0)))"
    and s: "devmgr_upgrade_build_request u = (Inr f, cx_upgrade ctx)" "unsent ctx = [f\<lparr>fr_sequence := n\<rparr>]"
    "pe_active (se_pending (cx_session ctx))" "pe_frame (se_pending (cx_session ctx)) = f\<lparr>fr_sequence := n\<rparr>"
    by (rule upgrade_starts_link [OF inv st, where handle = sim_answer and env_ok = malloc_law and s = zero_simulator])
  have v: "0 \<notin> set (cx_pending_upgrade_version ctx0)" using daemon_invD(5) [OF inv] by (simp add: io_ok_def)
  have "upgrade_inv u" using upgrade_start_inv [OF us] iv by (auto simp: image_valid_def)
  then have "job_ok u" using upgrade_start_fields [OF us] iv v by (auto simp: job_ok_def image_valid_def up_image_def)
  moreover have "awaits ctx (f\<lparr>fr_sequence := n\<rparr>)"
    using s upgrade_starts_inv [OF inv st] st fd by (simp add: awaits_def upgrade_starts_def)
  ultimately show thesis using that upgrade_start_fields [OF us] s(1) by blast
qed

lemma sim_system_completes:
  assumes inv: "daemon_inv ctx0" and st: "upgrade_starts env ctx0 results ctx" and fd: "0 \<le> tr_fd (cx_transport ctx)"
    and ob: "obliging env" and s: "sim_inv s" "\<not> sm_firmware_upgrading s" "\<not> sm_fail_verify s" and e: "steady_env e"
  shows "\<exists>y. reach (system_step env sim_answer malloc_law) (on_line ctx s) y \<and>
    up_state (cx_upgrade (sy_daemon y)) = DEVMGR_UPGRADE_COMPLETE \<and> daemon_inv (sy_daemon y) \<and> wiring (sy_daemon y) = wiring ctx"
proof -
  obtain u f n where u: "job_ok u" "up_state u = DEVMGR_UPGRADE_ENTER_BOOTLOADER"
    "devmgr_upgrade_build_request u = (Inr f, cx_upgrade ctx)" "awaits ctx (f\<lparr>fr_sequence := n\<rparr>)"
    by (rule upgrade_starts_awaits [OF inv st fd])
  have i: "in_step u s" using u(1,2) s by (simp add: in_step_def)
  obtain f1 u1 where a: "devmgr_upgrade_build_request u = (Inr f1, u1)" "\<forall>n. answers sim_answer e in_step f1 u1 s n"
    using in_step_answers [OF i e] u(2) by auto
  have wf: "frame_wf r" if "frame_wf q" "sim_answer e s q = (Some r, s')" for s q r s'
    using sim_handle_reply [OF that(1), of e s] that(2) by (auto simp: sim_answer_def proper_reply_def split: prod.splits)
  show ?thesis
    by (rule system_rounds_complete [of in_step sim_answer e malloc_law env u s f ctx n,
          OF in_step_inv in_step_answers [OF _ e] wf steady_malloc [OF e] ob i u(3)])
       (use a u(3,4) in simp_all)
qed

text \<open>
  C2. Upgrades driven by the daemon are correct end to end. From the moment the daemon takes the
  worker's valid result, with the simulated device on the line, lines that may lose frames, memory
  that may be short, clients, timers and the worker thread acting in any order: if the daemon's
  upgrade reaches \<open>COMPLETE\<close>, the flash of the device holds exactly the bytes of the mapped file and
  the device will run the version the client asked for, provided the device had no upgrade session
  left over.
\<close>

theorem daemon_upgrade_installs:
  assumes "daemon_inv ctx0" and "upgrade_starts env ctx0 results ctx"
    and "sim_inv s" and "\<not> sm_firmware_upgrading s"
    and "reach (system_step env sim_answer malloc_law) (on_line ctx s) y"
    and "up_state (cx_upgrade (sy_daemon y)) = DEVMGR_UPGRADE_COMPLETE"
  shows "committed (sy_device y) = upgrade_image ctx0 \<and> sm_firmware_version (sy_device y) = cx_pending_upgrade_version ctx0"
  using simdev.system_installs [OF assms(1-4) _ assms(5,6)] by simp

text \<open>
  C6. The daemon completes upgrades. With a device that has memory for the image and no injected
  failure, a line that loses nothing and an operating system that registers descriptors, every
  upgrade the daemon starts can run to \<open>COMPLETE\<close>, with the image in the device's flash.
\<close>

theorem daemon_upgrade_completes:
  assumes "daemon_inv ctx0" and "upgrade_starts env ctx0 results ctx" and "0 \<le> tr_fd (cx_transport ctx)"
    and "obliging env" and "sim_inv s" and "\<not> sm_firmware_upgrading s" and "\<not> sm_fail_verify s" and "steady_env e"
  shows "\<exists>y. reach (system_step env sim_answer malloc_law) (on_line ctx s) y \<and>
    up_state (cx_upgrade (sy_daemon y)) = DEVMGR_UPGRADE_COMPLETE \<and> committed (sy_device y) = upgrade_image ctx0"
  using sim_system_completes [OF assms] simdev.system_installs [OF assms(1,2,5,6)] assms(6) by fastforce

text \<open>
  C3. The daemon refines the link. Every run of daemon, line and device in which the upgrade has not
  failed is a run of the abstract link between upgrade machine, session and device: the same
  upgrade, the same device, and while the upgrade works the same session and the same frames
  under way, the one in the daemon's output buffer included.
\<close>

theorem daemon_refines_link:
  assumes "daemon_inv ctx" and "upgrading ctx" and "reach (system_step env handle env_ok) (on_line ctx s) y"
    and "up_state (cx_upgrade (sy_daemon y)) \<noteq> DEVMGR_UPGRADE_ERROR"
  shows "\<exists>l. reach (link_step handle env_ok) (link_of (on_line ctx s)) l \<and>
    lk_upgrade l = cx_upgrade (sy_daemon y) \<and> lk_device l = sy_device y \<and> (upgrading (sy_daemon y) \<longrightarrow> l = link_of y)"
proof -
  have "implements (on_line ctx s) (link_of (on_line ctx s))" using assms(1,2) by (simp add: implements_def on_line_def)
  then obtain l where l: "reach (link_step handle env_ok) (link_of (on_line ctx s)) l" "implements y l"
    using system_refines_link [OF assms(3)] by blast
  then show ?thesis
    using assms(4) by (intro exI [of _ l]) (auto simp: implements_def link_of_def split: if_splits)
qed

lemma stm32_system_completes:
  assumes inv: "daemon_inv ctx0" and st: "upgrade_starts env ctx0 results ctx" and fd: "0 \<le> tr_fd (cx_transport ctx)"
    and ob: "obliging env" and s: "stm32_update_init ops c = Some s" "flash_law ops fl inst" "steady_driver ops"
  shows "\<exists>y. reach (system_step env stm32_handler (\<lambda>_. True)) (on_line ctx s) y \<and>
    up_state (cx_upgrade (sy_daemon y)) = DEVMGR_UPGRADE_COMPLETE \<and> daemon_inv (sy_daemon y) \<and> wiring (sy_daemon y) = wiring ctx"
proof -
  obtain u f n where u: "job_ok u" "up_state u = DEVMGR_UPGRADE_ENTER_BOOTLOADER"
    "devmgr_upgrade_build_request u = (Inr f, cx_upgrade ctx)" "awaits ctx (f\<lparr>fr_sequence := n\<rparr>)"
    by (rule upgrade_starts_awaits [OF inv st fd])
  have i: "stm32_in_step fl inst u s"
    using u(1,2) s by (auto simp: stm32_in_step_def stm32_update_init_def stm32_device_def stm32_inv_def split: if_splits)
  have iv: "upgrade_inv u" if "stm32_in_step fl inst u s" for u s using that by (simp add: stm32_in_step_def job_ok_def)
  have ans: "\<exists>f u1. devmgr_upgrade_build_request u = (Inr f, u1) \<and> (\<forall>n. answers stm32_handler () (stm32_in_step fl inst) f u1 s n)"
    if "stm32_in_step fl inst u s" "up_state u \<noteq> DEVMGR_UPGRADE_COMPLETE" for u s
    using stm32_in_step_round [OF that] unfolding stm32_round_def by blast
  obtain f1 u1 where a: "devmgr_upgrade_build_request u = (Inr f1, u1)"
    "\<forall>n. answers stm32_handler () (stm32_in_step fl inst) f1 u1 s n"
    using ans [OF i] u(2) by auto
  have wf: "frame_wf r" if "stm32_handler () s q = (Some r, s')" for s s' :: "'a stm32_update_context" and q r
    using that by (auto simp: stm32_answer_def split: prod.splits sum.splits dest: frame_wire_decode(1))
  show ?thesis
    by (rule system_rounds_complete [of "stm32_in_step fl inst" stm32_handler "()" "\<lambda>_. True" env u s f ctx n,
          OF iv ans wf _ ob i u(3)])
       (use a u(3,4) in simp_all)
qed

text \<open>
  C7. The same for the STM32 bootloader: an upgrade the daemon completes has written exactly the
  bytes of the mapped file into the image area of the device's flash and has set the requested
  version to boot, for every flash driver that keeps its contract.
\<close>

theorem daemon_stm32_upgrade_installs:
  assumes "daemon_inv ctx0" and "upgrade_starts env ctx0 results ctx"
    and "stm32_update_init ops c = Some s" and "flash_law ops fl inst"
    and "reach (system_step env stm32_handler (\<lambda>_. True)) (on_line ctx s) y"
    and "up_state (cx_upgrade (sy_daemon y)) = DEVMGR_UPGRADE_COMPLETE"
  shows "stored fl (sy_device y) = upgrade_image ctx0 \<and> boots inst (sy_device y) = cx_pending_upgrade_version ctx0"
proof -
  have "stm32_device fl inst s" "\<not> update_open s" "\<not> update_sealed s"
    using assms(3,4) by (auto simp: stm32_update_init_def stm32_device_def stm32_inv_def update_open_def update_sealed_def
        split: if_splits)
  then show ?thesis using stm32dev.system_installs [OF assms(1,2) _ _ _ assms(5,6)] by blast
qed

text \<open>A daemon that is about to take the worker's result: the image is the file \<open>1 2 3\<close>, the version \<open>2\<close>.\<close>

definition sample_image :: devmgr_firmware_image where
  "sample_image = \<lparr>fi_fd = 4, fi_data = Some [1, 2, 3], fi_size = 3, fi_crc32 = devmgr_crc32 (Some [1, 2, 3])\<rparr>"

definition sample_context :: daemon_context where
  "sample_context = (fresh_context sample_config)\<lparr>cx_parser := snd (devmgr_parser_init zero_parser),
     cx_session := devmgr_session_init\<lparr>se_state := DEVMGR_DEVICE_READY\<rparr>,
     cx_upgrade := devmgr_upgrade_init\<lparr>up_state := DEVMGR_UPGRADE_VALIDATING\<rparr>, cx_upgrade_operation_id := 1,
     cx_pending_upgrade_version := [0x32], cx_transport := \<lparr>tr_fd = 5, tr_kind = 0\<rparr>,
     cx_worker := zero_worker\<lparr>wk_event_fd := 3, wk_initialized := True, wk_result_pending := True,
       wk_result := \<lparr>vr_job_id = 1, vr_status = DEVMGR_OK, vr_image = sample_image\<rparr>\<rparr>\<rparr>"

lemma sample_image_valid: "image_valid sample_image"
  by (simp add: image_valid_def sample_image_def)

lemma sample_context_inv: "daemon_inv sample_context"
proof (rule no_upgrade_ok)
  show "session_inv (cx_session sample_context)" using init_session_inv by (simp add: sample_context_def session_inv_def)
  show "parser_inv (cx_parser sample_context)"
    using parser_init_ready [of zero_parser] by (simp add: sample_context_def parser_ready_def)
  show "mailbox_ok (cx_worker sample_context) (cx_thread sample_context)"
    using sample_image_valid by (simp add: sample_context_def mailbox_ok_def result_ok_def fresh_context_def)
qed (simp_all add: sample_context_def fresh_context_def io_ok_def client_ok_def zero_client_def zero_image_def)

text \<open>When the daemon starts an upgrade: the worker reports success, the machine accepts, the session is idle.\<close>

lemma upgrade_can_start:
  assumes inv: "daemon_inv ctx0" and val: "up_state (cx_upgrade ctx0) = DEVMGR_UPGRADE_VALIDATING"
    and take: "devmgr_worker_take_result (cx_worker ctx0) = (Inr v, w)" "vr_job_id v = cx_upgrade_operation_id ctx0"
      "vr_status v = DEVMGR_OK" "image_valid (vr_image v)"
    and us: "devmgr_upgrade_start (cx_upgrade ctx0) (fi_data (vr_image v)) (fi_size (vr_image v)) (fi_crc32 (vr_image v))
      (Some (cx_pending_upgrade_version ctx0)) DEVMGR_UPGRADE_DEFAULT_CHUNK = (DEVMGR_OK, u)"
    and se: "se_state (cx_session ctx0) = DEVMGR_DEVICE_READY" "\<not> pe_active (se_pending (cx_session ctx0))"
    and dr: "drained ctx0" and ob: "obliging env"
  obtains ctx where "upgrade_starts env ctx0 [Inr 8] ctx" "wiring ctx = wiring ctx0"
proof -
  let ?s = "(cx_session ctx0)\<lparr>se_state := DEVMGR_DEVICE_UPGRADING\<rparr>"
  let ?c = "ctx0\<lparr>cx_worker := w, cx_firmware := vr_image v, cx_upgrade := u, cx_session := ?s\<rparr>"
  have t: "devmgr_session_transition (cx_session ctx0) DEVMGR_SESSION_START_UPGRADE = (DEVMGR_OK, ?s)"
    using se by (simp add: devmgr_session_transition_def Let_def)
  have ui: "upgrade_inv u" using upgrade_start_inv [OF us] take(4) by (auto simp: image_valid_def)
  have st: "up_state u = DEVMGR_UPGRADE_ENTER_BOOTLOADER" using upgrade_start_fields [OF us] by simp
  then have b: "devmgr_upgrade_build_request u = (Inr (request_frame DEVMGR_MSG_ENTER_BOOTLOADER 0 []), u)"
    by (simp add: devmgr_upgrade_build_request_def)
  have c: "upgrade_inv (cx_upgrade ?c)" "session_inv (cx_session ?c)" "upgrading ?c"
    using ui daemon_invD(1) [OF inv] st by (simp_all add: session_inv_def upgrading_def working_def devmgr_upgrade_active_def)
  obtain ctx where q: "queue_upgrade_request env ?c = (DEVMGR_OK, ctx)" "wiring ctx = wiring ctx0"
    using queue_upgrade_request_succeeds [of ?c _ u env, OF _ c(1) _ _ ob c(2)] b se dr by (auto simp: drained_def)
  have up: "upgrading ctx" using queue_upgrade_request_state(1) [OF q(1) c(1,2)] c(3) by simp
  have h: "handle_worker_completion env ctx0 [Inr 8] = (DEVMGR_OK, ctx)"
    using take val us t q(1) by (subst handle_worker_completion_alt [of _ _ v w]) simp_all
  show thesis
    by (rule that [of ctx]) (use h val q(2) up in \<open>simp_all add: upgrade_starts_def\<close>)
qed

lemma sample_starts:
  obtains ctx where "upgrade_starts sample_env sample_context [Inr 8] ctx" "tr_fd (cx_transport ctx) = 5" "cx_upgrade_operation_id ctx = 1"
proof -
  have "\<exists>u. devmgr_upgrade_start (cx_upgrade sample_context) (fi_data sample_image) (fi_size sample_image) (fi_crc32 sample_image)
      (Some (cx_pending_upgrade_version sample_context)) DEVMGR_UPGRADE_DEFAULT_CHUNK = (DEVMGR_OK, u)"
    by (simp add: sample_context_def sample_image_def devmgr_upgrade_start_def Let_def)
  then obtain u where us: "devmgr_upgrade_start (cx_upgrade sample_context) (fi_data sample_image) (fi_size sample_image)
      (fi_crc32 sample_image) (Some (cx_pending_upgrade_version sample_context)) DEVMGR_UPGRADE_DEFAULT_CHUNK = (DEVMGR_OK, u)" ..
  let ?v = "\<lparr>vr_job_id = 1, vr_status = DEVMGR_OK, vr_image = sample_image\<rparr>"
  obtain w where w: "devmgr_worker_take_result (cx_worker sample_context) = (Inr ?v, w)"
    by (simp add: sample_context_def devmgr_worker_take_result_def Let_def)
  obtain ctx where "upgrade_starts sample_env sample_context [Inr 8] ctx" "wiring ctx = wiring sample_context"
    by (rule upgrade_can_start [OF sample_context_inv _ w, of u sample_env])
       (use us sample_image_valid in \<open>simp_all add: sample_context_def drained_def obliging_def sample_env_def fresh_context_def
         devmgr_session_init_def zero_pending_def\<close>)
  then show thesis using that by (simp add: sample_context_def wiring_def)
qed

lemma sample_run:
  obtains ctx y where "upgrade_starts sample_env sample_context [Inr 8] ctx" "0 \<le> tr_fd (cx_transport ctx)" "obliging sample_env"
    "reach (system_step sample_env sim_answer malloc_law) (on_line ctx zero_simulator) y"
    "up_state (cx_upgrade (sy_daemon y)) = DEVMGR_UPGRADE_COMPLETE" "daemon_inv (sy_daemon y)"
    "cx_upgrade_operation_id (sy_daemon y) = 1"
proof -
  obtain ctx where c: "upgrade_starts sample_env sample_context [Inr 8] ctx" "tr_fd (cx_transport ctx) = 5" "cx_upgrade_operation_id ctx = 1"
    by (rule sample_starts)
  have o: "obliging sample_env" by (simp add: obliging_def sample_env_def)
  have fd: "0 \<le> tr_fd (cx_transport ctx)" using c(2) by simp
  obtain y where y: "reach (system_step sample_env sim_answer malloc_law) (on_line ctx zero_simulator) y"
    "up_state (cx_upgrade (sy_daemon y)) = DEVMGR_UPGRADE_COMPLETE" "daemon_inv (sy_daemon y)" "wiring (sy_daemon y) = wiring ctx"
    using sim_system_completes [OF sample_context_inv c(1) fd o witness_sim_facts] by blast
  show thesis by (rule that [OF c(1) fd o y(1-3)]) (use y(4) c(3) in \<open>simp add: wiring_def\<close>)
qed

lemma sample_wanted: "upgrade_image sample_context = [1, 2, 3]" "cx_pending_upgrade_version sample_context = [0x32]"
  by (simp_all add: sample_context_def sample_image_def)

theorem daemon_upgrade_installs_witness:
  "\<exists>ctx y. reach (system_step sample_env sim_answer malloc_law) (on_line ctx zero_simulator) y \<and>
     committed (sy_device y) = [1, 2, 3] \<and> sm_firmware_version (sy_device y) = [0x32]"
proof -
  obtain ctx y where c: "upgrade_starts sample_env sample_context [Inr 8] ctx"
    "reach (system_step sample_env sim_answer malloc_law) (on_line ctx zero_simulator) y"
    "up_state (cx_upgrade (sy_daemon y)) = DEVMGR_UPGRADE_COMPLETE" by (rule sample_run)
  from daemon_upgrade_installs [OF sample_context_inv c(1) witness_sim_facts(1,2) c(2,3)] c(2) show ?thesis
    unfolding sample_wanted by blast
qed

theorem daemon_upgrade_completes_witness:
  "\<exists>ctx y. reach (system_step sample_env sim_answer malloc_law) (on_line ctx zero_simulator) y \<and>
     up_state (cx_upgrade (sy_daemon y)) = DEVMGR_UPGRADE_COMPLETE \<and> committed (sy_device y) = [1, 2, 3]"
proof -
  obtain ctx y where c: "upgrade_starts sample_env sample_context [Inr 8] ctx" "0 \<le> tr_fd (cx_transport ctx)" "obliging sample_env"
    by (rule sample_run)
  from daemon_upgrade_completes [OF sample_context_inv c witness_sim_facts] show ?thesis unfolding sample_wanted by blast
qed

theorem daemon_refines_link_witness:
  "\<exists>ctx y l. reach (system_step sample_env sim_answer malloc_law) (on_line ctx zero_simulator) y \<and>
     reach (link_step sim_answer malloc_law) (link_of (on_line ctx zero_simulator)) l \<and>
     lk_upgrade l = cx_upgrade (sy_daemon y) \<and> up_state (lk_upgrade l) = DEVMGR_UPGRADE_COMPLETE"
proof -
  obtain ctx y where c: "upgrade_starts sample_env sample_context [Inr 8] ctx"
    "reach (system_step sample_env sim_answer malloc_law) (on_line ctx zero_simulator) y"
    "up_state (cx_upgrade (sy_daemon y)) = DEVMGR_UPGRADE_COMPLETE" by (rule sample_run)
  have i: "daemon_inv ctx" "upgrading ctx"
    using upgrade_starts_inv [OF sample_context_inv c(1)] c(1) by (simp_all add: upgrade_starts_def)
  from daemon_refines_link [OF i c(2)] c(2,3) show ?thesis by fastforce
qed

theorem daemon_stm32_upgrade_installs_witness:
  "\<exists>ctx y. reach (system_step sample_env stm32_handler (\<lambda>_. True)) (on_line ctx blank_bootloader) y \<and>
     stored fst (sy_device y) = [1, 2, 3] \<and> boots snd (sy_device y) = [0x32]"
proof -
  obtain ctx where c: "upgrade_starts sample_env sample_context [Inr 8] ctx" "0 \<le> tr_fd (cx_transport ctx)" "obliging sample_env"
    by (rule sample_run)
  obtain y where y: "reach (system_step sample_env stm32_handler (\<lambda>_. True)) (on_line ctx blank_bootloader) y"
    "up_state (cx_upgrade (sy_daemon y)) = DEVMGR_UPGRADE_COMPLETE"
    using stm32_system_completes [OF sample_context_inv c array_flash_laws(4,1,2)] by blast
  from daemon_stm32_upgrade_installs [OF sample_context_inv c(1) array_flash_laws(4,1) y] y(1) show ?thesis
    unfolding sample_wanted by blast
qed

end
