(* ===== verification/Devctl.thy ===== *)
theory Devctl
  imports Args Daemon_Upgrade
begin

section \<open>The command line client (src/apps/devctl/main.c)\<close>

text \<open>
  \<open>devctl\<close> sends one request over the stream socket and prints the response; for \<open>upgrade\<close> it then
  polls the state of the operation until it is decided. The kernel is a record per connection: the
  results of \<open>socket\<close>, \<open>setsockopt\<close> and \<open>connect\<close>, for every \<open>write\<close> and \<open>read\<close> the number of
  bytes it may move or its error, and all bytes the peer sends. \<open>None\<close> is a call that has not
  returned yet. What \<open>devctl\<close> prints is the list of its \<open>printf\<close> calls with their arguments.
\<close>

subsection \<open>Reading and writing everything\<close>

text \<open>Status and the number of bytes written.\<close>

fun write_all :: "bytes \<Rightarrow> nat \<Rightarrow> nat sysret list \<Rightarrow> (devmgr_status \<times> nat) option" where
  "write_all data offset results =
    (if offset < length data then
       (case results of
          [] \<Rightarrow> None
        | Inr n # rest \<Rightarrow>
            let moved = min n (length data - offset) in
            if moved > 0 then write_all data (offset + moved) rest else Some (DEVMGR_ERROR_IO, offset)
        | Inl e # rest \<Rightarrow> if e = EINTR then write_all data offset rest else Some (DEVMGR_ERROR_IO, offset))
     else Some (DEVMGR_OK, offset))"

declare write_all.simps [simp del]

text \<open>Status, the bytes read so far, and what is left of the calls and of the stream.\<close>

fun read_all :: "nat \<Rightarrow> bytes \<Rightarrow> nat sysret list \<Rightarrow> bytes \<Rightarrow> (devmgr_status \<times> bytes \<times> nat sysret list \<times> bytes) option" where
  "read_all need data results incoming =
    (if length data < need then
       (case results of
          [] \<Rightarrow> None
        | Inr n # rest \<Rightarrow>
            let got = take (min n (need - length data)) incoming in
            if got \<noteq> [] then read_all need (data @ got) rest (drop (length got) incoming)
            else Some (DEVMGR_ERROR_DISCONNECTED, data, rest, incoming)
        | Inl e # rest \<Rightarrow>
            if e = EINTR then read_all need data rest incoming else Some (DEVMGR_ERROR_IO, data, rest, incoming))
     else Some (DEVMGR_OK, data, results, incoming))"

declare read_all.simps [simp del]

subsection \<open>One request and its response\<close>

record connection =
  cn_socket :: "nat option"
  cn_rcvtimeo_ok :: bool
  cn_sndtimeo_ok :: bool
  cn_connect_ok :: bool
  cn_writes :: "nat sysret list"
  cn_reads :: "nat sysret list"
  cn_incoming :: bytes

definition connect_socket :: "connection \<Rightarrow> bytes \<Rightarrow> int \<times> file_effect list" where
  "connect_socket cn path =
    (if length path = 0 \<or> length path \<ge> 108 then (-1, [])
     else
       case cn_socket cn of
         None \<Rightarrow> (-1, [])
       | Some fd \<Rightarrow>
           if \<not> cn_rcvtimeo_ok cn \<or> \<not> cn_sndtimeo_ok cn then (-1, [Closed fd])
           else if \<not> cn_connect_ok cn then (-1, [Closed fd])
           else (int fd, []))"

text \<open>The two reads of a response: the header, then as many bytes as it announces.\<close>

definition read_response :: "connection \<Rightarrow> (devmgr_status + devmgr_ipc_response) option" where
  "read_response cn =
    (case read_all DEVMGR_IPC_RESPONSE_HEADER_SIZE [] (cn_reads cn) (cn_incoming cn) of
       None \<Rightarrow> None
     | Some (result, header, reads, incoming) \<Rightarrow>
         if result \<noteq> DEVMGR_OK then Some (Inl result)
         else
           let payload_length = devmgr_get_le32 (drop 8 header) in
           if unat payload_length > DEVMGR_IPC_MAX_PAYLOAD then Some (Inl DEVMGR_ERROR_LIMIT)
           else
             (case read_all (unat payload_length) [] reads incoming of
                None \<Rightarrow> None
              | Some (result, payload, _, _) \<Rightarrow>
                  Some (if result \<noteq> DEVMGR_OK then Inl result
                        else devmgr_ipc_decode_response (Some (header @ payload)) False)))"

text \<open>The result, the bytes written to the socket and the descriptors closed.\<close>

definition exchange ::
  "connection \<Rightarrow> bytes \<Rightarrow> u8 \<Rightarrow> bytes ptr \<Rightarrow> u32 \<Rightarrow>
   ((devmgr_status + devmgr_ipc_response) \<times> bytes \<times> file_effect list) option" where
  "exchange cn path command payload payload_length =
    (if unat payload_length > DEVMGR_IPC_MAX_PAYLOAD \<or> payload = None \<and> payload_length \<noteq> 0
     then Some (Inl DEVMGR_ERROR_INVALID, [], [])
     else
       let request = \<lparr>rq_command = command, rq_payload_length = payload_length,
             rq_payload = (if payload_length \<noteq> 0 then take (unat payload_length) (the payload) else [])\<rparr> in
       case connect_socket cn path of
         (fd, es) \<Rightarrow>
           if fd < 0 then Some (Inl DEVMGR_ERROR_IO, [], es)
           else
             (case devmgr_ipc_encode_request (Some request) False
                     (DEVMGR_IPC_RESPONSE_HEADER_SIZE + DEVMGR_IPC_MAX_PAYLOAD) False of
                Inl result \<Rightarrow> Some (Inl result, [], es @ [Closed (nat fd)])
              | Inr buffer \<Rightarrow>
                  (case write_all buffer 0 (cn_writes cn) of
                     None \<Rightarrow> None
                   | Some (result, n) \<Rightarrow>
                       if result \<noteq> DEVMGR_OK then Some (Inl result, take n buffer, es @ [Closed (nat fd)])
                       else map_option (\<lambda>r. (r, take n buffer, es @ [Closed (nat fd)])) (read_response cn))))"

subsection \<open>Printing\<close>

definition next_string :: "bytes \<Rightarrow> nat \<Rightarrow> bytes ptr \<times> nat" where
  "next_string payload offset =
    (if offset \<ge> length payload then (None, offset)
     else
       case memchr0 (drop offset payload) of
         None \<Rightarrow> (None, offset)
       | Some n \<Rightarrow> (Some (take n (drop offset payload)), offset + n + 1))"

datatype devctl_line =
    Usage
  | Bad_interval
  | Unresolved_file
  | Arguments_too_long
  | Bad_operation
  | Ipc_failed string
  | Command_failed string
  | Rtt u64
  | Device_info u32 bytes bytes bytes bytes bytes
  | Malformed_info
  | Health int u32 u32
  | Device_stats u32 u32 u32
  | Telemetry_started u32
  | Telemetry_stopped
  | Telemetry_sample int u32 u32 u32
  | Upgrade_operation u32
  | Upgrade_state u32 string string u32 u32
  | Status_failed string
  | Progress string u32 u32 u32
  | Upgrade_verified
  | Upgrade_failed string

text \<open>The enumerator of a state byte, and the name \<open>devmgr_upgrade_state_string\<close> prints for it.\<close>

definition state_of_code :: "u8 \<Rightarrow> devmgr_upgrade_state option" where
  "state_of_code code = List.find (\<lambda>st. upgrade_state_code st = code)
    [DEVMGR_UPGRADE_IDLE, DEVMGR_UPGRADE_VALIDATING, DEVMGR_UPGRADE_ENTER_BOOTLOADER, DEVMGR_UPGRADE_BEGIN,
     DEVMGR_UPGRADE_TRANSFER, DEVMGR_UPGRADE_RECOVER, DEVMGR_UPGRADE_END, DEVMGR_UPGRADE_VERIFY,
     DEVMGR_UPGRADE_ACTIVATE, DEVMGR_UPGRADE_REBOOT, DEVMGR_UPGRADE_COMPLETE, DEVMGR_UPGRADE_ERROR]"

definition state_name :: "u8 \<Rightarrow> string" where
  "state_name code = (case state_of_code code of None \<Rightarrow> ''UNKNOWN'' | Some st \<Rightarrow> devmgr_upgrade_state_string st)"

text \<open>The five strings behind the device id, each call going on where the last one stopped.\<close>

definition info_line :: "bytes \<Rightarrow> devctl_line" where
  "info_line payload =
    (case next_string payload 4 of (model, o1) \<Rightarrow>
     case next_string payload o1 of (hardware, o2) \<Rightarrow>
     case next_string payload o2 of (firmware, o3) \<Rightarrow>
     case next_string payload o3 of (bootloader, o4) \<Rightarrow>
     case next_string payload o4 of (serial, _) \<Rightarrow>
       if model = None \<or> hardware = None \<or> firmware = None \<or> bootloader = None \<or> serial = None
       then Malformed_info
       else Device_info (devmgr_get_le32 payload) (the model) (the hardware) (the firmware) (the bootloader) (the serial))"

definition print_response :: "u8 \<Rightarrow> devmgr_ipc_response \<Rightarrow> u64 \<Rightarrow> devctl_line list" where
  "print_response command response elapsed_ns =
    (let payload = rs_payload response; n = rs_payload_length response;
         word = (\<lambda>k. devmgr_get_le32 (drop k payload))
     in if rs_status response \<noteq> status_word DEVMGR_OK
        then [Command_failed (devmgr_status_string (sint (rs_status response)))]
        else if command = DEVMGR_MSG_PING then [Rtt elapsed_ns]
        else if command = DEVMGR_MSG_GET_INFO \<and> n \<ge> 4 then [info_line payload]
        else if command = DEVMGR_MSG_GET_HEALTH \<and> n = 12 then [Health (sint (word 0)) (word 4) (word 8)]
        else if command = DEVMGR_MSG_GET_STATS \<and> n = 12 then [Device_stats (word 0) (word 4) (word 8)]
        else if command = DEVMGR_MSG_START_TELEMETRY \<and> n = 4 then [Telemetry_started (word 0)]
        else if command = DEVMGR_MSG_STOP_TELEMETRY then [Telemetry_stopped]
        else if command = DEVMGR_IPC_GET_TELEMETRY \<and> n = 16
        then [Telemetry_sample (sint (word 0)) (word 4) (word 8) (word 12)]
        else if command = DEVMGR_IPC_UPGRADE \<and> n = 4 then [Upgrade_operation (word 0)]
        else if command = DEVMGR_IPC_UPGRADE_STATUS \<and> n = 20
        then [Upgrade_state (word 0) (state_name (payload ! 4)) (devmgr_status_string (sint (word 8))) (word 12) (word 16)]
        else [])"

subsection \<open>Waiting for an upgrade\<close>

definition percent :: "u32 \<Rightarrow> u32 \<Rightarrow> u32" where
  "percent offset total_size = (if total_size = 0 then 0 else ucast ((ucast offset * 100 :: u64) div ucast total_size))"

text \<open>
  The loop of \<open>wait_for_upgrade\<close>, a connection per round: the exit code and what was printed, or
  \<open>None\<close> while the upgrade is undecided.
\<close>

fun poll_upgrade :: "bytes \<Rightarrow> u32 \<Rightarrow> u8 \<Rightarrow> u32 \<Rightarrow> connection list \<Rightarrow> (int \<times> devctl_line list) option" where
  "poll_upgrade path operation_id previous_state previous_offset [] = None"
| "poll_upgrade path operation_id previous_state previous_offset (cn # cns) =
    (case exchange cn path DEVMGR_IPC_UPGRADE_STATUS (Some (devmgr_put_le32 operation_id)) 4 of
       None \<Rightarrow> None
     | Some (Inl result, _) \<Rightarrow> Some (1, [Status_failed (devmgr_status_string (status_code result))])
     | Some (Inr r, _) \<Rightarrow>
         let payload = rs_payload r in
         if rs_status r \<noteq> status_word DEVMGR_OK \<or> rs_payload_length r \<noteq> 20 \<or>
            devmgr_get_le32 payload \<noteq> operation_id
         then Some (1, [Status_failed (devmgr_status_string (sint (rs_status r)))])
         else
           let state = payload ! 4;
               operation_result = sint (devmgr_get_le32 (drop 8 payload));
               offset = devmgr_get_le32 (drop 12 payload);
               total_size = devmgr_get_le32 (drop 16 payload);
               out = (if state \<noteq> previous_state \<or> offset \<noteq> previous_offset
                      then [Progress (state_name state) (percent offset total_size) offset total_size] else [])
           in if state = upgrade_state_code DEVMGR_UPGRADE_COMPLETE then Some (0, out @ [Upgrade_verified])
              else if state = upgrade_state_code DEVMGR_UPGRADE_ERROR
              then Some (1, out @ [Upgrade_failed (devmgr_status_string operation_result)])
              else map_option (map_prod id (append out)) (poll_upgrade path operation_id state offset cns))"

definition wait_for_upgrade :: "bytes \<Rightarrow> devmgr_ipc_response \<Rightarrow> connection list \<Rightarrow> (int \<times> devctl_line list) option" where
  "wait_for_upgrade socket_path started cns =
    (if rs_status started \<noteq> status_word DEVMGR_OK \<or> rs_payload_length started \<noteq> 4 then Some (1, [])
     else poll_upgrade socket_path (devmgr_get_le32 (rs_payload started)) (upgrade_state_code DEVMGR_UPGRADE_IDLE)
            (- 1) cns)"

subsection \<open>The program\<close>

fun devctl_options :: "(char \<times> bytes) list \<Rightarrow> bytes \<Rightarrow> int + bytes" where
  "devctl_options [] socket_path = Inr socket_path"
| "devctl_options ((opt, arg) # opts) socket_path =
    (if opt = CHR ''s'' then devctl_options opts arg else Inl (if opt = CHR ''h'' then 0 else 2))"

text \<open>
  The request an operand list asks for: command and payload, or the message the program ends with
  (exit code 2). \<open>realpath\<close> resolves the name of a file.
\<close>

definition interval_request :: "bytes list \<Rightarrow> devctl_line + u8 \<times> bytes" where
  "interval_request args =
    (if length args > 2 then Inl Usage
     else
       case (if length args > 1 then strtoul (args ! 1) else (1000, 0)) of
         (interval, end) \<Rightarrow>
           if length args > 1 \<and> end \<noteq> length (args ! 1) \<or> interval < 100 \<or> interval > 60000 then Inl Bad_interval
           else Inr (DEVMGR_MSG_START_TELEMETRY, devmgr_put_le32 (of_nat interval)))"

definition upgrade_command :: "(bytes \<Rightarrow> bytes option) \<Rightarrow> bytes list \<Rightarrow> devctl_line + u8 \<times> bytes" where
  "upgrade_command realpath args =
    (if length args < 2 \<or> length args > 3 \<or> realpath (args ! 1) = None then Inl Unresolved_file
     else
       let resolved = the (realpath (args ! 1));
           version = (if length args > 2 then args ! 2 else ascii ''1.1.0'')
       in if (length resolved + 1) + (length version + 1) > DEVMGR_IPC_MAX_PAYLOAD then Inl Arguments_too_long
          else Inr (DEVMGR_IPC_UPGRADE, (resolved @ [0]) @ (version @ [0])))"

definition status_command :: "bytes list \<Rightarrow> devctl_line + u8 \<times> bytes" where
  "status_command args =
    (if length args \<noteq> 2 then Inl Usage
     else
       case strtoul (args ! 1) of
         (operation, end) \<Rightarrow>
           if operation = 0 \<or> operation > UINT32_MAX \<or> end \<noteq> length (args ! 1) then Inl Bad_operation
           else Inr (DEVMGR_IPC_UPGRADE_STATUS, devmgr_put_le32 (of_nat operation)))"

definition devctl_request :: "(bytes \<Rightarrow> bytes option) \<Rightarrow> bytes list \<Rightarrow> devctl_line + u8 \<times> bytes" where
  "devctl_request realpath args =
    (if args = [] \<or> length args > 3 then Inl Usage
     else
       let plain = (\<lambda>command. if length args > 1 then Inl Usage else Inr (command, [])) in
       if args ! 0 = ascii ''ping'' then plain DEVMGR_MSG_PING
       else if args ! 0 = ascii ''info'' then plain DEVMGR_MSG_GET_INFO
       else if args ! 0 = ascii ''health'' then plain DEVMGR_MSG_GET_HEALTH
       else if args ! 0 = ascii ''stats'' then plain DEVMGR_MSG_GET_STATS
       else if args ! 0 = ascii ''telemetry-start'' then interval_request args
       else if args ! 0 = ascii ''telemetry-stop'' then plain DEVMGR_MSG_STOP_TELEMETRY
       else if args ! 0 = ascii ''telemetry'' then plain DEVMGR_IPC_GET_TELEMETRY
       else if args ! 0 = ascii ''upgrade'' then upgrade_command realpath args
       else if args ! 0 = ascii ''upgrade-status'' then status_command args
       else Inl Usage)"

text \<open>Nanoseconds between two readings of the clock, modulo \<open>2 ^ 64\<close>.\<close>

definition elapsed_ns :: "int \<times> int \<Rightarrow> int \<times> int \<Rightarrow> u64" where
  "elapsed_ns before after =
    (let elapsed = of_int (fst after - fst before) * 1000000000 in
     if snd after \<ge> snd before then elapsed + of_int (snd after - snd before)
     else elapsed - of_int (snd before - snd after))"

definition devctl_main ::
  "u32 \<Rightarrow> (char \<times> bytes) list \<Rightarrow> bytes list \<Rightarrow> (bytes \<Rightarrow> bytes option) \<Rightarrow> int \<times> int \<Rightarrow> int \<times> int \<Rightarrow>
   connection \<Rightarrow> connection list \<Rightarrow> (int \<times> devctl_line list) option" where
  "devctl_main uid opts args realpath before after cn cns =
    (case devctl_options opts (default_socket uid) of
       Inl code \<Rightarrow> Some (code, [Usage])
     | Inr socket_path \<Rightarrow>
         (case devctl_request realpath args of
            Inl msg \<Rightarrow> Some (2, [msg])
          | Inr (command, payload) \<Rightarrow>
              (case exchange cn socket_path command (Some payload) (of_nat (length payload)) of
                 None \<Rightarrow> None
               | Some (Inl result, _) \<Rightarrow> Some (1, [Ipc_failed (devmgr_status_string (status_code result))])
               | Some (Inr response, _) \<Rightarrow>
                   let out = print_response command response (elapsed_ns before after) in
                   if command = DEVMGR_IPC_UPGRADE \<and> rs_status response = status_word DEVMGR_OK
                   then map_option (map_prod id (append out)) (wait_for_upgrade socket_path response cns)
                   else Some (if rs_status response = status_word DEVMGR_OK then 0 else 1, out))))"

subsection \<open>Partial reads and writes\<close>

text \<open>Calls that move at least one byte or are interrupted, enough of them for \<open>n\<close> bytes.\<close>

definition patient :: "nat sysret list \<Rightarrow> nat \<Rightarrow> bool" where
  "patient results n \<longleftrightarrow> (\<forall>r \<in> set results. r = Inl EINTR \<or> r \<noteq> Inr 0 \<and> r \<in> range Inr) \<and>
     n \<le> length (filter (\<lambda>r. r \<noteq> Inl EINTR) results)"

lemma patient_Nil: "patient [] n \<Longrightarrow> n = 0"
  by (simp add: patient_def)

lemma patient_Cons:
  assumes "patient (r # rs) n"
  obtains "r = Inl EINTR" "patient rs n" | k where "r = Inr k" "0 < k" "patient rs (n - 1)"
  using assms by (cases r) (auto simp: patient_def le_diff_conv split: if_splits)

lemma patient_mono: "patient rs n \<Longrightarrow> m \<le> n \<Longrightarrow> patient rs m"
  by (simp add: patient_def)

lemma write_all_eqs:
  "length data \<le> offset \<Longrightarrow> write_all data offset results = Some (DEVMGR_OK, offset)"
  "offset < length data \<Longrightarrow> write_all data offset [] = None"
  "offset < length data \<Longrightarrow> write_all data offset (Inl e # rest) =
     (if e = EINTR then write_all data offset rest else Some (DEVMGR_ERROR_IO, offset))"
  "offset < length data \<Longrightarrow> write_all data offset (Inr n # rest) =
     (if n > 0 then write_all data (offset + min n (length data - offset)) rest else Some (DEVMGR_ERROR_IO, offset))"
  by (subst write_all.simps, simp add: Let_def)+

lemma read_all_eqs:
  "need \<le> length data \<Longrightarrow> read_all need data results incoming = Some (DEVMGR_OK, data, results, incoming)"
  "length data < need \<Longrightarrow> read_all need data [] incoming = None"
  "length data < need \<Longrightarrow> read_all need data (Inl e # rest) incoming =
     (if e = EINTR then read_all need data rest incoming else Some (DEVMGR_ERROR_IO, data, rest, incoming))"
  "length data < need \<Longrightarrow> read_all need data (Inr n # rest) incoming =
     (if n = 0 \<or> incoming = [] then Some (DEVMGR_ERROR_DISCONNECTED, data, rest, incoming)
      else read_all need (data @ take (min n (need - length data)) incoming) rest (drop (min n (need - length data)) incoming))"
  by (subst read_all.simps, auto simp: Let_def min_def)+

lemma write_all_patient:
  "patient results (length data - offset) \<Longrightarrow> offset \<le> length data \<Longrightarrow>
   write_all data offset results = Some (DEVMGR_OK, length data)"
proof (induction results arbitrary: offset)
  case Nil
  then show ?case using patient_Nil [of "length data - offset"] by (simp add: write_all_eqs)
next
  case (Cons r rs)
  show ?case
  proof (cases "offset < length data")
    case False
    then show ?thesis using Cons.prems(2) by (simp add: write_all_eqs)
  next
    case more: True
    show ?thesis using Cons.prems(1)
    proof (cases rule: patient_Cons)
      case 1
      then show ?thesis using Cons.IH [of offset] more by (simp add: write_all_eqs)
    next
      case (2 k)
      have "write_all data (offset + min k (length data - offset)) rs = Some (DEVMGR_OK, length data)"
        by (rule Cons.IH) (use 2 more in \<open>auto intro: patient_mono\<close>)
      then show ?thesis using 2(1,2) more by (simp add: write_all_eqs)
    qed
  qed
qed

lemma write_all_complete:
  "write_all data offset results = Some (DEVMGR_OK, n) \<Longrightarrow> offset \<le> length data \<Longrightarrow> n = length data"
proof (induction results arbitrary: offset)
  case Nil
  then show ?case by (cases "offset < length data") (simp_all add: write_all_eqs)
next
  case (Cons r rs)
  then show ?case by (cases "offset < length data"; cases r) (auto simp: write_all_eqs split: if_splits)
qed

lemma read_all_patient:
  "patient results m \<Longrightarrow> need - length data \<le> m \<Longrightarrow> need - length data \<le> length incoming \<Longrightarrow>
   \<exists>rest. read_all need data results incoming =
       Some (DEVMGR_OK, data @ take (need - length data) incoming, rest, drop (need - length data) incoming) \<and>
     patient rest (m - (need - length data))"
proof (induction results arbitrary: m data incoming)
  case Nil
  then show ?case using patient_Nil [of m] by (simp add: read_all_eqs)
next
  case (Cons r rs)
  show ?case
  proof (cases "length data < need")
    case False
    then show ?thesis using Cons.prems(1) by (simp add: read_all_eqs)
  next
    case more: True
    show ?thesis using Cons.prems(1)
    proof (cases rule: patient_Cons)
      case 1
      then show ?thesis using Cons.IH [of m data incoming] Cons.prems(2,3) more by (simp add: read_all_eqs)
    next
      case (2 k)
      define g where "g = min k (need - length data)"
      have g: "0 < g" "g \<le> length incoming" "g \<le> need - length data" "incoming \<noteq> []"
        using 2(2) more Cons.prems(3) by (auto simp: g_def)
      have n: "need - length (data @ take g incoming) = need - length data - g" using g(2) by simp
      have "patient rs (m - g)" using 2(3) g(1) by (auto intro: patient_mono)
      then obtain rest where r: "read_all need (data @ take g incoming) rs (drop g incoming) =
          Some (DEVMGR_OK, (data @ take g incoming) @ take (need - length data - g) (drop g incoming), rest,
            drop (need - length data - g) (drop g incoming))" "patient rest (m - g - (need - length data - g))"
        using Cons.IH [of "m - g" "data @ take g incoming" "drop g incoming"] Cons.prems(2,3) g(2,3) unfolding n
        by (metis diff_le_mono length_drop)
      have sum: "g + (need - length data - g) = need - length data" using g(3) by simp
      have "take g incoming @ take (need - length data - g) (drop g incoming) = take (need - length data) incoming"
        using take_add [of g "need - length data - g" incoming] unfolding sum by simp
      moreover have "drop (need - length data - g) (drop g incoming) = drop (need - length data) incoming"
        using sum by (simp add: add.commute del: diff_diff_left)
      moreover have "m - g - (need - length data - g) = m - (need - length data)" using sum by linarith
      ultimately show ?thesis using r 2(1,2) g(4) more by (auto simp: read_all_eqs g_def [symmetric])
    qed
  qed
qed

lemma read_all_complete:
  "read_all need data results incoming = Some (DEVMGR_OK, got, rest, left) \<Longrightarrow> length data \<le> need \<Longrightarrow>
   length got = need \<and> got @ left = data @ incoming"
proof (induction results arbitrary: data incoming)
  case Nil
  then show ?case by (cases "length data < need") (simp_all add: read_all_eqs)
next
  case (Cons r rs)
  show ?case
  proof (cases "length data < need")
    case False
    then show ?thesis using Cons.prems by (simp add: read_all_eqs)
  next
    case more: True
    show ?thesis
    proof (cases r)
      case (Inl e)
      then show ?thesis using Cons more by (auto simp: read_all_eqs split: if_splits)
    next
      case (Inr k)
      let ?g = "min k (need - length data)"
      have "read_all need (data @ take ?g incoming) rs (drop ?g incoming) = Some (DEVMGR_OK, got, rest, left)"
        using Cons.prems(1) more Inr by (simp add: read_all_eqs split: if_splits)
      from Cons.IH [OF this] show ?thesis using more by simp
    qed
  qed
qed

subsection \<open>An exchange, whatever the slicing\<close>

lemma response_wire_header:
  "length (response_wire r) = 12 + length (rs_payload r)" "drop 12 (response_wire r) = rs_payload r"
  "devmgr_get_le32 (drop 8 (take 12 (response_wire r))) = rs_payload_length r"
proof -
  have t: "take 12 (response_wire r) = 0x49 # 0x50 # 1 # rs_command r # devmgr_put_le32 (rs_status r) @
      devmgr_put_le32 (rs_payload_length r) @ []"
    by (simp add: response_wire_def eval_nat_numeral devmgr_put_le32_def)
  show "devmgr_get_le32 (drop 8 (take 12 (response_wire r))) = rs_payload_length r"
    unfolding t by (rule get_put_le32_Cons4)
  show "length (response_wire r) = 12 + length (rs_payload r)" "drop 12 (response_wire r) = rs_payload r"
    by (simp_all add: response_wire_def eval_nat_numeral devmgr_put_le32_def)
qed

lemma read_response_answers:
  assumes wf: "response_wf r" and inc: "cn_incoming cn = response_wire r @ rest"
    and reads: "patient (cn_reads cn) (length (response_wire r))"
  shows "read_response cn = Some (Inr r)"
proof -
  note L = response_wire_header [of r]
  obtain reads1 where h: "read_all 12 [] (cn_reads cn) (cn_incoming cn) =
      Some (DEVMGR_OK, take 12 (response_wire r), reads1, rs_payload r @ rest)" "patient reads1 (length (rs_payload r))"
    using read_all_patient [OF reads, of 12 "[]" "cn_incoming cn"] L(1,2) unfolding inc by auto
  have n: "unat (rs_payload_length r) = length (rs_payload r)" "length (rs_payload r) \<le> 4096"
    using wf by (simp_all add: response_wf_def)
  obtain reads2 where p: "read_all (length (rs_payload r)) [] reads1 (rs_payload r @ rest) =
      Some (DEVMGR_OK, rs_payload r, reads2, rest)"
    using read_all_patient [OF h(2), of "length (rs_payload r)" "[]" "rs_payload r @ rest"] by auto
  have "take 12 (response_wire r) @ rs_payload r = response_wire r"
    using append_take_drop_id [of 12 "response_wire r"] L(2) by simp
  then show ?thesis using h(1) p n L(3) decode_response_wire [OF wf] by (simp add: read_response_def Let_def)
qed

lemma read_response_sound:
  assumes "read_response cn = Some (Inr r)"
  obtains rest where "response_wf r" "cn_incoming cn = response_wire r @ rest"
proof -
  obtain header reads inc payload x y where h: "read_all 12 [] (cn_reads cn) (cn_incoming cn) = Some (DEVMGR_OK, header, reads, inc)"
    and p: "read_all (unat (devmgr_get_le32 (drop 8 header))) [] reads inc = Some (DEVMGR_OK, payload, x, y)"
    and d: "devmgr_ipc_decode_response (Some (header @ payload)) False = Inr r"
    using assms unfolding read_response_def
    by (auto simp: Let_def split: option.splits prod.splits if_splits)
  have "header @ inc = cn_incoming cn" "payload @ y = inc"
    using read_all_complete [OF h] read_all_complete [OF p] by simp_all
  then have "cn_incoming cn = (header @ payload) @ y" by simp
  then show thesis using response_wire_decode [OF d] that by metis
qed

abbreviation request_of :: "u8 \<Rightarrow> bytes \<Rightarrow> devmgr_ipc_request" where
  "request_of command payload \<equiv> \<lparr>rq_command = command, rq_payload_length = of_nat (length payload), rq_payload = payload\<rparr>"

lemma request_of_wf: "length payload \<le> 4096 \<Longrightarrow> request_wf (request_of command payload)"
  by (simp add: request_wf_def unat_of_nat)

definition connects :: "connection \<Rightarrow> bytes \<Rightarrow> nat \<Rightarrow> bool" where
  "connects cn path fd \<longleftrightarrow> 0 < length path \<and> length path < 108 \<and> cn_socket cn = Some fd \<and> cn_rcvtimeo_ok cn \<and>
     cn_sndtimeo_ok cn \<and> cn_connect_ok cn"

lemma connect_socket_connects: "connects cn path fd \<Longrightarrow> connect_socket cn path = (int fd, [])"
  by (simp add: connects_def connect_socket_def)

lemma exchange_alt:
  assumes "connects cn path fd" "length payload \<le> 4096"
  shows "exchange cn path command (Some payload) (of_nat (length payload)) =
    (case write_all (request_wire (request_of command payload)) 0 (cn_writes cn) of
       None \<Rightarrow> None
     | Some (result, n) \<Rightarrow>
         if result \<noteq> DEVMGR_OK then Some (Inl result, take n (request_wire (request_of command payload)), [Closed fd])
         else map_option (\<lambda>r. (r, take n (request_wire (request_of command payload)), [Closed fd])) (read_response cn))"
proof -
  define n :: u32 where "n = of_nat (length payload)"
  have u: "unat n = length payload" using assms(2) by (simp add: n_def unat_of_nat)
  have q: "(if n \<noteq> 0 then take (unat n) (the (Some payload)) else []) = payload" using u by auto
  have e: "devmgr_ipc_encode_request (Some \<lparr>rq_command = command, rq_payload_length = n, rq_payload = payload\<rparr>) False 4108 False =
      Inr (request_wire \<lparr>rq_command = command, rq_payload_length = n, rq_payload = payload\<rparr>)"
    by (rule encode_request_wire) (use assms(2) u in \<open>simp_all add: request_wf_def\<close>)
  show ?thesis
    unfolding exchange_def n_def [symmetric] Let_def q connect_socket_connects [OF assms(1)] prod.case
    using assms(2) u e by (simp cong: option.case_cong prod.case_cong if_cong)
qed

lemma exchange_answered:
  assumes "connects cn path fd" and "length payload \<le> 4096" and "patient (cn_writes cn) (8 + length payload)"
    and "response_wf r" and "cn_incoming cn = response_wire r @ rest" and "patient (cn_reads cn) (12 + length (rs_payload r))"
  shows "exchange cn path command (Some payload) (of_nat (length payload)) =
    Some (Inr r, request_wire (request_of command payload), [Closed fd])"
proof -
  let ?w = "request_wire (request_of command payload)"
  have "write_all ?w 0 (cn_writes cn) = Some (DEVMGR_OK, length ?w)"
    by (rule write_all_patient) (use assms(3) in \<open>simp_all add: request_wire_def devmgr_put_le32_def eval_nat_numeral\<close>)
  then show ?thesis
    using exchange_alt [OF assms(1,2)] read_response_answers [OF assms(4,5)] assms(6) response_wire_header(1) by simp
qed

lemma exchange_sound:
  assumes "exchange cn path command (Some payload) (of_nat (length payload)) = Some (Inr r, sent, es)"
    and "length payload \<le> 4096"
  obtains fd rest where "connects cn path fd" "es = [Closed fd]" "sent = request_wire (request_of command payload)"
    "response_wf r" "cn_incoming cn = response_wire r @ rest"
proof -
  obtain fd where c: "connects cn path fd"
    using assms(1) by (auto simp: exchange_def connect_socket_def connects_def Let_def split: if_splits option.splits)
  let ?w = "request_wire (request_of command payload)"
  obtain n where w: "write_all ?w 0 (cn_writes cn) = Some (DEVMGR_OK, n)" "read_response cn = Some (Inr r)"
    and e: "sent = take n ?w" "es = [Closed fd]"
    using assms(1) unfolding exchange_alt [OF c assms(2)] by (auto split: option.splits if_splits)
  have "n = length ?w" by (rule write_all_complete [OF w(1)]) simp
  moreover obtain rest where "response_wf r" "cn_incoming cn = response_wire r @ rest"
    using read_response_sound [OF w(2)] by blast
  ultimately show thesis using that [OF c e(2)] e(1) by simp
qed

text \<open>Whatever happens, the socket is closed exactly once.\<close>

lemma exchange_closes:
  assumes "exchange cn path command payload n = Some (result, sent, es)"
  shows "es = (if unat n \<le> 4096 \<and> (payload = None \<longrightarrow> n = 0) \<and> 0 < length path \<and> length path < 108
               then (case cn_socket cn of None \<Rightarrow> [] | Some fd \<Rightarrow> [Closed fd]) else [])"
  using assms by (auto simp: exchange_def connect_socket_def Let_def split: if_splits option.splits sum.splits)

subsection \<open>The daemon's end of the connection\<close>

text \<open>
  The daemon collects a request over any number of \<open>read\<close>s and readiness events. With \<open>k\<close> bytes of
  the message \<open>w\<close> received:
\<close>

definition gather :: "daemon_context \<Rightarrow> nat \<Rightarrow> bytes \<Rightarrow> nat \<Rightarrow> daemon_context" where
  "gather ctx i w k = set_client ctx i ((cx_clients ctx ! i)
     \<lparr>cl_input := take k w, cl_expected_size := if k < 8 then 0 else length w\<rparr>)"

definition gathers :: "daemon_context \<Rightarrow> nat \<Rightarrow> bytes \<Rightarrow> nat \<Rightarrow> bool" where
  "gathers ctx i w k \<longleftrightarrow> i < length (cx_clients ctx) \<and> k < length w \<and> cl_input (cx_clients ctx ! i) = take k w \<and>
     cl_expected_size (cx_clients ctx ! i) = (if k < 8 then 0 else length w)"

lemma gather_gather [simp]: "i < length (cx_clients ctx) \<Longrightarrow> gather (gather ctx i w k) i w m = gather ctx i w m"
  by (simp add: gather_def set_client_def)

lemma gather_gathers: "gathers ctx i w k \<Longrightarrow> m < length w \<Longrightarrow> gathers (gather ctx i w m) i w m"
  by (simp add: gather_def gathers_def set_client_def)

lemma request_wire_length: "request_wf q \<Longrightarrow> length (request_wire q) = 8 + unat (rq_payload_length q)"
  by (simp add: request_wire_def request_wf_def)

lemma request_wire_announces:
  assumes "request_wf q" "8 \<le> n"
  shows "devmgr_get_le32 (drop 4 (take n (request_wire q))) = rq_payload_length q"
proof -
  have "take n (request_wire q) = 0x49 # 0x50 # 1 # rq_command q # devmgr_put_le32 (rq_payload_length q) @ take (n - 8) (rq_payload q)"
    using assms(2) by (auto simp: request_wire_def devmgr_put_le32_def eval_nat_numeral take_Cons' dest!: le_Suc_ex)
  then show ?thesis by simp
qed

lemma client_bytes_gather:
  assumes g: "gathers ctx i (request_wire q) k" and wf: "request_wf q"
    and bs: "drop k (request_wire q) = bs @ left" "bs \<noteq> []"
  shows "client_bytes env ctx i bs =
    (gather ctx i (request_wire q) (k + length bs),
     if left = [] then Some (start_request env (gather ctx i (request_wire q) (k + length bs)) i q) else None)"
proof -
  let ?w = "request_wire q" and ?c = "cx_clients ctx ! i"
  have L: "length ?w = 8 + unat (rq_payload_length q)" "unat (rq_payload_length q) \<le> 4096"
    using request_wire_length [OF wf] wf by (simp_all add: request_wf_def)
  have n: "k + length bs + length left = length ?w" using arg_cong [OF bs(1), of length] g by (auto simp: gathers_def)
  have inp: "take k ?w @ bs = take (k + length bs) ?w"
    using bs(1) by (simp add: take_add)
  have exp: "8 \<le> k + length bs \<Longrightarrow> devmgr_get_le32 (drop 4 (take (k + length bs) ?w)) = rq_payload_length q"
    by (rule request_wire_announces [OF wf])
  have d: "devmgr_ipc_decode_request (Some ?w) False = Inr q" by (rule decode_request_wire [OF wf])
  obtain fd out off cl where c: "?c = \<lparr>cl_fd = fd, cl_input = take k ?w, cl_expected_size = (if k < 8 then 0 else length ?w),
      cl_output = out, cl_output_offset = off, cl_close_after_write = cl\<rparr>"
    using g by (cases ?c) (simp add: gathers_def)
  consider "k + length bs < 8" | "8 \<le> k + length bs" by linarith
  then show ?thesis
  proof cases
    case 1
    then have "left \<noteq> []" using n L(1) by auto
    with 1 n show ?thesis by (simp add: client_bytes_def Let_def c inp gather_def)
  next
    case 2
    have "left = [] \<longleftrightarrow> k + length bs = length ?w" using n by auto
    then show ?thesis
      using 2 L n exp d by (cases "left = []"; cases "k < 8") (auto simp: client_bytes_def Let_def c inp gather_def simp del: drop_append)
  qed
qed

text \<open>Reads that return something or are interrupted, and what they return together.\<close>

definition slices :: "bytes sysret list \<Rightarrow> bytes \<Rightarrow> bool" where
  "slices results bs \<longleftrightarrow> (\<forall>r \<in> set results. r = Inl EINTR \<or> r \<noteq> Inr [] \<and> r \<in> range Inr) \<and>
     concat (map (case_sum (\<lambda>_. []) (\<lambda>b. b)) results) = bs"

lemma handle_client_input_gather:
  assumes wf: "request_wf q"
  shows "gathers ctx i (request_wire q) k \<Longrightarrow> slices results bs \<Longrightarrow> drop k (request_wire q) = bs @ left \<Longrightarrow>
   handle_client_input env ctx i (results @ rest) =
     (if left = [] then start_request env (gather ctx i (request_wire q) (k + length bs)) i q
      else handle_client_input env (if bs = [] then ctx else gather ctx i (request_wire q) (k + length bs)) i rest)"
proof (induction results arbitrary: ctx k bs)
  case Nil
  then show ?case by (auto simp: slices_def gathers_def)
next
  case (Cons r rs)
  let ?w = "request_wire q"
  show ?case
  proof (cases r)
    case (Inl e)
    then have "e = EINTR" "slices rs bs" using Cons.prems(2) by (auto simp: slices_def)
    then show ?thesis using Cons.IH [OF Cons.prems(1) _ Cons.prems(3)] Inl by simp
  next
    case (Inr b)
    then obtain bs' where b: "b \<noteq> []" "bs = b @ bs'" "slices rs bs'"
      using Cons.prems(2) by (auto simp: slices_def)
    let ?ctx = "gather ctx i ?w (k + length b)"
    have d: "drop k ?w = b @ (bs' @ left)" using Cons.prems(3) b(2) by simp
    then have d': "drop (k + length b) ?w = bs' @ left" by (metis append_eq_conv_conj drop_drop add.commute)
    have "length b \<le> CLIENT_INPUT_SIZE - k"
      using arg_cong [OF d, of length] request_wire_length [OF wf] wf by (auto simp: request_wf_def)
    then have fit: "take (CLIENT_INPUT_SIZE - length (cl_input (cx_clients ctx ! i))) b = b"
      using Cons.prems(1) by (simp add: gathers_def min_def)
    note cb = client_bytes_gather [OF Cons.prems(1) wf d b(1), of env]
    show ?thesis
    proof (cases "bs' @ left = []")
      case True
      then show ?thesis using cb b(1) b(2) Inr fit by simp
    next
      case False
      have lt: "k + length b < length ?w"
        using arg_cong [OF d, of length] False Cons.prems(1) by (cases "bs' @ left") (auto simp: gathers_def)
      have "handle_client_input env ?ctx i (rs @ rest) = (if left = [] then start_request env (gather ?ctx i ?w (k + length b + length bs')) i q
        else handle_client_input env (if bs' = [] then ?ctx else gather ?ctx i ?w (k + length b + length bs')) i rest)"
        by (rule Cons.IH [OF gather_gathers [OF Cons.prems(1) lt] b(3)]) (rule d')
      moreover have "gather ?ctx i ?w (k + length b + length bs') = gather ctx i ?w (k + length bs)"
        using Cons.prems(1) b(2) by (simp add: gathers_def add.assoc)
      moreover have "bs' = [] \<Longrightarrow> k + length bs = k + length b" "bs \<noteq> []" using b(1,2) by simp_all
      ultimately show ?thesis using cb False b(1) Inr fit by (auto simp: Let_def)
    qed
  qed
qed

lemma queue_client_response_output:
  assumes "i < length (cx_clients ctx)" "n \<le> 4096" "case payload of None \<Rightarrow> n = 0 | Some p \<Rightarrow> length p \<ge> n"
  shows "cl_output (cx_clients (snd (queue_client_response env ctx i command status payload n)) ! i) =
    response_wire \<lparr>rs_command = command, rs_status = status_word status, rs_payload_length = of_nat n,
      rs_payload = (case payload of None \<Rightarrow> [] | Some p \<Rightarrow> take n p)\<rparr>"
proof -
  let ?r = "\<lparr>rs_command = command, rs_status = status_word status, rs_payload_length = of_nat n,
      rs_payload = (case payload of None \<Rightarrow> replicate n 0 | Some p \<Rightarrow> take n p)\<rparr>"
  have "unat (of_nat n :: u32) = n" using assms(2) by (simp add: unat_of_nat)
  then have "devmgr_ipc_encode_response (Some ?r) False CLIENT_OUTPUT_SIZE False = Inr (response_wire ?r)"
    by (intro encode_response_wire) (use assms(2,3) in \<open>auto simp: response_wf_def split: option.splits\<close>)
  then show ?thesis
    using assms by (auto simp: queue_client_response_def epoll_update_def Let_def set_client_def split: option.splits)
qed

text \<open>The daemon writes the response out over any number of \<open>write\<close>s and then closes the connection.\<close>

lemma handle_client_output_patient:
  assumes "i < length (cx_clients ctx)" "cl_close_after_write (cx_clients ctx ! i)"
    "cl_output_offset (cx_clients ctx ! i) \<le> length (cl_output (cx_clients ctx ! i))"
    "list_all (\<lambda>r. r \<noteq> Inr 0 \<and> r \<in> range Inr) results"
    "length (cl_output (cx_clients ctx ! i)) - cl_output_offset (cx_clients ctx ! i) \<le> length results"
  shows "handle_client_output ctx i results =
    (DEVMGR_OK, close_client (set_client ctx i ((cx_clients ctx ! i)
       \<lparr>cl_output_offset := length (cl_output (cx_clients ctx ! i))\<rparr>)) i)"
  using assms
proof (induction results arbitrary: ctx)
  case Nil
  then show ?case
    by (subst handle_client_output.simps) (simp add: client_output_done_def set_client_def)
next
  case (Cons r rs)
  let ?c = "cx_clients ctx ! i"
  obtain n where n: "r = Inr n" "0 < n" using Cons.prems(4) by auto
  show ?case
  proof (cases "cl_output_offset ?c < length (cl_output ?c)")
    case False
    then have "?c\<lparr>cl_output_offset := length (cl_output ?c)\<rparr> = ?c" using Cons.prems(3) by simp
    then show ?thesis
      using False Cons.prems(2) by (subst handle_client_output.simps) (simp add: client_output_done_def set_client_def)
  next
    case True
    let ?o = "cl_output_offset ?c + min n (length (cl_output ?c) - cl_output_offset ?c)"
    let ?ctx = "set_client ctx i (?c\<lparr>cl_output_offset := ?o\<rparr>)"
    have c: "cx_clients ?ctx ! i = ?c\<lparr>cl_output_offset := ?o\<rparr>" using Cons.prems(1) by (simp add: set_client_def)
    have "handle_client_output ?ctx i rs = (DEVMGR_OK, close_client (set_client ?ctx i ((cx_clients ?ctx ! i)
       \<lparr>cl_output_offset := length (cl_output (cx_clients ?ctx ! i))\<rparr>)) i)"
      by (rule Cons.IH) (use Cons.prems True n in \<open>auto simp: set_client_def\<close>)
    moreover have "set_client ?ctx i ((?c\<lparr>cl_output_offset := ?o\<rparr>)\<lparr>cl_output_offset := length (cl_output ?c)\<rparr>) =
        set_client ctx i (?c\<lparr>cl_output_offset := length (cl_output ?c)\<rparr>)" by (simp add: set_client_def)
    ultimately show ?thesis using True n c by (subst handle_client_output.simps) (simp add: Let_def)
  qed
qed

subsection \<open>What the daemon answers to a poll\<close>

lemma response_wire_prefix:
  assumes "response_wf r" "response_wf r'" "prefix (response_wire r) (response_wire r')"
  shows "r = r'"
proof -
  obtain z where z: "response_wire r' = response_wire r @ z" using assms(3) by (auto simp: prefix_def)
  have "take 12 (response_wire r') = take 12 (response_wire r)" using z response_wire_header(1) [of r] by simp
  then have "rs_payload_length r' = rs_payload_length r" using response_wire_header(3) by metis
  then have "length (response_wire r') = length (response_wire r)"
    using assms(1,2) by (simp add: response_wire_header(1) response_wf_def)
  then have "response_wire r' = response_wire r" using z by simp
  then show ?thesis using decode_response_wire assms(1,2) by (metis sum.inject(2))
qed

text \<open>The connection carries (a prefix of) what a daemon in state \<open>ctx\<close> queued for the poll of operation \<open>id\<close>.\<close>

definition status_served :: "daemon_env \<Rightarrow> u32 \<Rightarrow> connection \<Rightarrow> daemon_context \<Rightarrow> bool" where
  "status_served env operation cn ctx \<longleftrightarrow> (\<exists>i < length (cx_clients ctx).
     prefix (cn_incoming cn) (cl_output (cx_clients (snd (start_request env ctx i
       (request_of DEVMGR_IPC_UPGRADE_STATUS (devmgr_put_le32 operation)))) ! i)))"

definition status_response :: "u32 \<Rightarrow> daemon_context \<Rightarrow> devmgr_ipc_response" where
  "status_response operation ctx =
    (if cx_upgrade_operation_id ctx = 0 \<or> operation \<noteq> cx_upgrade_operation_id ctx
     then \<lparr>rs_command = DEVMGR_IPC_UPGRADE_STATUS, rs_status = status_word DEVMGR_ERROR_NOT_FOUND, rs_payload_length = 0, rs_payload = []\<rparr>
     else \<lparr>rs_command = DEVMGR_IPC_UPGRADE_STATUS, rs_status = status_word DEVMGR_OK, rs_payload_length = 20,
            rs_payload = status_payload ctx\<rparr>)"

lemma status_payload_length [simp]: "length (status_payload ctx) = 20"
  by (simp add: status_payload_def)

lemma status_response_wf: "response_wf (status_response operation ctx)"
  by (simp add: status_response_def response_wf_def)

lemma get_put_le32_all [simp]: "devmgr_get_le32 (devmgr_put_le32 v) = v"
  using get_put_le32 [of v "[]"] by simp

lemma status_answer:
  assumes "i < length (cx_clients ctx)"
  shows "cl_output (cx_clients (snd (start_request env ctx i
      (request_of DEVMGR_IPC_UPGRADE_STATUS (devmgr_put_le32 operation)))) ! i) =
    response_wire (status_response operation ctx)"
  using queue_client_response_output [OF assms]
  by (simp add: start_request_def request_upgrade_status_def status_response_def)

lemma exchange_status:
  assumes "status_served env operation cn ctx"
    and "exchange cn path DEVMGR_IPC_UPGRADE_STATUS (Some (devmgr_put_le32 operation)) 4 = Some (Inr r, sent, es)"
  shows "r = status_response operation ctx"
proof -
  have e: "exchange cn path DEVMGR_IPC_UPGRADE_STATUS (Some (devmgr_put_le32 operation)) (of_nat (length (devmgr_put_le32 operation))) =
      Some (Inr r, sent, es)" using assms(2) by simp
  obtain fd rest where r: "response_wf r" "cn_incoming cn = response_wire r @ rest"
    by (rule exchange_sound [OF e]) simp
  then have "prefix (response_wire r) (response_wire (status_response operation ctx))"
    using assms(1) status_answer unfolding status_served_def by (metis append_prefixD)
  then show ?thesis by (rule response_wire_prefix [OF r(1) status_response_wf])
qed

lemma status_payload_fields:
  "devmgr_get_le32 (status_payload ctx) = cx_upgrade_operation_id ctx"
  "status_payload ctx ! 4 = upgrade_state_code (up_state (cx_upgrade ctx))"
  "devmgr_get_le32 (drop 8 (status_payload ctx)) = status_word (cx_upgrade_result ctx)"
  "devmgr_get_le32 (drop 12 (status_payload ctx)) = up_offset (cx_upgrade ctx)"
  "devmgr_get_le32 (drop 16 (status_payload ctx)) = of_nat (up_image_size (cx_upgrade ctx))"
  by (simp_all add: status_payload_def nth_append)

lemma upgrade_state_code_final:
  "upgrade_state_code st = 10 \<longleftrightarrow> st = DEVMGR_UPGRADE_COMPLETE" "upgrade_state_code st = 11 \<longleftrightarrow> st = DEVMGR_UPGRADE_ERROR"
  by (cases st; simp)+

lemma state_name_code [simp]: "state_name (upgrade_state_code st) = devmgr_upgrade_state_string st"
  by (cases st) (simp_all add: state_name_def state_of_code_def)

text \<open>A round of the poll loop against a daemon that answers.\<close>

lemma poll_upgrade_served:
  assumes "status_served env operation cn ctx"
    and "poll_upgrade path operation st off (cn # cns) = Some (code, out)"
  obtains (failed) "code = 1"
  | (complete) "cx_upgrade_operation_id ctx = operation" "up_state (cx_upgrade ctx) = DEVMGR_UPGRADE_COMPLETE" "code = 0"
  | (again) st' off' out' where "poll_upgrade path operation st' off' cns = Some (code, out')"
proof (cases "exchange cn path DEVMGR_IPC_UPGRADE_STATUS (Some (devmgr_put_le32 operation)) 4")
  case None
  then show thesis using assms(2) by simp
next
  case (Some x)
  obtain y sent es where x: "x = (y, sent, es)" by (rule prod_cases3)
  show thesis
  proof (cases y)
    case (Inl e)
    then show thesis using assms(2) Some x failed by simp
  next
    case (Inr r)
    then have r: "r = status_response operation ctx" using exchange_status [OF assms(1)] Some x by simp
    have s: "status_word DEVMGR_ERROR_NOT_FOUND \<noteq> status_word DEVMGR_OK" by (simp add: status_word_inject)
    show thesis
    proof (cases "cx_upgrade_operation_id ctx = 0 \<or> operation \<noteq> cx_upgrade_operation_id ctx")
      case True
      then show thesis using assms(2) Some x Inr r s failed by (simp add: status_response_def)
    next
      case False
      then have r': "rs_status r = status_word DEVMGR_OK" "rs_payload_length r = 20" "rs_payload r = status_payload ctx"
        "cx_upgrade_operation_id ctx = operation"
        using r by (simp_all add: status_response_def)
      then show thesis
        using assms(2) Some x Inr failed complete again
        by (auto simp: Let_def status_payload_fields upgrade_state_code_final map_prod_def split: if_splits)
    qed
  qed
qed

lemma poll_upgrade_truthful:
  "list_all2 (status_served env operation) cns ctxs \<Longrightarrow> poll_upgrade path operation st off cns = Some (0, out) \<Longrightarrow>
   \<exists>ctx \<in> set ctxs. cx_upgrade_operation_id ctx = operation \<and> up_state (cx_upgrade ctx) = DEVMGR_UPGRADE_COMPLETE"
proof (induction cns arbitrary: ctxs st off out)
  case Nil
  then show ?case by simp
next
  case (Cons cn cns)
  then obtain ctx ctxs' where c: "ctxs = ctx # ctxs'" "status_served env operation cn ctx"
    "list_all2 (status_served env operation) cns ctxs'" by (auto simp: list_all2_Cons1)
  show ?case using poll_upgrade_served [OF c(2) Cons.prems(2)]
    by cases (use Cons.IH [OF c(3)] c(1) in auto)
qed

lemma devctl_options_exit: "devctl_options opts path = Inl code \<Longrightarrow> CHR ''h'' \<notin> fst ` set opts \<Longrightarrow> code = 2"
  by (induction opts path rule: devctl_options.induct) (auto split: if_splits)

lemma upgrade_command_fits: "upgrade_command realpath args = Inr (command, payload) \<Longrightarrow>
    command = DEVMGR_IPC_UPGRADE \<and> length payload \<le> 4096"
  by (auto simp: upgrade_command_def Let_def split: if_splits)

lemma devctl_request_upgrade:
  "devctl_request realpath (ascii ''upgrade'' # args) =
    (if length args > 2 then Inl Usage else upgrade_command realpath (ascii ''upgrade'' # args))"
  by (simp add: devctl_request_def Let_def ascii_def)

text \<open>A successful upgrade command has gone through the poll loop with the response of the daemon.\<close>

lemma devctl_main_waits:
  assumes "CHR ''h'' \<notin> fst ` set opts"
    and "cn_incoming cn = response_wire r" and "response_wf r"
    and "devctl_main uid opts (ascii ''upgrade'' # args) realpath before after cn cns = Some (0, out)"
  obtains path out' where "rs_status r = status_word DEVMGR_OK" "wait_for_upgrade path r cns = Some (0, out')"
proof -
  obtain path where p: "devctl_options opts (default_socket uid) = Inr path"
    using assms(4) devctl_options_exit [OF _ assms(1)] by (cases "devctl_options opts (default_socket uid)") (fastforce simp: devctl_main_def)+
  obtain command payload where q: "devctl_request realpath (ascii ''upgrade'' # args) = Inr (command, payload)"
    using assms(4) p by (cases "devctl_request realpath (ascii ''upgrade'' # args)") (auto simp: devctl_main_def)
  have c: "command = DEVMGR_IPC_UPGRADE" "length payload \<le> 4096"
    using q upgrade_command_fits unfolding devctl_request_upgrade by (auto split: if_splits)
  obtain r' sent es where e: "exchange cn path command (Some payload) (of_nat (length payload)) = Some (Inr r', sent, es)"
    using assms(4) p q by (auto simp: devctl_main_def split: option.splits sum.splits)
  obtain fd rest where "response_wf r'" "cn_incoming cn = response_wire r' @ rest" by (rule exchange_sound [OF e c(2)])
  then have "r' = r" using response_wire_prefix [OF _ assms(3)] assms(2) by (metis prefixI)
  then show thesis
    using that assms(4) p q e c(1) by (auto simp: devctl_main_def Let_def map_prod_def split: if_splits)
qed

subsection \<open>Properties\<close>


text \<open>A connection that moves one byte per call.\<close>

definition sample_connection :: "bytes \<Rightarrow> connection" where
  "sample_connection incoming = \<lparr>cn_socket = Some 3, cn_rcvtimeo_ok = True, cn_sndtimeo_ok = True, cn_connect_ok = True,
     cn_writes = replicate 100 (Inr 1), cn_reads = Inl EINTR # replicate 100 (Inr 1), cn_incoming = incoming\<rparr>"

lemma sample_connection_facts:
  "connects (sample_connection w) (default_socket 0) 3" "n \<le> 100 \<Longrightarrow> patient (cn_writes (sample_connection w)) n"
  "n \<le> 100 \<Longrightarrow> patient (cn_reads (sample_connection w)) n" "cn_incoming (sample_connection w) = w"
  using default_socket_fits(2,3) [of 0]
  by (simp_all add: connects_def sample_connection_def patient_def filter_replicate)

lemma sample_exchange:
  assumes "response_wf r" "length payload \<le> 90" "length (rs_payload r) \<le> 80"
  shows "exchange (sample_connection (response_wire r)) (default_socket 0) command (Some payload) (of_nat (length payload)) =
    Some (Inr r, request_wire (request_of command payload), [Closed 3])"
  by (rule exchange_answered [where rest = "[]"])
     (use assms sample_connection_facts in \<open>simp_all\<close>)




text \<open>
  C27. A request may arrive over several readiness events: a part of it leaves the connection
  waiting for exactly the rest, with nothing else of the daemon changed, and the last part starts it.
\<close>

theorem client_request_gathered:
  assumes "request_wf q" and "gathers ctx i (request_wire q) k" and "slices results bs"
    and "drop k (request_wire q) = bs @ left"
  shows "if left = [] then handle_client_input env ctx i (results @ rest) =
           start_request env (gather ctx i (request_wire q) (length (request_wire q))) i q
         else handle_client_input env ctx i (results @ Inl EAGAIN # rest) = (DEVMGR_OK, gather ctx i (request_wire q) (k + length bs)) \<and>
           gathers (gather ctx i (request_wire q) (k + length bs)) i (request_wire q) (k + length bs)"
proof -
  have n: "k + length bs + length left = length (request_wire q)"
    using arg_cong [OF assms(4), of length] assms(2) by (auto simp: gathers_def)
  have same: "gather ctx i (request_wire q) k = ctx" using assms(2) by (simp add: gather_def gathers_def set_client_def list_update_same_conv)
  have lt: "left \<noteq> [] \<Longrightarrow> k + length bs < length (request_wire q)" using n by (cases left) simp_all
  show ?thesis
    using handle_client_input_gather [OF assms, of env] gather_gathers [OF assms(2), of "k + length bs"] lt n same
    by (cases "left = []") auto
qed

theorem client_request_gathered_witness:
  "handle_client_input sample_env sample_context 0 ([Inr [0x49, 0x50], Inl EINTR, Inr [1]] @ Inl EAGAIN # []) =
      (DEVMGR_OK, gather sample_context 0 (request_wire (request_of 2 [])) (0 + length [0x49, 0x50, 1 :: byte]))"
proof -
  let ?q = "request_of 2 []" and ?left = "drop 3 (request_wire (request_of 2 []))"
  have w: "drop 0 (request_wire ?q) = [0x49, 0x50, 1] @ ?left" by (simp add: request_wire_def)
  have l: "?left \<noteq> []" by (simp add: request_wire_def)
  have g: "gathers sample_context 0 (request_wire ?q) 0"
    by (simp add: gathers_def sample_context_def fresh_context_def zero_client_def request_wire_def)
  have s: "slices [Inr [0x49, 0x50], Inl EINTR, Inr [1]] [0x49, 0x50, 1]" by (simp add: slices_def)
  show ?thesis using client_request_gathered [OF request_of_wf g s w, of sample_env "[]"] l by simp
qed

subsection \<open>Command lines and what is printed\<close>

lemma upgrade_arguments_strings:
  assumes "0 \<notin> set path" "0 \<notin> set version" "path \<noteq> []" "length path + length version + 2 \<le> 4096"
  shows "upgrade_arguments (request_of command ((path @ [0]) @ (version @ [0]))) =
    (if version = [] \<or> length version > DEVMGR_UPGRADE_VERSION_MAX then None else Some (path, version))"
proof -
  have u: "unat (of_nat (length ((path @ [0]) @ (version @ [0]))) :: u32) = length path + length version + 2"
    using assms(4) by (subst unat_of_nat) simp
  have m: "memchr0 (path @ 0 # version @ [0]) = Some (length path)" "memchr0 (version @ [0]) = Some (length version)"
    using assms(1,2) by (simp_all add: memchr0_append_zero)
  show ?thesis
    unfolding upgrade_arguments_def Let_def devmgr_ipc_request.simps u using m assms(3) by simp
qed

text \<open>What every accepted command line promises about its request.\<close>

definition request_sensible :: "(bytes \<Rightarrow> bytes option) \<Rightarrow> bytes list \<Rightarrow> u8 \<Rightarrow> bytes \<Rightarrow> bool" where
  "request_sensible realpath args command payload \<longleftrightarrow> length payload \<le> DEVMGR_IPC_MAX_PAYLOAD \<and>
     (command = DEVMGR_MSG_START_TELEMETRY \<longrightarrow>
        length payload = 4 \<and> 100 \<le> unat (devmgr_get_le32 payload) \<and> unat (devmgr_get_le32 payload) \<le> 60000) \<and>
     (command = DEVMGR_IPC_UPGRADE_STATUS \<longrightarrow> length payload = 4 \<and> devmgr_get_le32 payload \<noteq> 0) \<and>
     (command = DEVMGR_IPC_UPGRADE \<longrightarrow>
        (let version = (if length args > 2 then args ! 2 else ascii ''1.1.0'') in
         realpath (args ! 1) \<noteq> None \<and>
         upgrade_arguments (request_of command payload) =
           (if version = [] \<or> length version > DEVMGR_UPGRADE_VERSION_MAX then None else Some (the (realpath (args ! 1)), version))))"

lemma interval_request_sensible:
  assumes "interval_request args = Inr (command, payload)"
  shows "request_sensible realpath args command payload"
proof -
  obtain interval n where x: "(if length args > 1 then strtoul (args ! 1) else (1000, 0)) = (interval, n)" by (rule prod.exhaust)
  have i: "100 \<le> interval" "interval \<le> 60000" "command = DEVMGR_MSG_START_TELEMETRY"
    "payload = devmgr_put_le32 (of_nat interval)"
    using assms unfolding interval_request_def x prod.case by (simp_all split: if_splits)
  have "unat (of_nat interval :: u32) = interval" using i(2) by (subst unat_of_nat) simp
  then show ?thesis using i by (simp add: request_sensible_def)
qed

lemma status_command_sensible:
  assumes "status_command args = Inr (command, payload)"
  shows "request_sensible realpath args command payload"
proof -
  obtain operation n where x: "strtoul (args ! 1) = (operation, n)" by (rule prod.exhaust)
  have i: "operation \<noteq> 0" "operation \<le> UINT32_MAX" "command = DEVMGR_IPC_UPGRADE_STATUS"
    "payload = devmgr_put_le32 (of_nat operation)"
    using assms unfolding status_command_def x prod.case by (simp_all split: if_splits)
  have "unat (of_nat operation :: u32) = operation" using i(2) by (subst unat_of_nat) simp
  then have "(of_nat operation :: u32) \<noteq> 0" using i(1) by (metis unsigned_0)
  then show ?thesis using i by (simp add: request_sensible_def)
qed

lemma upgrade_command_sensible:
  assumes "upgrade_command realpath args = Inr (command, payload)" "\<forall>a \<in> set args. 0 \<notin> set a"
    and "\<And>p. realpath (args ! 1) = Some p \<Longrightarrow> p \<noteq> [] \<and> 0 \<notin> set p"
  shows "request_sensible realpath args command payload"
proof -
  let ?v = "if length args > 2 then args ! 2 else ascii ''1.1.0''"
  obtain p where p: "realpath (args ! 1) = Some p" "command = DEVMGR_IPC_UPGRADE" "payload = (p @ [0]) @ (?v @ [0])"
    "length p + length ?v + 2 \<le> 4096"
    using assms(1) by (auto simp: upgrade_command_def Let_def split: if_splits)
  have "0 \<notin> set ?v" using assms(2) by (auto simp: ascii_def)
  then have "upgrade_arguments (request_of command payload) =
      (if ?v = [] \<or> length ?v > DEVMGR_UPGRADE_VERSION_MAX then None else Some (p, ?v))"
    using upgrade_arguments_strings [of p ?v command] assms(3) [OF p(1)] p(4) unfolding p(3) by blast
  then show ?thesis using p(1,2,4) unfolding request_sensible_def Let_def p(3) by simp
qed



lemma next_string_cstr:
  "0 \<notin> set v \<Longrightarrow> length p = n \<Longrightarrow> next_string (p @ v @ 0 # rest) n = (Some v, n + length v + 1)"
  by (auto simp: next_string_def memchr0_append_zero)

lemma info_line_strings:
  assumes "0 \<notin> set a" "0 \<notin> set b" "0 \<notin> set c" "0 \<notin> set d" "0 \<notin> set e"
  shows "info_line (devmgr_put_le32 v @ a @ 0 # b @ 0 # c @ 0 # d @ 0 # e @ [0]) = Device_info v a b c d e"
proof -
  let ?p = "devmgr_put_le32 v"
  have "next_string (?p @ a @ 0 # b @ 0 # c @ 0 # d @ 0 # e @ [0]) 4 = (Some a, 5 + length a)"
    using next_string_cstr [OF assms(1), of ?p 4] by simp
  moreover have "next_string (?p @ a @ 0 # b @ 0 # c @ 0 # d @ 0 # e @ [0]) (5 + length a) = (Some b, 6 + length a + length b)"
    using next_string_cstr [OF assms(2), of "?p @ a @ [0]" "5 + length a" "c @ 0 # d @ 0 # e @ [0]"] by simp
  moreover have "next_string (?p @ a @ 0 # b @ 0 # c @ 0 # d @ 0 # e @ [0]) (6 + length a + length b) =
      (Some c, 7 + length a + length b + length c)"
    using next_string_cstr [OF assms(3), of "?p @ a @ [0] @ b @ [0]" "6 + length a + length b" "d @ 0 # e @ [0]"] by simp
  moreover have "next_string (?p @ a @ 0 # b @ 0 # c @ 0 # d @ 0 # e @ [0]) (7 + length a + length b + length c) =
      (Some d, 8 + length a + length b + length c + length d)"
    using next_string_cstr [OF assms(4), of "?p @ a @ [0] @ b @ [0] @ c @ [0]" "7 + length a + length b + length c" "e @ [0]"] by simp
  moreover have "next_string (?p @ a @ 0 # b @ 0 # c @ 0 # d @ 0 # e @ [0]) (8 + length a + length b + length c + length d) =
      (Some e, 9 + length a + length b + length c + length d + length e)"
    using next_string_cstr [OF assms(5), of "?p @ a @ [0] @ b @ [0] @ c @ [0] @ d @ [0]"
        "8 + length a + length b + length c + length d" "[]"] by simp
  ultimately show ?thesis by (simp add: info_line_def)
qed

lemma put_string_fits: "length p + length v < cap \<Longrightarrow> put_string cap p v = p @ v @ [0]"
  by (simp add: put_string_def)

lemma sim_get_info_payload:
  assumes "length (sm_firmware_version s) \<le> DEVMGR_UPGRADE_VERSION_MAX"
  shows "fr_payload (sim_get_info s q) = devmgr_put_le32 (sm_device_id s) @ ascii ''STM32-SIM'' @ 0 # ascii ''HW-1.0'' @ 0 #
    sm_firmware_version s @ 0 # ascii ''BL-1.0.0'' @ 0 # ascii ''SIM00000001'' @ [0]"
  using assms by (simp add: sim_get_info_def Let_def put_string_fits ascii_def)

text \<open>
  C39. What \<open>devctl info\<close> prints is what the device is. The simulator's answer to \<open>GET_INFO\<close>, taken by the
  daemon for the client that waits, decodes at that client to a response that \<open>devctl\<close> prints as the
  device's id, its five strings in order, the running firmware version among them.
\<close>

theorem devctl_shows_device_info:
  assumes "cx_active_client ctx = int i" and "i < length (cx_clients ctx)" and "fr_type q = DEVMGR_MSG_GET_INFO"
    and "0 \<notin> set (sm_firmware_version s)" and "length (sm_firmware_version s) \<le> DEVMGR_UPGRADE_VERSION_MAX"
  shows "\<exists>r. devmgr_ipc_decode_response (Some (cl_output (cx_clients (snd
        (client_response env ctx DEVMGR_MSG_GET_INFO (sim_get_info s q))) ! i))) False = Inr r \<and>
    print_response DEVMGR_MSG_GET_INFO r t = [Device_info (sm_device_id s) (ascii ''STM32-SIM'') (ascii ''HW-1.0'')
      (sm_firmware_version s) (ascii ''BL-1.0.0'') (ascii ''SIM00000001'')]"
proof -
  let ?f = "sim_get_info s q" and ?p = "fr_payload (sim_get_info s q)"
  have f: "fr_payload_length ?f = of_nat (length ?p)" "\<not> refusal ?f"
    using assms(3) by (simp_all add: sim_get_info_def Let_def refusal_def)
  have n: "4 \<le> length ?p" "length ?p \<le> 100" using sim_get_info_payload [OF assms(5), of q] assms(5) by (simp_all add: ascii_def)
  have u: "unat (of_nat (length ?p) :: u16) = length ?p" "unat (of_nat (length ?p) :: u32) = length ?p"
    using n(2) by (simp_all add: unat_of_nat)
  let ?r = "\<lparr>rs_command = DEVMGR_MSG_GET_INFO, rs_status = status_word DEVMGR_OK, rs_payload_length = of_nat (length ?p), rs_payload = ?p\<rparr>"
  have "cl_output (cx_clients (snd (client_response env ctx DEVMGR_MSG_GET_INFO ?f)) ! i) = response_wire ?r"
    using queue_client_response_output [of i "ctx\<lparr>cx_active_client := -1\<rparr>" "length ?p" "Some ?p" env DEVMGR_MSG_GET_INFO DEVMGR_OK]
      assms(1,2) n(2) f u by (simp add: client_response_def Let_def)
  moreover have "response_wf ?r" using n(2) u(2) by (simp add: response_wf_def)
  moreover have "(4 :: u32) \<le> of_nat (length ?p)" using n(1) u(2) by (simp add: word_le_nat_alt)
  moreover have "info_line ?p = Device_info (sm_device_id s) (ascii ''STM32-SIM'') (ascii ''HW-1.0'')
      (sm_firmware_version s) (ascii ''BL-1.0.0'') (ascii ''SIM00000001'')"
    unfolding sim_get_info_payload [OF assms(5)] by (rule info_line_strings) (use assms(4) in \<open>simp_all add: ascii_def\<close>)
  ultimately show ?thesis
    by (intro exI [of _ ?r]) (simp add: decode_response_wire print_response_def)
qed

theorem devctl_shows_device_info_witness:
  "\<exists>r. print_response DEVMGR_MSG_GET_INFO r 0 = [Device_info 0 (ascii ''STM32-SIM'') (ascii ''HW-1.0'') []
      (ascii ''BL-1.0.0'') (ascii ''SIM00000001'')]"
proof -
  let ?ctx = "sample_context\<lparr>cx_active_client := int 0\<rparr>"
  have "\<exists>r. devmgr_ipc_decode_response (Some (cl_output (cx_clients (snd
        (client_response sample_env ?ctx DEVMGR_MSG_GET_INFO (sim_get_info zero_simulator (request_frame DEVMGR_MSG_GET_INFO 0 [])))) ! 0))) False = Inr r \<and>
    print_response DEVMGR_MSG_GET_INFO r 0 = [Device_info (sm_device_id zero_simulator) (ascii ''STM32-SIM'') (ascii ''HW-1.0'')
      (sm_firmware_version zero_simulator) (ascii ''BL-1.0.0'') (ascii ''SIM00000001'')]"
    by (rule devctl_shows_device_info)
       (simp_all add: sample_context_def fresh_context_def request_frame_def zero_simulator_def)
  then show ?thesis by (auto simp: zero_simulator_def)
qed

text \<open>The round-trip time printed for a ping is the exact difference of the two clock readings.\<close>

lemma elapsed_ns_exact:
  assumes "before = (s, n)" "after = (s', n')" "0 \<le> (s' - s) * 10 ^ 9 + (n' - n)" "(s' - s) * 10 ^ 9 + (n' - n) < 2 ^ 64"
  shows "uint (elapsed_ns before after) = (s' - s) * 10 ^ 9 + (n' - n)"
proof -
  define d where "d = (s' - s) * 10 ^ 9 + (n' - n)"
  have "elapsed_ns before after = of_int d" using assms(1,2) by (simp add: elapsed_ns_def Let_def d_def)
  moreover have "uint (of_int d :: u64) = d" using assms(3,4) unfolding d_def [symmetric] by (simp add: uint_word_of_int)
  ultimately show ?thesis by (simp add: d_def)
qed

end
