(* ===== verification/Apps.thy ===== *)
theory Apps
  imports Devctl
begin

section \<open>The programs of the daemon and the simulator (src/apps/devmgrd/main.c, src/apps/device-sim/main.c)\<close>

text \<open>
  The options \<open>getopt_long\<close> returns and the number of operands it leaves are arguments, and so is
  \<open>strtod\<close>: its value, \<open>None\<close> when it is not finite, and the bytes it consumed. The programs return
  their exit code, \<open>None\<close> while they run.
\<close>

subsection \<open>devmgrd\<close>

fun devmgrd_options :: "(char \<times> bytes) list \<Rightarrow> devmgr_daemon_config \<Rightarrow> int + devmgr_daemon_config" where
  "devmgrd_options [] config = Inr config"
| "devmgrd_options ((opt, arg) # opts) config =
    (if opt = CHR ''d'' then devmgrd_options opts (config\<lparr>dc_device_path := Some arg\<rparr>)
     else if opt = CHR ''s'' then devmgrd_options opts (config\<lparr>dc_socket_path := Some arg\<rparr>)
     else if opt = CHR ''h'' then Inl 0
     else Inl 2)"

definition devmgrd_main ::
  "u32 \<Rightarrow> (char \<times> bytes) list \<Rightarrow> nat \<Rightarrow> daemon_env \<Rightarrow> setup_env \<Rightarrow> wait_result list \<Rightarrow> thread_action list \<Rightarrow>
   unit sysret list \<Rightarrow> (int \<times> daemon_effect list) option" where
  "devmgrd_main uid opts operands env senv waits acts closes =
    (case devmgrd_options opts \<lparr>dc_device_path = None, dc_socket_path = Some (default_socket uid)\<rparr> of
       Inl code \<Rightarrow> Some (code, [])
     | Inr config \<Rightarrow>
         if dc_device_path config = None \<or> operands \<noteq> 0 then Some (2, [])
         else map_option (\<lambda>(result, es). (if result = DEVMGR_OK then 0 else 1, es))
                (devmgr_daemon_run env senv (Some config) waits acts closes))"

subsection \<open>device-sim\<close>

text \<open>The configuration while options are read: a rate may still be infinite or not a number.\<close>

record sim_options =
  op_drop_rate :: "rat option"
  op_corrupt_rate :: "rat option"
  op_response_delay_ms :: u32
  op_disconnect_at_percent :: int
  op_fail_verify :: bool
  op_random_seed :: u32

abbreviation (input) INT_MAX :: int where "INT_MAX \<equiv> 2 ^ 31 - 1"
abbreviation (input) INT_MIN :: int where "INT_MIN \<equiv> - (2 ^ 31)"

text \<open>One option: \<open>Inl\<close> the exit code, or the new configuration.\<close>

definition sim_option :: "(bytes \<Rightarrow> rat option \<times> nat) \<Rightarrow> char \<times> bytes \<Rightarrow> sim_options \<Rightarrow> int + sim_options" where
  "sim_option strtod = (\<lambda>(opt, arg) config.
    let parsed = (\<lambda>n c. if n = 0 \<or> n \<noteq> length arg then Inl 2 else Inr c) in
    if opt = CHR ''d'' then (case strtod arg of (x, n) \<Rightarrow> parsed n (config\<lparr>op_drop_rate := x\<rparr>))
    else if opt = CHR ''c'' then (case strtod arg of (x, n) \<Rightarrow> parsed n (config\<lparr>op_corrupt_rate := x\<rparr>))
    else if opt = CHR ''l'' then
      (case strtoul arg of (value, n) \<Rightarrow>
         if value > UINT32_MAX then Inl 2 else parsed n (config\<lparr>op_response_delay_ms := of_nat value\<rparr>))
    else if opt = CHR ''x'' then
      (case strtol arg of (value, n) \<Rightarrow>
         if value < INT_MIN \<or> value > INT_MAX then Inl 2 else parsed n (config\<lparr>op_disconnect_at_percent := value\<rparr>))
    else if opt = CHR ''v'' then Inr (config\<lparr>op_fail_verify := True\<rparr>)
    else if opt = CHR ''s'' then
      (case strtoul arg of (value, n) \<Rightarrow>
         if value > UINT32_MAX then Inl 2 else parsed n (config\<lparr>op_random_seed := of_nat value\<rparr>))
    else if opt = CHR ''h'' then Inl 0
    else Inl 2)"

fun read_sim_options :: "(bytes \<Rightarrow> rat option \<times> nat) \<Rightarrow> (char \<times> bytes) list \<Rightarrow> sim_options \<Rightarrow> int + sim_options" where
  "read_sim_options strtod [] config = Inr config"
| "read_sim_options strtod (x # opts) config =
    (case sim_option strtod x config of Inl code \<Rightarrow> Inl code | Inr c \<Rightarrow> read_sim_options strtod opts c)"

definition rate_ok :: "rat option \<Rightarrow> bool" where
  "rate_ok x = (case x of None \<Rightarrow> False | Some r \<Rightarrow> \<not> r < 0 \<and> \<not> r > 1)"

text \<open>The configuration the program starts the simulator with, or its exit code.\<close>

definition device_sim_config ::
  "(bytes \<Rightarrow> rat option \<times> nat) \<Rightarrow> (char \<times> bytes) list \<Rightarrow> nat \<Rightarrow> int + simulator_config" where
  "device_sim_config strtod opts operands =
    (case read_sim_options strtod opts \<lparr>op_drop_rate = Some 0, op_corrupt_rate = Some 0, op_response_delay_ms = 0,
            op_disconnect_at_percent = -1, op_fail_verify = False, op_random_seed = 0\<rparr> of
       Inl code \<Rightarrow> Inl code
     | Inr c \<Rightarrow>
         if operands \<noteq> 0 \<or> \<not> rate_ok (op_drop_rate c) \<or> \<not> rate_ok (op_corrupt_rate c) \<or>
            op_response_delay_ms c > 60000 \<or> op_disconnect_at_percent c < -1 \<or> op_disconnect_at_percent c > 100
         then Inl 2
         else Inr \<lparr>sc_drop_rate = the (op_drop_rate c), sc_corrupt_rate = the (op_corrupt_rate c),
                   sc_response_delay_ms = op_response_delay_ms c, sc_disconnect_at_percent = op_disconnect_at_percent c,
                   sc_fail_verify = op_fail_verify c, sc_random_seed = op_random_seed c\<rparr>)"

text \<open>
  Exit code, the path printed for the user, the bytes written to the line, the simulator's state in
  the end, and the descriptors closed.
\<close>

definition device_sim_main ::
  "(bytes \<Rightarrow> rat option \<times> nat) \<Rightarrow> (char \<times> bytes) list \<Rightarrow> nat \<Rightarrow> pty_env \<Rightarrow> timespec \<Rightarrow> sim_iter list \<Rightarrow>
   (int \<times> bytes \<times> bytes \<times> simulator_state ptr \<times> file_effect list) option" where
  "device_sim_main strtod opts operands pty started_at its =
    (case device_sim_config strtod opts operands of
       Inl code \<Rightarrow> Some (code, [], [], None, [])
     | Inr config \<Rightarrow>
         (case devmgr_pty_create pty (-1) [] 256 of
            (result, master_fd, slave_path, es) \<Rightarrow>
              if result \<noteq> DEVMGR_OK then Some (1, [], [], None, es)
              else
                (case simulator_init master_fd (Some config) started_at zero_simulator of
                   (result, s) \<Rightarrow>
                     if result \<noteq> DEVMGR_OK then Some (1, slave_path, [], simulator_cleanup (Some s), es @ [Closed (nat master_fd)])
                     else
                       (case simulator_run its s of
                          (None, _, _) \<Rightarrow> None
                        | (Some result, s', out) \<Rightarrow>
                            Some (if result = DEVMGR_OK then 0 else 1, slave_path, out, simulator_cleanup (Some s'),
                                  es @ [Closed (nat master_fd)])))))"

subsection \<open>What reaches the simulator\<close>

lemma sim_option_numbers:
  "n \<le> UINT32_MAX \<Longrightarrow> sim_option strtod (CHR ''l'', decimal n) c = Inr (c\<lparr>op_response_delay_ms := of_nat n\<rparr>)"
  "n \<le> UINT32_MAX \<Longrightarrow> sim_option strtod (CHR ''s'', decimal n) c = Inr (c\<lparr>op_random_seed := of_nat n\<rparr>)"
  "n \<le> 2 ^ 31 - 1 \<Longrightarrow> sim_option strtod (CHR ''x'', decimal n) c = Inr (c\<lparr>op_disconnect_at_percent := int n\<rparr>)"
  using strtoul_decimal [of n] strtol_decimal(1) [of n] decimal_digits [of n] by (simp_all add: sim_option_def)

lemma read_sim_options_exit:
  "read_sim_options strtod opts c = Inl code \<Longrightarrow> CHR ''h'' \<notin> fst ` set opts \<Longrightarrow> code = 2"
proof (induction strtod opts c rule: read_sim_options.induct)
  case (2 strtod x opts c)
  have "sim_option strtod x c = Inl code \<Longrightarrow> code = 2"
    using 2(3) by (cases x) (auto simp: sim_option_def Let_def split: if_splits prod.splits)
  then show ?case using 2 by (auto split: sum.splits)
qed simp

lemma device_sim_config_exit:
  assumes "device_sim_config strtod opts operands = Inl code" "CHR ''h'' \<notin> fst ` set opts"
  shows "code = 2"
  using assms read_sim_options_exit [OF _ assms(2)]
  by (auto simp: device_sim_config_def split: sum.splits if_splits)

definition config_ok :: "simulator_config \<Rightarrow> bool" where
  "config_ok c \<longleftrightarrow> 0 \<le> sc_drop_rate c \<and> sc_drop_rate c \<le> 1 \<and> 0 \<le> sc_corrupt_rate c \<and> sc_corrupt_rate c \<le> 1 \<and>
     sc_response_delay_ms c \<le> 60000 \<and> -1 \<le> sc_disconnect_at_percent c \<and> sc_disconnect_at_percent c \<le> 100"

lemma device_sim_config_ok: "device_sim_config strtod opts operands = Inr c \<Longrightarrow> config_ok c"
  by (auto simp: device_sim_config_def config_ok_def rate_ok_def not_less split: sum.splits if_splits option.splits)

lemma pty_create_ok:
  assumes "devmgr_pty_create pty m p 256 = (result, fd, path, es)"
  shows "result = DEVMGR_OK \<Longrightarrow> es = [] \<and> 0 \<le> fd \<and> fst (retry_eintr (py_openpt pty)) = Inr (nat fd)"
    "result \<noteq> DEVMGR_OK \<Longrightarrow> es = (case fst (retry_eintr (py_openpt pty)) of Inl _ \<Rightarrow> [] | Inr fd \<Rightarrow> [Closed fd])"
  using assms by (auto simp: devmgr_pty_create_def split: if_splits sum.splits option.splits)

lemma simulator_init_ok: "0 \<le> fd \<Longrightarrow> fst (simulator_init fd cfg t old) = DEVMGR_OK"
  using parser_init_ready [of "sm_parser old"]
  by (auto simp: simulator_init_def Let_def split: option.split prod.split)


definition sample_pty :: pty_env where
  "sample_pty = \<lparr>py_openpt = [Inl EINTR, Inr 4], py_grantpt_ok = True, py_unlockpt_ok = True, py_ptsname = Some (ascii ''/dev/pts/1'')\<rparr>"


subsection \<open>devmgrd and devctl meet\<close>

lemma devmgrd_options_socket:
  "devmgrd_options opts config = Inr config' \<Longrightarrow> CHR ''s'' \<notin> fst ` set opts \<Longrightarrow> dc_socket_path config' = dc_socket_path config"
  by (induction opts config rule: devmgrd_options.induct) (auto split: if_splits)

lemma devctl_options_socket: "devctl_options opts path = Inr path' \<Longrightarrow> CHR ''s'' \<notin> fst ` set opts \<Longrightarrow> path' = path"
  by (induction opts path rule: devctl_options.induct) (auto split: if_splits)

text \<open>
  Run by the same user without \<open>--socket\<close>, the daemon binds the path the client connects to, and
  both accept its length.
\<close>

lemma default_socket_agrees:
  assumes "devmgrd_options opts \<lparr>dc_device_path = None, dc_socket_path = Some (default_socket uid)\<rparr> = Inr config"
    and "devctl_options opts' (default_socket uid) = Inr path"
    and "CHR ''s'' \<notin> fst ` set opts" and "CHR ''s'' \<notin> fst ` set opts'"
  shows "dc_socket_path config = Some path" "0 < length path" "length path < 108"
  using devmgrd_options_socket [OF assms(1,3)] devctl_options_socket [OF assms(2,4)] default_socket_fits [of uid] by auto

lemma devmgrd_options_exit: "devmgrd_options opts config = Inl code \<Longrightarrow> CHR ''h'' \<notin> fst ` set opts \<Longrightarrow> code = 2"
  by (induction opts config rule: devmgrd_options.induct) (auto split: if_splits)

lemma devmgrd_main_success:
  assumes "devmgrd_main uid opts operands env senv waits acts closes = Some (0, es)" "CHR ''h'' \<notin> fst ` set opts"
  obtains config where "dc_device_path config \<noteq> None" "operands = 0"
    "devmgr_daemon_run env senv (Some config) waits acts closes = Some (DEVMGR_OK, es)"
proof -
  obtain config where c: "devmgrd_options opts \<lparr>dc_device_path = None, dc_socket_path = Some (default_socket uid)\<rparr> = Inr config"
    using assms devmgrd_options_exit [OF _ assms(2)]
    by (cases "devmgrd_options opts \<lparr>dc_device_path = None, dc_socket_path = Some (default_socket uid)\<rparr>") (fastforce simp: devmgrd_main_def)+
  show thesis using assms(1) c by (auto simp: devmgrd_main_def intro!: that [of config] split: if_splits)
qed

end
