(* ===== verification/Daemon_End.thy ===== *)
theory Daemon_End
  imports Devctl
begin

section \<open>How the daemon ends\<close>

text \<open>
  What \<open>cleanup_context\<close> of \<open>src/apps/devmgrd/daemon.c\<close> releases, and what happens to requests
  whose client or whose device is gone.
\<close>

subsection \<open>Releasing everything\<close>

abbreviation closed_fds :: "int list \<Rightarrow> file_effect list" where
  "closed_fds fds \<equiv> map (\<lambda>fd. Closed (nat fd)) (filter (\<lambda>fd. 0 \<le> fd) fds)"

lemma close_client_parts:
  "cx_effects (close_client ctx i) = cx_effects ctx @ map Released (closed_fds [cl_fd (cx_clients ctx ! i)])"
  "j \<noteq> i \<Longrightarrow> cx_clients (close_client ctx i) ! j = cx_clients ctx ! j"
  "length (cx_clients (close_client ctx i)) = length (cx_clients ctx)"
  "cx_signal_fd (close_client ctx i) = cx_signal_fd ctx" "cx_timer_fd (close_client ctx i) = cx_timer_fd ctx"
  "cx_epoll_fd (close_client ctx i) = cx_epoll_fd ctx" "cx_listen_fd (close_client ctx i) = cx_listen_fd ctx"
  "cx_transport (close_client ctx i) = cx_transport ctx" "cx_worker (close_client ctx i) = cx_worker ctx"
  "cx_thread (close_client ctx i) = cx_thread ctx" "cx_firmware (close_client ctx i) = cx_firmware ctx"
  "cx_socket_path (close_client ctx i) = cx_socket_path ctx"
  "i < length (cx_clients ctx) \<Longrightarrow> cl_fd (cx_clients (close_client ctx i) ! i) < 0"
  by (auto simp: close_client_def release_def set_client_def Let_def)

lemma close_clients_effects:
  "distinct is \<Longrightarrow> cx_effects (fold (\<lambda>i c. close_client c i) is ctx) =
      cx_effects ctx @ map Released (closed_fds (map (\<lambda>i. cl_fd (cx_clients ctx ! i)) is))"
proof (induction "is" arbitrary: ctx)
  case (Cons i "is")
  have e: "map (\<lambda>j. cl_fd (cx_clients (close_client ctx i) ! j)) is = map (\<lambda>j. cl_fd (cx_clients ctx ! j)) is"
    by (intro map_cong refl arg_cong [of _ _ cl_fd] close_client_parts(2)) (use Cons.prems in auto)
  show ?case using Cons by (simp add: close_client_parts(1) e)
qed simp

lemma close_clients_parts:
  "cx_transport (fold (\<lambda>i c. close_client c i) is ctx) = cx_transport ctx"
  "cx_worker (fold (\<lambda>i c. close_client c i) is ctx) = cx_worker ctx"
  "cx_thread (fold (\<lambda>i c. close_client c i) is ctx) = cx_thread ctx"
  "cx_firmware (fold (\<lambda>i c. close_client c i) is ctx) = cx_firmware ctx"
  "cx_socket_path (fold (\<lambda>i c. close_client c i) is ctx) = cx_socket_path ctx"
  by (induction "is" arbitrary: ctx) (simp_all add: close_client_parts)

lemma close_fd_parts:
  "cx_effects (close_fd fd ctx) = cx_effects ctx @ map Released (closed_fds [fd])" "cx_transport (close_fd fd ctx) = cx_transport ctx"
  "cx_worker (close_fd fd ctx) = cx_worker ctx" "cx_thread (close_fd fd ctx) = cx_thread ctx"
  "cx_firmware (close_fd fd ctx) = cx_firmware ctx" "cx_socket_path (close_fd fd ctx) = cx_socket_path ctx"
  by (simp_all add: close_fd_def release_def)

lemma thread_acts_fd: "wk_event_fd (fst (thread_acts a s)) = wk_event_fd (fst s)"
  by (cases "(a, s)" rule: thread_acts.cases)
     (auto simp: worker_wake_def worker_post_def split: option.splits if_splits)

lemma thread_run_fd: "wk_event_fd (fst (fold thread_acts acts s)) = wk_event_fd (fst s)"
  by (induction acts arbitrary: s) (simp_all add: thread_acts_fd)

text \<open>What the worker has left when its thread has run to its end.\<close>

definition worker_effects :: "thread_action list \<Rightarrow> daemon_context \<Rightarrow> file_effect list" where
  "worker_effects acts ctx =
    (if \<not> wk_initialized (cx_worker ctx) then []
     else let w = fst (fold thread_acts acts (worker_stop (cx_worker ctx), cx_thread ctx)) in
       (if wk_result_pending w then snd (devmgr_firmware_close (vr_image (wk_result w))) else []) @
       [Closed (nat (wk_event_fd (cx_worker ctx)))])"

lemma worker_destroy_parts:
  "cx_effects (devmgr_worker_destroy acts ctx) = cx_effects ctx @ map Released (worker_effects acts ctx)"
  "cx_firmware (devmgr_worker_destroy acts ctx) = cx_firmware ctx" "cx_socket_path (devmgr_worker_destroy acts ctx) = cx_socket_path ctx"
  using thread_run_fd [of acts "(worker_stop (cx_worker ctx), cx_thread ctx)"]
  by (auto simp: devmgr_worker_destroy_def worker_effects_def run_thread_def worker_joined_def release_def Let_def worker_stop_def
      split: prod.splits)

lemma worker_effects_cong:
  "cx_worker a = cx_worker b \<Longrightarrow> cx_thread a = cx_thread b \<Longrightarrow> worker_effects acts a = worker_effects acts b"
  by (simp add: worker_effects_def)

lemma close_firmware_parts:
  "cx_effects (close_firmware ctx) = cx_effects ctx @ map Released (snd (devmgr_firmware_close (cx_firmware ctx)))"
  "cx_socket_path (close_firmware ctx) = cx_socket_path ctx"
  by (simp_all add: close_firmware_def release_def split: prod.splits)

lemma cleanup_effects:
  assumes "length (cx_clients ctx) = MAX_CLIENTS"
  shows "cx_effects (cleanup_context acts closes ctx) = cx_effects ctx @ map Released (
      closed_fds (map cl_fd (cx_clients ctx)) @
      closed_fds [cx_signal_fd ctx, cx_timer_fd ctx, cx_epoll_fd ctx, cx_listen_fd ctx] @
      snd (devmgr_transport_close closes (cx_transport ctx)) @ worker_effects acts ctx @
      snd (devmgr_firmware_close (cx_firmware ctx))) @
    (case cx_socket_path ctx of None \<Rightarrow> [] | Some path \<Rightarrow> [Unlinked path])"
proof -
  let ?c1 = "fold (\<lambda>i c. close_client c i) [0..<MAX_CLIENTS] ctx"
  let ?c2 = "close_fd (cx_listen_fd ctx) (close_fd (cx_epoll_fd ctx) (close_fd (cx_timer_fd ctx) (close_fd (cx_signal_fd ctx) ?c1)))"
  obtain t es where t: "devmgr_transport_close closes (cx_transport ctx) = (t, es)" by (rule prod.exhaust)
  let ?c3 = "release es (?c2\<lparr>cx_transport := t\<rparr>)"
  have "map (\<lambda>i. cl_fd (cx_clients ctx ! i)) [0..<MAX_CLIENTS] = map cl_fd (cx_clients ctx)"
    using assms by (intro nth_equalityI) simp_all
  then have "cx_effects ?c1 = cx_effects ctx @ map Released (closed_fds (map cl_fd (cx_clients ctx)))"
    using close_clients_effects [of "[0..<MAX_CLIENTS]" ctx] by (simp del: upt_Suc)
  then have c3: "cx_effects ?c3 = cx_effects ctx @ map Released (closed_fds (map cl_fd (cx_clients ctx)) @
      closed_fds [cx_signal_fd ctx, cx_timer_fd ctx, cx_epoll_fd ctx, cx_listen_fd ctx] @ es)"
    by (simp add: close_fd_parts release_def)
  have w: "worker_effects acts ?c3 = worker_effects acts ctx"
    by (rule worker_effects_cong) (simp_all add: release_def close_fd_parts close_clients_parts)
  have f: "cx_firmware ?c3 = cx_firmware ctx" "cx_socket_path ?c3 = cx_socket_path ctx" "cx_transport ?c2 = cx_transport ctx"
    by (simp_all add: release_def close_fd_parts close_clients_parts)
  have "cleanup_context acts closes ctx = (let c4 = close_firmware (devmgr_worker_destroy acts ?c3) in
      case cx_socket_path c4 of None \<Rightarrow> c4 | Some path \<Rightarrow> c4\<lparr>cx_effects := cx_effects c4 @ [Unlinked path]\<rparr>)"
    unfolding cleanup_context_def Let_def f(3) t prod.case ..
  moreover have "cx_effects (close_firmware (devmgr_worker_destroy acts ?c3)) =
      cx_effects ?c3 @ map Released (worker_effects acts ctx @ snd (devmgr_firmware_close (cx_firmware ctx)))"
    unfolding close_firmware_parts worker_destroy_parts w f by simp
  moreover have "cx_socket_path (close_firmware (devmgr_worker_destroy acts ?c3)) = cx_socket_path ctx"
    unfolding close_firmware_parts worker_destroy_parts f ..
  ultimately show ?thesis unfolding c3 t by (simp add: Let_def split: option.splits)
qed



subsection \<open>Clients that wait for the device\<close>

lemma queue_client_response_parts:
  "cx_active_client (snd (queue_client_response env ctx i command status payload n)) = cx_active_client ctx"
  "cx_session (snd (queue_client_response env ctx i command status payload n)) = cx_session ctx"
  by (simp_all add: queue_client_response_def epoll_update_def set_client_def Let_def split: sum.split)

lemma transition_stream_pending:
  "se_pending (snd (devmgr_session_transition se DEVMGR_SESSION_START_STREAM)) = se_pending se"
  "se_pending (snd (devmgr_session_transition se DEVMGR_SESSION_STOP_STREAM)) = se_pending se"
  by (simp_all add: devmgr_session_transition_def Let_def split: devmgr_device_state.split)

lemma client_response_answers:
  assumes "cx_active_client ctx = int i" "i < length (cx_clients ctx)" "frame_wf r"
  shows "cl_output (cx_clients (snd (client_response env ctx t r)) ! i) =
      response_wire \<lparr>rs_command = t, rs_status = status_word (if refusal r then DEVMGR_ERROR_PROTOCOL else DEVMGR_OK),
        rs_payload_length = of_nat (length (fr_payload r)), rs_payload = fr_payload r\<rparr>"
    "cx_active_client (snd (client_response env ctx t r)) = -1"
    "pe_active (se_pending (cx_session (snd (client_response env ctx t r)))) = pe_active (se_pending (cx_session ctx))"
proof -
  have n: "unat (fr_payload_length r) = length (fr_payload r)" "length (fr_payload r) \<le> 4096"
    using assms(3) by (simp_all add: frame_wf_def)
  obtain c where c: "client_response env ctx t r = queue_client_response env c i t
      (if refusal r then DEVMGR_ERROR_PROTOCOL else DEVMGR_OK) (Some (fr_payload r)) (length (fr_payload r))"
    "cx_clients c = cx_clients ctx" "cx_active_client c = -1"
    using assms(1) n(1) by (auto simp: client_response_def Let_def session_event_def)
  show "cl_output (cx_clients (snd (client_response env ctx t r)) ! i) =
      response_wire \<lparr>rs_command = t, rs_status = status_word (if refusal r then DEVMGR_ERROR_PROTOCOL else DEVMGR_OK),
        rs_payload_length = of_nat (length (fr_payload r)), rs_payload = fr_payload r\<rparr>"
    using queue_client_response_output [of i c "length (fr_payload r)" "Some (fr_payload r)" env t] assms(2) c(1,2) n(2) by simp
  show "cx_active_client (snd (client_response env ctx t r)) = -1"
    using c by (simp add: queue_client_response_parts)
  show "pe_active (se_pending (cx_session (snd (client_response env ctx t r)))) = pe_active (se_pending (cx_session ctx))"
    using transition_stream_pending [of "cx_session ctx"] by (simp add: client_response_def Let_def queue_client_response_parts session_event_def)
qed

text \<open>
  C17. A client that waits for the device is answered. The next response the session accepts goes to
  this client, with the type of its request, the payload of the frame and a status that tells a
  refusal apart; if the last retransmission runs out first, the client gets a timeout. In both cases
  the daemon has no waiting client and no pending request any more.
\<close>

theorem waiting_client_answered:
  assumes "daemon_inv ctx" and "cx_active_client ctx = int i"
  shows "(frame_wf r \<longrightarrow> fst (devmgr_session_accept_response (cx_session ctx) r) = DEVMGR_OK \<longrightarrow>
      (let ctx' = snd (on_device_frame env r ctx) in
       cl_output (cx_clients ctx' ! i) = response_wire \<lparr>rs_command = fr_type (pe_frame (se_pending (cx_session ctx))),
           rs_status = status_word (if refusal r then DEVMGR_ERROR_PROTOCOL else DEVMGR_OK),
           rs_payload_length = of_nat (length (fr_payload r)), rs_payload = fr_payload r\<rparr> \<and>
       cx_active_client ctx' = -1 \<and> \<not> pe_active (se_pending (cx_session ctx')))) \<and>
    (pe_deadline_ns (se_pending (cx_session ctx)) \<le> fst (monotonic_ns env ctx) \<longrightarrow>
     max_retries (pe_policy (se_pending (cx_session ctx))) \<le> pe_retries_done (se_pending (cx_session ctx)) \<longrightarrow>
      (let ctx' = snd (handle_timer env ctx) in
       cl_output (cx_clients ctx' ! i) = response_wire \<lparr>rs_command = 0, rs_status = status_word DEVMGR_ERROR_TIMEOUT,
           rs_payload_length = 0, rs_payload = []\<rparr> \<and>
       cx_active_client ctx' = -1 \<and> \<not> pe_active (se_pending (cx_session ctx'))))"
proof -
  have w: "i < length (cx_clients ctx)" "pe_active (se_pending (cx_session ctx))" "\<not> devmgr_upgrade_active (cx_upgrade ctx)"
    "se_state (cx_session ctx) = DEVMGR_DEVICE_READY \<or> se_state (cx_session ctx) = DEVMGR_DEVICE_STREAMING"
    using daemon_invD(3) [OF assms(1)] assms(2) by (auto simp: waiting_ok_def)
  show ?thesis
  proof (intro conjI impI)
    assume r: "frame_wf r" "fst (devmgr_session_accept_response (cx_session ctx) r) = DEVMGR_OK"
    obtain se where se: "devmgr_session_accept_response (cx_session ctx) r = (DEVMGR_OK, se)" using r(2) by (metis prod.collapse)
    have s: "\<not> pe_active (se_pending se)" "se_state se = se_state (cx_session ctx)" "fr_sequence r = fr_sequence (pe_frame (se_pending (cx_session ctx)))"
      using se w(2) by (auto simp: devmgr_session_accept_response_def Let_def split: if_splits)
    have "fr_sequence r \<noteq> 0" using daemon_invD(1) [OF assms(1)] w(2) s(3) by (simp add: session_inv_def)
    then have "on_device_frame env r ctx = client_response env (ctx\<lparr>cx_session := se\<rparr>) (fr_type (pe_frame (se_pending (cx_session ctx)))) r"
      using se s(2) w(3,4) assms(2) by (auto simp: on_device_frame_def)
    then show "let ctx' = snd (on_device_frame env r ctx) in
       cl_output (cx_clients ctx' ! i) = response_wire \<lparr>rs_command = fr_type (pe_frame (se_pending (cx_session ctx))),
           rs_status = status_word (if refusal r then DEVMGR_ERROR_PROTOCOL else DEVMGR_OK),
           rs_payload_length = of_nat (length (fr_payload r)), rs_payload = fr_payload r\<rparr> \<and>
       cx_active_client ctx' = -1 \<and> \<not> pe_active (se_pending (cx_session ctx'))"
      using client_response_answers [of "ctx\<lparr>cx_session := se\<rparr>" i r env] assms(2) w(1) r(1) s(1) by (simp add: Let_def)
  next
    assume t: "pe_deadline_ns (se_pending (cx_session ctx)) \<le> fst (monotonic_ns env ctx)"
      "max_retries (pe_policy (se_pending (cx_session ctx))) \<le> pe_retries_done (se_pending (cx_session ctx))"
    let ?se = "(cx_session ctx)\<lparr>se_pending := (se_pending (cx_session ctx))\<lparr>pe_active := False\<rparr>,
      se_stats := (se_stats (cx_session ctx))\<lparr>ss_timeouts := ss_timeouts (se_stats (cx_session ctx)) + 1\<rparr>\<rparr>"
    let ?c = "(snd (monotonic_ns env ctx))\<lparr>cx_session := ?se, cx_active_client := -1\<rparr>"
    have "devmgr_session_tick (cx_session ctx) (fst (monotonic_ns env ctx)) (retransmit_frame env) c = (DEVMGR_ERROR_TIMEOUT, ?se, c)" for c
      using w(2) t by (simp add: devmgr_session_tick_def Let_def not_less)
    then have "handle_timer env ctx = queue_client_response env ?c i 0 DEVMGR_ERROR_TIMEOUT None 0"
      using w(3) assms(2) by (simp add: handle_timer_def monotonic_ns_def Let_def)
    then show "let ctx' = snd (handle_timer env ctx) in
       cl_output (cx_clients ctx' ! i) = response_wire \<lparr>rs_command = 0, rs_status = status_word DEVMGR_ERROR_TIMEOUT,
           rs_payload_length = 0, rs_payload = []\<rparr> \<and>
       cx_active_client ctx' = -1 \<and> \<not> pe_active (se_pending (cx_session ctx'))"
      using queue_client_response_output [of i ?c 0 None env 0 DEVMGR_ERROR_TIMEOUT] w(1)
      by (simp add: Let_def queue_client_response_parts monotonic_ns_def)
  qed
qed

text \<open>A daemon whose first client waits for the answer to its ping.\<close>

definition waiting_context :: daemon_context where
  "waiting_context = (fresh_context sample_config)\<lparr>cx_parser := snd (devmgr_parser_init zero_parser),
     cx_clients := (zero_client\<lparr>cl_fd := 11\<rparr>) # replicate 15 (zero_client\<lparr>cl_fd := -1\<rparr>), cx_active_client := int 0,
     cx_session := devmgr_session_init\<lparr>se_state := DEVMGR_DEVICE_READY, se_next_sequence := 2,
       se_pending := zero_pending\<lparr>pe_active := True, pe_frame := (request_frame DEVMGR_MSG_PING 0 [])\<lparr>fr_sequence := 1\<rparr>,
         pe_policy := \<lparr>timeout_ms = 1000, retry_interval_ms = 500, max_retries = 0\<rparr>\<rparr>\<rparr>\<rparr>"

lemma waiting_context_inv: "daemon_inv waiting_context"
proof (rule daemon_invI)
  show "session_inv (cx_session waiting_context)"
    by (simp add: waiting_context_def session_inv_def devmgr_session_init_def zero_pending_def request_frame_def frame_wf_def next_seq_def)
  show "parser_inv (cx_parser waiting_context)"
    using parser_init_ready [of zero_parser] by (simp add: waiting_context_def parser_ready_def)
qed (simp_all add: waiting_context_def fresh_context_def upgrade_ok_def waiting_ok_def mailbox_ok_def io_ok_def client_ok_def
       zero_client_def zero_image_def working_def devmgr_upgrade_active_def devmgr_upgrade_init_def devmgr_session_init_def zero_worker_def)

theorem waiting_client_answered_witness:
  "cl_output (cx_clients (snd (handle_timer sample_env waiting_context)) ! 0) = response_wire \<lparr>rs_command = 0,
       rs_status = status_word DEVMGR_ERROR_TIMEOUT, rs_payload_length = 0, rs_payload = []\<rparr> \<and>
   cl_output (cx_clients (snd (on_device_frame sample_env ((request_frame DEVMGR_MSG_PING 1 [7])\<lparr>fr_sequence := 1, fr_flags := DEVMGR_FRAME_RESPONSE\<rparr>) waiting_context)) ! 0) =
     response_wire \<lparr>rs_command = DEVMGR_MSG_PING, rs_status = status_word DEVMGR_OK, rs_payload_length = 1, rs_payload = [7]\<rparr>"
proof -
  let ?r = "(request_frame DEVMGR_MSG_PING 1 [7])\<lparr>fr_sequence := 1, fr_flags := DEVMGR_FRAME_RESPONSE\<rparr>"
  have a: "cx_active_client waiting_context = int 0" by (simp add: waiting_context_def)
  have p: "fr_type (pe_frame (se_pending (cx_session waiting_context))) = DEVMGR_MSG_PING"
    "fst (devmgr_session_accept_response (cx_session waiting_context) ?r) = DEVMGR_OK" "frame_wf ?r" "\<not> refusal ?r"
    by (simp_all add: waiting_context_def request_frame_def devmgr_session_accept_response_def frame_wf_def refusal_def Let_def)
  have t: "pe_deadline_ns (se_pending (cx_session waiting_context)) \<le> fst (monotonic_ns sample_env waiting_context)"
    "max_retries (pe_policy (se_pending (cx_session waiting_context))) \<le> pe_retries_done (se_pending (cx_session waiting_context))"
    by (simp_all add: waiting_context_def zero_pending_def)
  show ?thesis
    using waiting_client_answered [OF waiting_context_inv a, of ?r sample_env] p t by (simp add: Let_def request_frame_def)
qed

text \<open>
  A client that goes away takes its place as the waiting client with it, but its request stays
  pending: when the device does not answer it, the timer ends the whole daemon.
\<close>

lemma close_client_abandons: "cx_active_client ctx = int i \<Longrightarrow> cx_active_client (close_client ctx i) = -1 \<and>
    cx_session (close_client ctx i) = cx_session ctx"
  by (simp add: close_client_def release_def set_client_def Let_def)

lemma abandoned_request_ends_daemon:
  assumes "cx_active_client ctx = -1" "\<not> devmgr_upgrade_active (cx_upgrade ctx)" "pe_active (se_pending (cx_session ctx))"
    "pe_deadline_ns (se_pending (cx_session ctx)) \<le> fst (monotonic_ns env ctx)"
    "max_retries (pe_policy (se_pending (cx_session ctx))) \<le> pe_retries_done (se_pending (cx_session ctx))"
  shows "fst (handle_timer env ctx) = DEVMGR_ERROR_TIMEOUT"
  using assms by (simp add: handle_timer_def monotonic_ns_def devmgr_session_tick_def Let_def not_less)

text \<open>
  A path that \<open>create_listener\<close> refuses because it is no socket is removed all the same when the
  failed start is cleaned up.
\<close>

lemma worker_destroy_socket [simp]: "cx_socket_path (devmgr_worker_destroy acts ctx) = cx_socket_path ctx"
  by (rule worker_destroy_parts)

lemma refused_socket_path_removed:
  assumes "dc_device_path c \<noteq> None" "dc_socket_path c = Some path" "le_lstat (su_listener senv) = Inr False"
  obtains r es where "devmgr_daemon_run env senv (Some c) waits acts closes = Some (r, es)" "r \<noteq> DEVMGR_OK" "last es = Unlinked path"
proof -
  obtain r ctx where s: "setup_context env senv c = (r, ctx)" by (rule prod.exhaust)
  have l: "fst (create_listener (su_listener senv) path) = -1" using assms(3) by (simp add: create_listener_def)
  have r: "r \<noteq> DEVMGR_OK"
  proof
    assume "r = DEVMGR_OK"
    then obtain fd es where "create_listener (su_listener senv) (the (dc_socket_path c)) = (fd, es)" "0 \<le> fd"
      using s by (auto elim: setup_context_stages)
    then show False using l assms(2) by simp
  qed
  have p: "cx_socket_path ctx = Some path" "length (cx_clients ctx) = MAX_CLIENTS"
    using s l assms(2) by (auto simp: setup_context_def Let_def fresh_context_def release_def split: if_splits prod.splits)
  have "last (cx_effects (cleanup_context acts closes ctx)) = Unlinked path"
    using cleanup_effects [OF p(2), of acts closes] p(1) by simp
  then show thesis using that [of r "cx_effects (cleanup_context acts closes ctx)"] s r assms(1,2) by (simp add: devmgr_daemon_run_def)
qed

text \<open>
  While bytes of the previous frame are still unsent, a retransmission that falls due, or an answer
  of the device that calls for the next upgrade request, ends the daemon with \<open>BUSY\<close>.
\<close>

lemma stuck_output_ends_daemon:
  assumes "cx_transport_output_offset ctx < length (cx_transport_output ctx)" "pe_active (se_pending (cx_session ctx))"
    "pe_deadline_ns (se_pending (cx_session ctx)) \<le> fst (monotonic_ns env ctx)"
    "pe_retries_done (se_pending (cx_session ctx)) < max_retries (pe_policy (se_pending (cx_session ctx)))"
  shows "fst (handle_timer env ctx) = DEVMGR_ERROR_BUSY"
  using assms(1-3) assms(4) [folded not_le]
  by (simp add: handle_timer_def monotonic_ns_def devmgr_session_tick_def retransmit_frame_def queue_frame_def Let_def not_less)

lemma early_answer_ends_daemon:
  assumes "cx_transport_output_offset ctx < length (cx_transport_output ctx)" "\<not> pe_active (se_pending (cx_session ctx))"
    and "devmgr_upgrade_accept_response (cx_upgrade ctx) t r = (DEVMGR_OK, u)" "up_state u \<noteq> DEVMGR_UPGRADE_COMPLETE"
    and "upgrade_inv u" "devmgr_upgrade_build_request u = (Inr f, u')" "session_inv (cx_session ctx)"
  shows "fst (upgrade_response env ctx t r) = DEVMGR_ERROR_BUSY"
proof -
  let ?policy = "\<lparr>timeout_ms = 2000, retry_interval_ms = 750, max_retries = 4\<rparr>"
  have wf: "frame_wf f" by (rule build_request_wf [OF assms(5,6)])
  obtain q se where "devmgr_session_begin_request (cx_session ctx) (fr_type f) (fr_flags f) (Some (fr_payload f)) (fr_payload_length f)
      ?policy (fst (monotonic_ns env (ctx\<lparr>cx_upgrade := u'\<rparr>))) = (Inr q, se)"
    using begin_request_idle [OF assms(2) wf, of ?policy "fst (monotonic_ns env (ctx\<lparr>cx_upgrade := u'\<rparr>))"] by auto
  then show ?thesis
    using assms(1,3,4,6) by (simp add: upgrade_response_def queue_upgrade_request_def monotonic_ns_def queue_frame_def Let_def)
qed

text \<open>Bytes behind a request in the same read keep it from ever being started.\<close>

lemma trailing_bytes_stall:
  assumes "request_wf q" "gathers ctx i (request_wire q) 0" "extra \<noteq> []" "length (request_wire q @ extra) \<le> CLIENT_INPUT_SIZE"
  shows "handle_client_input env ctx i [Inr (request_wire q @ extra), Inl EAGAIN] = (DEVMGR_OK, set_client ctx i ((cx_clients ctx ! i)
    \<lparr>cl_input := request_wire q @ extra, cl_expected_size := length (request_wire q)\<rparr>))"
proof -
  let ?w = "request_wire q"
  have L: "length ?w = 8 + unat (rq_payload_length q)" "unat (rq_payload_length q) \<le> 4096"
    using request_wire_length [OF assms(1)] assms(1) by (simp_all add: request_wf_def)
  have a: "devmgr_get_le32 (drop 4 (?w @ extra)) = rq_payload_length q" by (simp add: request_wire_def)
  have c: "cl_input (cx_clients ctx ! i) = []" "cl_expected_size (cx_clients ctx ! i) = 0" using assms(2) by (simp_all add: gathers_def)
  have "client_bytes env ctx i (?w @ extra) = (set_client ctx i ((cx_clients ctx ! i)
      \<lparr>cl_input := ?w @ extra, cl_expected_size := length ?w\<rparr>), None)"
    unfolding client_bytes_def Let_def using L a c assms(3) by (simp del: drop_append)
  then show ?thesis using c(1) assms(3,4) by simp
qed

text \<open>
  A response whose client is gone does not move the session: after a start of telemetry the device
  streams while the session stays READY, where a stop is refused. While an upgrade is being
  validated, such a response fails the upgrade.
\<close>

lemma orphan_response_ignored:
  assumes "cx_active_client ctx = -1" "\<not> devmgr_upgrade_active (cx_upgrade ctx)" "se_state (cx_session ctx) = DEVMGR_DEVICE_READY"
    "fr_sequence r \<noteq> 0"
  shows "se_state (cx_session (snd (on_device_frame env r ctx))) = DEVMGR_DEVICE_READY"
proof -
  obtain x se where a: "devmgr_session_accept_response (cx_session ctx) r = (x, se)" by (rule prod.exhaust)
  then have "se_state se = DEVMGR_DEVICE_READY"
    using assms(3) by (auto simp: devmgr_session_accept_response_def Let_def split: if_splits)
  then show ?thesis using assms(1,2,4) a by (simp add: on_device_frame_def Let_def)
qed

lemma stop_refused_when_ready:
  assumes "se_state (cx_session ctx) = DEVMGR_DEVICE_READY" "\<not> devmgr_upgrade_active (cx_upgrade ctx)"
    "rq_command q = DEVMGR_MSG_STOP_TELEMETRY"
  shows "request_device env ctx i q = queue_client_response env ctx i DEVMGR_MSG_STOP_TELEMETRY DEVMGR_ERROR_STATE None 0"
  using assms by (simp add: request_device_def Let_def)

lemma orphan_response_fails_validation:
  assumes "up_state (cx_upgrade ctx) = DEVMGR_UPGRADE_VALIDATING" "\<not> refusal r"
  shows "up_state (cx_upgrade (snd (upgrade_response env ctx t r))) = DEVMGR_UPGRADE_ERROR"
proof -
  obtain x u where a: "devmgr_upgrade_accept_response (cx_upgrade ctx) t r = (x, u)" by (rule prod.exhaust)
  then have "x \<noteq> DEVMGR_OK" "up_state u = DEVMGR_UPGRADE_ERROR"
    using assms by (auto simp: devmgr_upgrade_accept_response_def refusal_def Let_def split: if_splits)
  then show ?thesis using a by (simp add: upgrade_response_def close_firmware_def release_def session_event_def Let_def split: prod.splits)
qed

end
